(* ===== verification/LDR_Prelude.thy ===== *)
theory LDR_Prelude
  imports Main "HOL-Library.Word" "HOL-Library.Numeral_Type" "HOL-Library.Type_Length"
begin

text \<open>
  Shared vocabulary of the development: how a Go computation can stop (\<open>fault\<close>), the sum type
  every fallible operation returns, Go's fixed-size arrays as a type, slices, and the
  little- and big-endian encodings of \<open>encoding/binary\<close>, together with the lemma collections
  the component theories use.
\<close>

unbundle bit_operations_syntax

section \<open>Lemma collections\<close>

named_theorems res_simps \<open>evaluation of fault-or-value computations\<close>
named_theorems arr_simps \<open>fixed-size arrays read as lists\<close>

section \<open>Machine types\<close>

type_synonym u8 = "8 word"
type_synonym u16 = "16 word"
type_synonym u32 = "32 word"
type_synonym u64 = "64 word"
type_synonym i64 = "64 word"

section \<open>Faults and fallible computations\<close>

text \<open>
  A Go run-time panic (nil dereference, index or slice out of range, failed type assertion)
  and a call of \<open>log.Fatal\<close> both end the program. They are the left values of the sum; an
  ordinary Go \<open>error\<close> result is a value, kept inside the right side.
\<close>

datatype fault =
    NilDeref
  | OutOfRange
  | BadAssertion
  | Panic string
  | Fatal string

type_synonym 'a res = "fault + 'a"

type_synonym go_error = string

definition bind_res :: "'a res \<Rightarrow> ('a \<Rightarrow> 'b res) \<Rightarrow> 'b res" where
  "bind_res m f = (case m of Inl e \<Rightarrow> Inl e | Inr x \<Rightarrow> f x)"

lemma bind_res_Inl [simp, res_simps]: "bind_res (Inl e) f = Inl e"
  by (simp add: bind_res_def)

lemma bind_res_Inr [simp, res_simps]: "bind_res (Inr x) f = f x"
  by (simp add: bind_res_def)

lemma bind_res_eq_Inr [res_simps]:
  "bind_res m f = Inr y \<longleftrightarrow> (\<exists>x. m = Inr x \<and> f x = Inr y)"
  by (cases m) auto

lemma bind_res_eq_Inl:
  "bind_res m f = Inl e \<longleftrightarrow> m = Inl e \<or> (\<exists>x. m = Inr x \<and> f x = Inl e)"
  by (cases m) auto

lemma bind_res_assoc: "bind_res (bind_res m f) g = bind_res m (\<lambda>x. bind_res (f x) g)"
  by (cases m) auto

lemma bind_res_cong [fundef_cong]:
  "m = m' \<Longrightarrow> (\<And>x. m' = Inr x \<Longrightarrow> f x = f' x) \<Longrightarrow> bind_res m f = bind_res m' f'"
  by (cases m) auto

lemma not_Inr_iff_Inl: "(\<forall>y. m \<noteq> Inr y) \<longleftrightarrow> (\<exists>e. m = Inl e)"
  by (cases m) auto

text \<open>What holds of the result of a computation that may fault, computed backwards through it.\<close>

definition post :: "'a res \<Rightarrow> ('a \<Rightarrow> bool) \<Rightarrow> bool" where
  "post m P \<longleftrightarrow> (\<forall>x. m = Inr x \<longrightarrow> P x)"

lemma post_simps [simp]:
  "post (Inl e) P" "post (Inr x) P = P x" "post (bind_res m f) P = post m (\<lambda>x. post (f x) P)"
  by (auto simp: post_def bind_res_eq_Inr)

lemma postI: "(\<And>x. m = Inr x \<Longrightarrow> P x) \<Longrightarrow> post m P"
  by (simp add: post_def)

lemma postD: "post m P \<Longrightarrow> m = Inr x \<Longrightarrow> P x"
  by (simp add: post_def)

lemma post_mono: "post m P \<Longrightarrow> (\<And>x. P x \<Longrightarrow> Q x) \<Longrightarrow> post m Q"
  by (simp add: post_def)

text \<open>\<open>fold_res\<close> is a \<open>for range\<close> loop whose body may fault; the state is threaded through.\<close>

fun fold_res :: "('a \<Rightarrow> 's \<Rightarrow> 's res) \<Rightarrow> 'a list \<Rightarrow> 's \<Rightarrow> 's res" where
  "fold_res f [] s = Inr s"
| "fold_res f (x # xs) s = bind_res (f x s) (fold_res f xs)"

lemma fold_res_append:
  "fold_res f (xs @ ys) s = bind_res (fold_res f xs s) (fold_res f ys)"
  by (induction xs arbitrary: s) (auto simp: bind_res_assoc intro: bind_res_cong)

lemma fold_res_invariant:
  assumes "fold_res f xs s = Inr s'" and "P s"
    and "\<And>x s s'. x \<in> set xs \<Longrightarrow> P s \<Longrightarrow> f x s = Inr s' \<Longrightarrow> P s'"
  shows "P s'"
  using assms
proof (induction xs arbitrary: s)
  case (Cons x xs)
  then obtain t where "f x s = Inr t" "fold_res f xs t = Inr s'"
    by (auto simp: res_simps)
  with Cons show ?case
    by (metis list.set_intros)
qed simp

lemma fold_res_total:
  assumes "P s"
    and "\<And>x s. x \<in> set xs \<Longrightarrow> P s \<Longrightarrow> \<exists>s'. f x s = Inr s' \<and> P s'"
  shows "\<exists>s'. fold_res f xs s = Inr s' \<and> P s'"
  using assms
proof (induction xs arbitrary: s)
  case (Cons x xs)
  then obtain t where "f x s = Inr t" "P t"
    by (metis list.set_intros(1))
  with Cons show ?case
    by (metis bind_res_Inr fold_res.simps(2) list.set_intros(2))
qed simp

text \<open>\<open>map_res\<close> is a loop that appends one result per element to a new slice.\<close>

fun map_res :: "('a \<Rightarrow> 'b res) \<Rightarrow> 'a list \<Rightarrow> 'b list res" where
  "map_res f [] = Inr []"
| "map_res f (x # xs) = bind_res (f x) (\<lambda>y. bind_res (map_res f xs) (\<lambda>ys. Inr (y # ys)))"

lemma map_res_eq_Inr:
  "map_res f xs = Inr ys \<longleftrightarrow> list_all2 (\<lambda>x y. f x = Inr y) xs ys"
  by (induction xs arbitrary: ys) (auto simp: res_simps list_all2_Cons1)

lemma map_res_total: "(\<And>x. x \<in> set xs \<Longrightarrow> f x = Inr (g x)) \<Longrightarrow> map_res f xs = Inr (map g xs)"
  by (induction xs) auto

lemma map_res_fault:
  "(\<exists>f. map_res g xs = Inl f) \<longleftrightarrow> (\<exists>x \<in> set xs. \<exists>f. g x = Inl f)"
proof (induction xs)
  case (Cons x xs)
  then show ?case
    by (cases "g x"; cases "map_res g xs") auto
qed simp

lemma map_res_fault_from: "map_res g xs = Inl f \<Longrightarrow> \<exists>x \<in> set xs. g x = Inl f"
proof (induction xs)
  case (Cons x xs)
  then show ?case
    by (cases "g x"; cases "map_res g xs") auto
qed simp

lemma fold_res_cong:
  "(\<And>x s. x \<in> set xs \<Longrightarrow> f x s = g x s) \<Longrightarrow> fold_res f xs s = fold_res g xs s"
  by (induction xs arbitrary: s) (auto intro: bind_res_cong)

lemma fold_res_map: "fold_res f (map g xs) s = fold_res (\<lambda>x. f (g x)) xs s"
  by (induction xs arbitrary: s) (auto intro: bind_res_cong)

text \<open>A call of a client that answers an error ends the program with \<open>log.Fatal\<close>.\<close>

definition or_fatal :: "go_error + 'a \<Rightarrow> 'a res" where
  "or_fatal r = (case r of Inl err \<Rightarrow> Inl (Fatal err) | Inr x \<Rightarrow> Inr x)"

lemma or_fatal_simps [simp, res_simps]:
  "or_fatal (Inl err) = Inl (Fatal err)"
  "or_fatal (Inr x) = Inr x"
  by (simp_all add: or_fatal_def)

lemma or_fatal_eq_Inr [res_simps]: "or_fatal r = Inr x \<longleftrightarrow> r = Inr x"
  by (cases r) simp_all

section \<open>Go's fixed-size arrays\<close>

text \<open>
  \<open>[N]T\<close> is a value of length \<open>N\<close>: a list of that length, with the length in the type
  (\<open>(u8, 4) arr\<close> is \<open>[4]byte\<close>). Arrays are copied and compared by value in Go, as here.
\<close>

typedef (overloaded) ('a, 'n::len) arr = "{xs :: 'a list. length xs = LENGTH('n)}"
  morphisms list_of Arr
proof
  show "replicate LENGTH('n) undefined \<in> {xs :: 'a list. length xs = LENGTH('n)}"
    by simp
qed

setup_lifting type_definition_arr

lemma length_list_of [simp, arr_simps]:
  fixes a :: "('a, 'n::len) arr"
  shows "length (list_of a) = LENGTH('n)"
  using list_of [of a] by simp

lemma arr_eq_iff: "a = b \<longleftrightarrow> list_of a = list_of b"
  by (simp add: list_of_inject)

text \<open>\<open>[N]T\<close> with every element \<open>x\<close>; the zero value is \<open>arr_fill\<close> of the element's zero.\<close>

lift_definition arr_fill :: "'a \<Rightarrow> ('a, 'n::len) arr" is "\<lambda>x. replicate LENGTH('n) x"
  by simp

text \<open>\<open>copy(dst[:], src)\<close>: as many elements as both have; the rest of \<open>dst\<close> stays.\<close>

lift_definition arr_copy :: "('a, 'n::len) arr \<Rightarrow> 'a list \<Rightarrow> ('a, 'n) arr"
  is "\<lambda>d s. take LENGTH('n) s @ drop (length s) d"
  by auto

text \<open>\<open>a[i] = x\<close> at an index the caller has checked.\<close>

lift_definition arr_set :: "('a, 'n::len) arr \<Rightarrow> nat \<Rightarrow> 'a \<Rightarrow> ('a, 'n) arr"
  is "\<lambda>d i x. d[i := x]"
  by simp

instantiation arr :: (equal, len) equal
begin

definition equal_arr :: "('a, 'b) arr \<Rightarrow> ('a, 'b) arr \<Rightarrow> bool" where
  "equal_arr a b \<longleftrightarrow> list_of a = list_of b"

instance
  by standard (simp add: equal_arr_def list_of_inject)

end

instantiation arr :: (zero, len) zero
begin

definition zero_arr :: "('a, 'b) arr" where
  "zero_arr = arr_fill 0"

instance ..

end

lemma list_of_fill [simp, arr_simps]:
  "list_of (arr_fill x :: ('a, 'n::len) arr) = replicate LENGTH('n) x"
  by transfer simp

lemma list_of_copy [arr_simps]:
  "list_of (arr_copy (a :: ('a, 'n::len) arr) xs) = take LENGTH('n) xs @ drop (length xs) (list_of a)"
  by transfer simp

lemma list_of_set [simp, arr_simps]: "list_of (arr_set a i x) = (list_of a)[i := x]"
  by transfer simp

lemma list_of_copy_full [simp, arr_simps]:
  "length xs = LENGTH('n) \<Longrightarrow> list_of (arr_copy (a :: ('a, 'n::len) arr) xs) = xs"
  by (simp add: list_of_copy)

lemma arr_copy_list_of [simp, arr_simps]: "arr_copy a (list_of b) = b"
  by (simp add: arr_eq_iff)

lemma arr_copy_inject:
  "length xs = LENGTH('n) \<Longrightarrow> length ys = LENGTH('n) \<Longrightarrow>
   arr_copy (a :: ('a, 'n::len) arr) xs = arr_copy b ys \<longleftrightarrow> xs = ys"
  by (simp add: arr_eq_iff)

type_synonym address = "(u8, 4) arr"
type_synonym pubkey = "(u8, 33) arr"
type_synonym hash256 = "(u8, 32) arr"
type_synonym bits32 = "(bool, 32) arr"

section \<open>Slices\<close>

text \<open>
  \<open>s[a:b]\<close>. Go checks the bounds against the capacity; every slice this program takes is of a
  buffer whose capacity is its length (made by \<open>make\<close>, or by \<open>gcm.Open\<close> with a nil
  destination), so the bound is the length.
\<close>

definition slice :: "nat \<Rightarrow> nat \<Rightarrow> 'a list \<Rightarrow> 'a list res" where
  "slice a b s = (if a \<le> b \<and> b \<le> length s then Inr (take (b - a) (drop a s)) else Inl OutOfRange)"

lemma slice_eq_Inr [res_simps]:
  "slice a b s = Inr t \<longleftrightarrow> a \<le> b \<and> b \<le> length s \<and> t = take (b - a) (drop a s)"
  by (auto simp: slice_def)

lemma slice_short [simp]: "length s < b \<Longrightarrow> slice a b s = Inl OutOfRange"
  by (simp add: slice_def)

lemma slice_append:
  "length xs = a \<Longrightarrow> length ys = b - a \<Longrightarrow> a \<le> b \<Longrightarrow> slice a b (xs @ ys @ zs) = Inr ys"
  by (simp add: slice_def)

definition index :: "'a list \<Rightarrow> nat \<Rightarrow> 'a res" where
  "index s i = (if i < length s then Inr (s ! i) else Inl OutOfRange)"

lemma index_eq_Inr [res_simps]: "index s i = Inr x \<longleftrightarrow> i < length s \<and> x = s ! i"
  by (auto simp: index_def)

lemma index_in_range [simp]: "i < length s \<Longrightarrow> index s i = Inr (s ! i)"
  by (simp add: index_def)

end
