(* ===== verification/Record_Codec.thy ===== *)
theory Record_Codec
  imports LDR_Prelude
begin

text \<open>
  The contract of a fixed-size record format. Every \<open>serialize\<close>/\<open>deserialize\<close> pair of
  \<open>ldrlib/utils.go\<close> provides it: the encoding has one size, and decoding an encoding gives the
  value up to \<open>norm\<close>, the part of it the format keeps. What a reader of a concatenation of records
  relies on, and the faithfulness of the formats that keep everything, are derived here.
\<close>

locale record_codec =
  fixes enc :: "'a \<Rightarrow> u8 list"
    and dec :: "u8 list \<Rightarrow> 'a res"
    and width :: nat
    and norm :: "'a \<Rightarrow> 'a"
  assumes enc_width: "length (enc x) = width"
    and dec_enc: "dec (enc x) = Inr (norm x)"
begin

lemma length_concat_enc: "length (concat (map enc xs)) = length xs * width"
  by (induction xs) (simp_all add: enc_width)

lemma drop_concat_enc: "drop (n * width) (concat (map enc xs)) = concat (map enc (drop n xs))"
proof (induction n arbitrary: xs)
  case (Suc n)
  show ?case
    by (cases xs) (simp_all add: Suc [symmetric] enc_width)
qed simp

text \<open>The \<open>n\<close>-th record of a concatenation, behind a header and before a rest.\<close>

lemma slice_record:
  assumes "length hdr = start" and "n < length xs"
  shows "slice (start + n * width) (start + (n + 1) * width) (hdr @ concat (map enc xs) @ rest)
    = Inr (enc (xs ! n))"
proof -
  have "drop (n * width) (concat (map enc xs)) = enc (xs ! n) @ concat (map enc (drop (Suc n) xs))"
    using assms(2) by (simp add: drop_concat_enc Cons_nth_drop_Suc [symmetric])
  moreover have "(n + 1) * width \<le> length (concat (map enc xs))"
    unfolding length_concat_enc by (rule mult_le_mono1) (use assms(2) in simp)
  ultimately show ?thesis
    using assms(1) by (simp add: slice_def enc_width algebra_simps)
qed

lemma dec_record:
  assumes "length hdr = start" and "n < length xs"
  shows "bind_res (slice (start + n * width) (start + (n + 1) * width) (hdr @ concat (map enc xs) @ rest)) dec
    = Inr (norm (xs ! n))"
  by (simp only: slice_record [OF assms] dec_enc bind_res_Inr)

text \<open>Reading all records of a concatenation, one slice after the other.\<close>

lemma dec_records:
  assumes "length hdr = start" and "m \<le> length xs"
  shows "map_res (\<lambda>n. bind_res (slice (start + n * width) (start + (n + 1) * width)
      (hdr @ concat (map enc xs) @ rest)) dec) [0..<m] = Inr (map norm (take m xs))"
proof -
  have "map_res (\<lambda>n. bind_res (slice (start + n * width) (start + (n + 1) * width)
      (hdr @ concat (map enc xs) @ rest)) dec) [0..<m] = Inr (map (\<lambda>n. norm (xs ! n)) [0..<m])"
    by (rule map_res_total, rule dec_record) (use assms in auto)
  also have "map (\<lambda>n. norm (xs ! n)) [0..<m] = map norm (take m xs)"
    using assms(2) by (auto intro: nth_equalityI)
  finally show ?thesis .
qed

end

text \<open>A format that keeps the whole value, and in which every string of the right size is an encoding.\<close>

locale exact_codec = record_codec enc dec width norm
  for enc :: "'a \<Rightarrow> u8 list" and dec :: "u8 list \<Rightarrow> 'a res" and width norm +
  assumes norm_id: "norm x = x"
    and dec_exact: "length bs = width \<Longrightarrow> \<exists>x. dec bs = Inr x \<and> enc x = bs"
begin

lemma dec_enc_id: "dec (enc x) = Inr x"
  by (simp only: dec_enc norm_id)

lemma enc_inject: "enc x = enc y \<longleftrightarrow> x = y"
proof
  assume "enc x = enc y"
  then have "dec (enc x) = dec (enc y)" by (rule arg_cong)
  then show "x = y" by (simp only: dec_enc_id sum.inject)
qed (rule arg_cong)

lemma dec_eq_iff:
  assumes "length bs = width"
  shows "dec bs = Inr x \<longleftrightarrow> bs = enc x"
proof -
  obtain y where "dec bs = Inr y" "enc y = bs"
    using dec_exact [OF assms] by blast
  then show ?thesis
    using enc_inject [of y x] by (simp only: sum.inject)
qed

end

end
