(* ===== verification/Endian.thy ===== *)
theory Endian
  imports LDR_Prelude
begin

text \<open>
  The part of Go's standard package \<open>encoding/binary\<close> the program uses: \<open>PutUint16/32/64\<close> and
  \<open>Uint16/32/64\<close> of \<open>LittleEndian\<close> and \<open>BigEndian\<close>, for any width, with the proof that reading
  gives back what was written and that writing gives back what was read.
\<close>

section \<open>Little-endian and big-endian bytes\<close>

text \<open>The \<open>n\<close> low bytes of a word, least significant first.\<close>

definition le_bytes :: "nat \<Rightarrow> 'a::len word \<Rightarrow> u8 list" where
  "le_bytes n w = map (\<lambda>i. ucast (drop_bit (8 * i) w)) [0..<n]"

fun le_val :: "u8 list \<Rightarrow> 'a::len word" where
  "le_val [] = 0"
| "le_val (b # bs) = ucast b OR push_bit 8 (le_val bs)"

definition be_bytes :: "nat \<Rightarrow> 'a::len word \<Rightarrow> u8 list" where
  "be_bytes n w = rev (le_bytes n w)"

definition be_val :: "u8 list \<Rightarrow> 'a::len word" where
  "be_val bs = le_val (rev bs)"

text \<open>\<open>UintN(b)\<close> reads the first bytes of \<open>b\<close> and panics when there are too few.\<close>

definition le_get :: "nat \<Rightarrow> u8 list \<Rightarrow> 'a::len word res" where
  "le_get n bs = (if length bs < n then Inl OutOfRange else Inr (le_val (take n bs)))"

definition be_get :: "nat \<Rightarrow> u8 list \<Rightarrow> 'a::len word res" where
  "be_get n bs = (if length bs < n then Inl OutOfRange else Inr (be_val (take n bs)))"

lemma length_le_bytes [simp]: "length (le_bytes n w) = n"
  by (simp add: le_bytes_def)

lemma length_be_bytes [simp]: "length (be_bytes n w) = n"
  by (simp add: be_bytes_def)

lemma le_bytes_nth: "i < n \<Longrightarrow> le_bytes n w ! i = ucast (drop_bit (8 * i) w)"
  by (simp add: le_bytes_def)

lemma bit_le_val:
  "bit (le_val bs :: 'a::len word) k \<longleftrightarrow>
   k < LENGTH('a) \<and> k < 8 * length bs \<and> bit (bs ! (k div 8)) (k mod 8)"
proof (induction bs arbitrary: k)
  case (Cons b bs)
  show ?case
  proof (cases "k < 8")
    case True
    then show ?thesis
      by (auto simp: bit_simps)
  next
    case False
    then have "k div 8 = Suc ((k - 8) div 8)" "k mod 8 = (k - 8) mod 8"
      by (simp_all add: div_if le_mod_geq)
    moreover have "\<not> bit b k"
      using False bit_imp_le_length [of b k] by auto
    ultimately show ?thesis
      using False Cons.IH [of "k - 8"] by (auto simp: bit_simps)
  qed
qed simp

lemma le_val_le_bytes:
  "le_val (le_bytes n (w :: 'a::len word)) = take_bit (8 * n) w"
proof (rule bit_word_eqI)
  fix k
  assume k: "k < LENGTH('a)"
  have "k div 8 < n" if "k < 8 * n"
    using that by (simp add: less_mult_imp_div_less mult.commute)
  then show "bit (le_val (le_bytes n w) :: 'a word) k \<longleftrightarrow> bit (take_bit (8 * n) w) k"
    using k by (auto simp: bit_le_val le_bytes_nth bit_simps)
qed

lemma le_bytes_le_val:
  assumes "length bs = n" and "8 * n \<le> LENGTH('a::len)"
  shows "le_bytes n (le_val bs :: 'a word) = bs"
proof (rule nth_equalityI)
  fix i
  assume "i < length (le_bytes n (le_val bs :: 'a word))"
  then have i: "i < n" by simp
  show "le_bytes n (le_val bs :: 'a word) ! i = bs ! i"
  proof (rule bit_word_eqI)
    fix k
    assume k: "k < LENGTH(8)"
    have "8 * i + k < 8 * n" "8 * i + k < LENGTH('a)"
      using i k assms by simp_all
    then show "bit (le_bytes n (le_val bs :: 'a word) ! i) k \<longleftrightarrow> bit (bs ! i) k"
      using i k assms by (simp add: le_bytes_nth bit_simps bit_le_val)
  qed
qed (use assms in simp)

lemma le_get_bytes [simp, res_simps]:
  "8 * n = LENGTH('a::len) \<Longrightarrow> le_get n (le_bytes n (w :: 'a word)) = Inr w"
  by (simp add: le_get_def le_val_le_bytes)

lemma be_get_bytes [simp, res_simps]:
  "8 * n = LENGTH('a::len) \<Longrightarrow> be_get n (be_bytes n (w :: 'a word)) = Inr w"
  by (simp add: be_get_def be_val_def be_bytes_def le_val_le_bytes)

lemma le_get_short: "length bs < n \<Longrightarrow> le_get n bs = Inl OutOfRange"
  by (simp add: le_get_def)

lemma le_get_exact: "length bs = n \<Longrightarrow> le_get n bs = Inr (le_val bs)"
  by (simp add: le_get_def)

lemma be_get_exact: "length bs = n \<Longrightarrow> be_get n bs = Inr (be_val bs)"
  by (simp add: be_get_def)

lemma be_bytes_be_val:
  "length bs = n \<Longrightarrow> 8 * n \<le> LENGTH('a::len) \<Longrightarrow> be_bytes n (be_val bs :: 'a word) = bs"
  by (simp add: be_bytes_def be_val_def le_bytes_le_val)

lemma le_bytes_inject:
  "8 * n = LENGTH('a::len) \<Longrightarrow> le_bytes n (v :: 'a word) = le_bytes n w \<longleftrightarrow> v = w"
  by (metis Inr_inject le_get_bytes)

end
