(* ===== verification/Address_Bits.thy ===== *)
theory Address_Bits
  imports Endian
begin

text \<open>
  The bit view of a routing address (\<open>ldrlib/utils.go\<close>, \<open>bitToByte\<close> and \<open>byteToBit\<close>): the loops
  of the source over a shifting mask, their closed form, and the proof that the two are inverse.
  The bits are the path of the address in the address tree, most significant bit first.
\<close>

section \<open>The loops\<close>

definition bitToByte_inner :: "bool list \<Rightarrow> nat \<Rightarrow> u8" where
  "bitToByte_inner addressBits a =
     snd (fold (\<lambda>b (multiplier, addressByte).
            (drop_bit 1 multiplier,
             if addressBits ! (a * 8 + b) then addressByte OR multiplier else addressByte))
          [0..<8] (0x80, 0))"

definition bitToByte :: "bits32 \<Rightarrow> address" where
  "bitToByte addressBits =
     fold (\<lambda>a addressBytes. arr_set addressBytes a (bitToByte_inner (list_of addressBits) a))
       [0..<4] 0"

definition byteToBit_inner :: "nat \<Rightarrow> u8 \<Rightarrow> bits32 \<Rightarrow> bits32" where
  "byteToBit_inner a addressByte addressBits =
     snd (fold (\<lambda>b (mask, bits).
            (drop_bit 1 mask, arr_set bits (8 * a + b) (mask AND addressByte = mask)))
          [0..<8] (0x80, addressBits))"

definition byteToBit :: "address \<Rightarrow> bits32" where
  "byteToBit address =
     fold (\<lambda>a bits. byteToBit_inner a (list_of address ! a) bits) [0..<4] (arr_fill False)"

section \<open>Closed forms\<close>

lemma length4_cases:
  assumes "length xs = 4"
  obtains w0 w1 w2 w3 where "xs = [w0, w1, w2, w3]"
  using assms by (auto simp: numeral_eq_Suc length_Suc_conv)

lemma upt32: "[0..<32] = [0, 1, 2, 3, 4, 5, 6, 7, 8, 9, 10, 11, 12, 13, 14, 15, 16, 17, 18, 19,
    20, 21, 22, 23, 24, 25, 26, 27, 28, 29, 30, 31::nat]"
  by (simp add: upt_rec)

lemma upt8: "[0..<8] = [0, 1, 2, 3, 4, 5, 6, 7::nat]"
  by (simp add: upt_rec)

lemma upt4: "[0..<4] = [0, 1, 2, 3::nat]"
  by (simp add: upt_rec)

lemma test_bit_mask:
  assumes "k < 8"
  shows "(2 ^ k :: u8) AND w = 2 ^ k \<longleftrightarrow> bit w k"
proof
  assume "(2 ^ k :: u8) AND w = 2 ^ k"
  then have "bit ((2 ^ k :: u8) AND w) k" using assms by (simp add: bit_simps)
  then show "bit w k" by (simp add: bit_simps)
next
  assume "bit w k"
  then show "(2 ^ k :: u8) AND w = 2 ^ k"
    by (intro bit_word_eqI) (auto simp: bit_simps)
qed

lemmas test_bit_masks =
  test_bit_mask [of 7, simplified] test_bit_mask [of 6, simplified]
  test_bit_mask [of 5, simplified] test_bit_mask [of 4, simplified]
  test_bit_mask [of 3, simplified] test_bit_mask [of 2, simplified]
  test_bit_mask [of 1, simplified] test_bit_mask [of 0, simplified]

text \<open>The bits of a byte, most significant first.\<close>

definition byte_bits :: "u8 \<Rightarrow> bool list" where
  "byte_bits w = [bit w 7, bit w 6, bit w 5, bit w 4, bit w 3, bit w 2, bit w 1, bit w 0]"

lemma length_byte_bits [simp]: "length (byte_bits w) = 8"
  by (simp add: byte_bits_def)

lemma list_of_byteToBit_inner:
  "list_of (byteToBit_inner a w bits) =
     fold (\<lambda>b xs. xs[8 * a + b := byte_bits w ! b]) [0..<8] (list_of bits)"
  by (simp add: byteToBit_inner_def upt8 byte_bits_def test_bit_masks)

lemma fold_list_update:
  "n + m \<le> length xs \<Longrightarrow>
   fold (\<lambda>b xs. xs[n + b := f b]) [0..<m] xs = take n xs @ map f [0..<m] @ drop (n + m) xs"
proof (induction m)
  case (Suc m)
  have "drop (n + m) xs = xs ! (n + m) # drop (Suc (n + m)) xs"
    using Suc.prems by (simp add: Cons_nth_drop_Suc)
  with Suc show ?case
    by (simp add: list_update_append)
qed simp

lemma map_byte_bits_nth: "map ((!) (byte_bits w)) [0..<8] = byte_bits w"
  by (metis length_byte_bits map_nth)

lemma list_of_byteToBit_inner_eq:
  assumes "a < 4"
  shows "list_of (byteToBit_inner a w bits) =
    take (8 * a) (list_of bits) @ byte_bits w @ drop (8 * a + 8) (list_of bits)"
  using assms by (simp add: list_of_byteToBit_inner fold_list_update map_byte_bits_nth)

text \<open>\<open>byteToBit\<close> is the concatenation of the bits of the four bytes.\<close>

lemma list_of_byteToBit: "list_of (byteToBit a) = concat (map byte_bits (list_of a))"
proof -
  obtain w0 w1 w2 w3 where a: "list_of a = [w0, w1, w2, w3]"
    by (rule length4_cases [of "list_of a"]) simp
  show ?thesis
    by (simp add: byteToBit_def upt4 a list_of_byteToBit_inner_eq)
qed

lemma bit_if_or: "bit (if c then w OR m else w) k \<longleftrightarrow> bit w k \<or> c \<and> bit m k"
  by (simp add: bit_or_iff)

lemma byte_bits_bitToByte_inner:
  "byte_bits (bitToByte_inner bits a) = map (\<lambda>b. bits ! (a * 8 + b)) [0..<8]"
  by (simp add: bitToByte_inner_def byte_bits_def upt8 bit_if_or)

lemma list_of_bitToByte:
  "list_of (bitToByte bits) = map (bitToByte_inner (list_of bits)) [0, 1, 2, 3]"
  by (simp add: bitToByte_def upt4 zero_arr_def numeral_eq_Suc)

lemma byte_bits_inject: "byte_bits v = byte_bits w \<longleftrightarrow> v = w"
proof
  assume eq: "byte_bits v = byte_bits w"
  show "v = w"
  proof (rule bit_word_eqI)
    fix k
    assume "k < LENGTH(8)"
    then have "k = 0 \<or> k = 1 \<or> k = 2 \<or> k = 3 \<or> k = 4 \<or> k = 5 \<or> k = 6 \<or> k = 7" by auto
    with eq show "bit v k = bit w k" by (auto simp: byte_bits_def)
  qed
qed simp

lemma concat_map_byte_bits_inject:
  "length xs = length ys \<Longrightarrow>
   concat (map byte_bits xs) = concat (map byte_bits ys) \<longleftrightarrow> xs = ys"
  by (induction xs ys rule: list_induct2) (auto simp: byte_bits_inject)

section \<open>The two are inverse\<close>

lemma byteToBit_bitToByte: "byteToBit (bitToByte bits) = bits"
proof -
  have "map ((!) (list_of bits)) [0..<32] =
      concat (map (\<lambda>a. map (\<lambda>b. list_of bits ! (a * 8 + b)) [0..<8]) [0, 1, 2, 3])"
    by (simp add: upt32 upt8 numeral_2_eq_2)
  moreover have "map ((!) (list_of bits)) [0..<32] = list_of bits"
    using map_nth [of "list_of bits"] by simp
  ultimately show ?thesis
    by (simp add: arr_eq_iff list_of_byteToBit list_of_bitToByte byte_bits_bitToByte_inner)
qed

lemma byteToBit_inject: "byteToBit a = byteToBit b \<longleftrightarrow> a = b"
  by (simp add: arr_eq_iff list_of_byteToBit concat_map_byte_bits_inject)

lemma bitToByte_byteToBit: "bitToByte (byteToBit a) = a"
  by (simp add: byteToBit_inject [symmetric] byteToBit_bitToByte)

lemmas bits_inverse [simp] = byteToBit_bitToByte bitToByte_byteToBit byteToBit_inject

lemma bitToByte_inject [simp]: "bitToByte a = bitToByte b \<longleftrightarrow> a = b"
  by (metis byteToBit_bitToByte)

end
