(* ===== verification/Binary_Tree.thy ===== *)
theory Binary_Tree
  imports Address_Bits
begin

text \<open>
  The binary tree of \<open>ldrlib/binaryTree.go\<close> and the loops of \<open>ldrlib/db.go\<close> that walk it.
  A \<open>*node\<close> is a value of \<open>node\<close>, \<open>NilNode\<close> the nil pointer. Nodes are never removed or moved and
  each has one parent, so a pointer to a node is the path that leads to it; a write through such
  a pointer is an update of the tree at that path.

  The abstract view of a tree is the map from paths to data (\<open>tree_map\<close>); \<open>tree_ok n\<close> is the shape
  every address tree has (data exactly at depth \<open>n\<close>, no dead branches), and the lemmas give
  the effect of each walk on the map.
\<close>

section \<open>Nodes\<close>

datatype 'a node =
    is_nil: NilNode
  | Node (node_data: "'a option") (node_left: "'a node") (node_right: "'a node")

definition createBinaryTree :: "'a node" where
  "createBinaryTree = Node None NilNode NilNode"

fun leftChild :: "'a node \<Rightarrow> 'a node res" where
  "leftChild NilNode = Inl NilDeref"
| "leftChild (Node d l r) = Inr l"

fun rightChild :: "'a node \<Rightarrow> 'a node res" where
  "rightChild NilNode = Inl NilDeref"
| "rightChild (Node d l r) = Inr r"

text \<open>The node with its new, empty child; the code returns the child, which is \<open>leftChild\<close> of it.\<close>

fun createLeftChild :: "'a node \<Rightarrow> 'a node res" where
  "createLeftChild NilNode = Inl NilDeref"
| "createLeftChild (Node d l r) = Inr (Node d (Node None NilNode NilNode) r)"

fun createRightChild :: "'a node \<Rightarrow> 'a node res" where
  "createRightChild NilNode = Inl NilDeref"
| "createRightChild (Node d l r) = Inr (Node d l (Node None NilNode NilNode))"

fun getData :: "'a node \<Rightarrow> 'a option res" where
  "getData NilNode = Inl NilDeref"
| "getData (Node d l r) = Inr d"

fun saveData :: "'a node \<Rightarrow> 'a \<Rightarrow> 'a node res" where
  "saveData NilNode x = Inl NilDeref"
| "saveData (Node d l r) x = Inr (Node (Some x) l r)"

text \<open>What a write through a child pointer does to the parent seen as a value.\<close>

fun put_left :: "'a node \<Rightarrow> 'a node \<Rightarrow> 'a node" where
  "put_left NilNode c = NilNode"
| "put_left (Node d l r) c = Node d c r"

fun put_right :: "'a node \<Rightarrow> 'a node \<Rightarrow> 'a node" where
  "put_right NilNode c = NilNode"
| "put_right (Node d l r) c = Node d l c"

text \<open>\<open>n.getData().(*addressInfo)\<close>: the assertion fails on a node without data.\<close>

definition getInfo :: "'a node \<Rightarrow> 'a res" where
  "getInfo head = bind_res (getData head)
     (\<lambda>d. case d of None \<Rightarrow> Inl BadAssertion | Some info \<Rightarrow> Inr info)"

section \<open>The loops over the address bits\<close>

text \<open>Follow the bits with no nil check: a missing child is dereferenced in the next round.\<close>

fun walk :: "bool list \<Rightarrow> 'a node \<Rightarrow> 'a node res" where
  "walk [] head = Inr head"
| "walk (b # bits) head = bind_res (if b then rightChild head else leftChild head) (walk bits)"

text \<open>Follow the bits, leaving the loop (\<open>None\<close>) at the first missing child.\<close>

fun walk_checked :: "bool list \<Rightarrow> 'a node \<Rightarrow> 'a node option res" where
  "walk_checked [] head = Inr (Some head)"
| "walk_checked (b # bits) head =
     bind_res (if b then rightChild head else leftChild head)
       (\<lambda>head'. if is_nil head' then Inr None else walk_checked bits head')"

text \<open>Follow the bits, creating the children that are missing, and save the data at the end.\<close>

fun walk_create :: "bool list \<Rightarrow> 'a \<Rightarrow> 'a node \<Rightarrow> 'a node res" where
  "walk_create [] info head = saveData head info"
| "walk_create (True # bits) info head =
     bind_res (rightChild head) (\<lambda>descendent.
       bind_res (if is_nil descendent then createRightChild head else Inr head) (\<lambda>head.
         bind_res (rightChild head) (\<lambda>child.
           bind_res (walk_create bits info child) (\<lambda>child. Inr (put_right head child)))))"
| "walk_create (False # bits) info head =
     bind_res (leftChild head) (\<lambda>descendent.
       bind_res (if is_nil descendent then createLeftChild head else Inr head) (\<lambda>head.
         bind_res (leftChild head) (\<lambda>child.
           bind_res (walk_create bits info child) (\<lambda>child. Inr (put_left head child)))))"

text \<open>A write through the data pointer of the node at the end of the path.\<close>

fun write_data :: "bool list \<Rightarrow> 'a \<Rightarrow> 'a node \<Rightarrow> 'a node res" where
  "write_data [] info head = saveData head info"
| "write_data (True # bits) info head =
     bind_res (rightChild head) (\<lambda>c. bind_res (write_data bits info c) (\<lambda>c. Inr (put_right head c)))"
| "write_data (False # bits) info head =
     bind_res (leftChild head) (\<lambda>c. bind_res (write_data bits info c) (\<lambda>c. Inr (put_left head c)))"

section \<open>The abstract view\<close>

fun subtree :: "'a node \<Rightarrow> bool list \<Rightarrow> 'a node" where
  "subtree t [] = t"
| "subtree NilNode (b # bs) = NilNode"
| "subtree (Node d l r) (b # bs) = subtree (if b then r else l) bs"

definition tree_map :: "'a node \<Rightarrow> bool list \<Rightarrow> 'a option" where
  "tree_map t p = (case subtree t p of NilNode \<Rightarrow> None | Node d _ _ \<Rightarrow> d)"

fun tree_ok :: "nat \<Rightarrow> 'a node \<Rightarrow> bool" where
  "tree_ok n NilNode = False"
| "tree_ok 0 (Node d l r) \<longleftrightarrow> d \<noteq> None \<and> l = NilNode \<and> r = NilNode"
| "tree_ok (Suc n) (Node d l r) \<longleftrightarrow>
     d = None \<and> (l = NilNode \<or> tree_ok n l) \<and> (r = NilNode \<or> tree_ok n r) \<and>
     (l \<noteq> NilNode \<or> r \<noteq> NilNode)"

text \<open>The root may also be the fresh node of an empty database.\<close>

definition root_ok :: "nat \<Rightarrow> 'a node \<Rightarrow> bool" where
  "root_ok n t \<longleftrightarrow> t = createBinaryTree \<or> tree_ok n t"

lemma tree_ok_not_nil: "tree_ok n t \<Longrightarrow> t \<noteq> NilNode"
  by auto

lemma subtree_nil [simp]: "subtree NilNode p = NilNode"
  by (cases p) auto

lemma tree_map_nil [simp]: "tree_map NilNode p = None"
  by (simp add: tree_map_def)

lemma tree_map_Cons [simp]: "tree_map (Node d l r) (b # bs) = tree_map (if b then r else l) bs"
  by (simp add: tree_map_def)

lemma tree_map_Nil [simp]: "tree_map (Node d l r) [] = d"
  by (simp add: tree_map_def)

lemma tree_map_create [simp]: "tree_map createBinaryTree p = None"
  by (cases p) (auto simp: createBinaryTree_def)

lemma subtree_append: "subtree t (p @ q) = subtree (subtree t p) q"
  by (induction t p rule: subtree.induct) auto

lemma tree_ok_subtree:
  "tree_ok (n + length p) t \<Longrightarrow> subtree t p = NilNode \<or> tree_ok n (subtree t p)"
  by (induction t p rule: subtree.induct) (auto split: if_splits)

text \<open>At full depth a node is there exactly when the map has a value.\<close>

lemma tree_ok_leaf: "tree_ok (length p) t \<Longrightarrow> is_nil (subtree t p) \<longleftrightarrow> tree_map t p = None"
  using tree_ok_subtree [of 0 p t]
  by (auto simp: tree_map_def split: node.splits)

section \<open>What the walks do to the map\<close>

lemma walk_getInfo:
  assumes "tree_ok (length p) t"
  shows "bind_res (walk p t) getInfo =
    (case tree_map t p of None \<Rightarrow> Inl NilDeref | Some x \<Rightarrow> Inr x)"
  using assms
proof (induction p arbitrary: t)
  case Nil
  then show ?case by (cases t) (auto simp: getInfo_def)
next
  case (Cons b p)
  then obtain d l r where t: "t = Node d l r" by (cases t) auto
  have nil: "bind_res (walk p NilNode) getInfo = Inl NilDeref"
    by (cases p) (auto simp: getInfo_def)
  show ?case
    using Cons t nil by (cases "(if b then r else l) = NilNode") (auto split: if_splits)
qed

lemma walk_getInfo_create:
  assumes "p \<noteq> []"
  shows "bind_res (walk p createBinaryTree) getInfo = Inl NilDeref"
proof -
  obtain b q where p: "p = b # q" using assms by (cases p) auto
  have "bind_res (walk q NilNode) getInfo = Inl NilDeref"
    by (cases q) (auto simp: getInfo_def)
  then show ?thesis by (simp add: p createBinaryTree_def)
qed

lemma walk_checked_tree_map:
  assumes "tree_ok (length p) t"
  shows "walk_checked p t = Inr (if tree_map t p = None then None else Some (subtree t p))"
  using assms
proof (induction p arbitrary: t)
  case Nil
  then show ?case by (cases t) auto
next
  case (Cons b p)
  then obtain d l r where t: "t = Node d l r" by (cases t) auto
  then show ?case
    using Cons by (cases "(if b then r else l) = NilNode") (auto split: if_splits)
qed

lemma walk_checked_create: "p \<noteq> [] \<Longrightarrow> walk_checked p createBinaryTree = Inr None"
  by (cases p) (auto simp: createBinaryTree_def)

text \<open>One round of the creating loop goes down into the child, or into a fresh node.\<close>

definition grow :: "'a node \<Rightarrow> 'a node" where
  "grow t = (if is_nil t then createBinaryTree else t)"

lemma tree_map_grow [simp]: "tree_map (grow t) p = tree_map t p"
  by (auto simp: grow_def is_nil_def)

lemma walk_create_Cons:
  "walk_create (b # p) x (Node d l r) =
   bind_res (walk_create p x (grow (if b then r else l)))
     (\<lambda>c. Inr (if b then Node d l c else Node d c r))"
  by (cases b) (auto simp: grow_def is_nil_def createBinaryTree_def)

lemma walk_create_grow:
  assumes "t = NilNode \<or> tree_ok (length p) t"
  shows "\<exists>t'. walk_create p x (grow t) = Inr t' \<and> tree_ok (length p) t' \<and>
    (\<forall>q. length q = length p \<longrightarrow> tree_map t' q = (if q = p then Some x else tree_map t q))"
  using assms
proof (induction p arbitrary: t)
  case Nil
  then show ?case by (cases t) (auto simp: grow_def createBinaryTree_def)
next
  case (Cons b p)
  obtain l r where t: "grow t = Node None l r"
    and l: "l = NilNode \<or> tree_ok (length p) l" and r: "r = NilNode \<or> tree_ok (length p) r"
    using Cons.prems by (cases t) (auto simp: grow_def createBinaryTree_def)
  let ?s = "if b then r else l"
  have "?s = NilNode \<or> tree_ok (length p) ?s" using l r by simp
  then obtain c where c: "walk_create p x (grow ?s) = Inr c" "tree_ok (length p) c"
    and mc: "\<And>q. length q = length p \<Longrightarrow> tree_map c q = (if q = p then Some x else tree_map ?s q)"
    using Cons.IH by blast
  define t' where "t' = (if b then Node None l c else Node None c r)"
  have "walk_create (b # p) x (grow t) = Inr t'"
    using c by (simp add: t walk_create_Cons t'_def)
  moreover have "tree_ok (length (b # p)) t'"
    using c l r tree_ok_not_nil by (auto simp: t'_def)
  moreover have "tree_map t' q = (if q = b # p then Some x else tree_map t q)"
    if "length q = length (b # p)" for q
  proof -
    obtain b' q' where q: "q = b' # q'" "length q' = length p"
      using \<open>length q = length (b # p)\<close> by (cases q) auto
    have "tree_map t q = tree_map (Node None l r) q"
      by (metis t tree_map_grow)
    then show ?thesis
      using mc [OF q(2)] by (auto simp: q t'_def)
  qed
  ultimately show ?case by blast
qed

lemma walk_create_ok:
  assumes "root_ok (length p) t"
  shows "\<exists>t'. walk_create p x t = Inr t' \<and> tree_ok (length p) t' \<and>
    (\<forall>q. length q = length p \<longrightarrow> tree_map t' q = (if q = p then Some x else tree_map t q))"
proof (cases "tree_ok (length p) t")
  case True
  then show ?thesis
    using walk_create_grow [of t p x] by (cases t) (auto simp: grow_def)
next
  case False
  then have t: "t = grow NilNode" using assms by (simp add: root_ok_def grow_def)
  show ?thesis
    unfolding t tree_map_grow by (rule walk_create_grow) simp
qed

text \<open>Where the path exists the write does what the creating walk does.\<close>

lemma write_data_eq_create:
  "tree_ok (length p) t \<Longrightarrow> tree_map t p \<noteq> None \<Longrightarrow> write_data p x t = walk_create p x t"
proof (induction p arbitrary: t)
  case (Cons b p)
  then obtain d l r where t: "t = Node d l r" by (cases t) auto
  then have sub: "tree_ok (length p) (if b then r else l)"
    "tree_map (if b then r else l) p \<noteq> None"
    using Cons.prems by (auto split: if_splits)
  then show ?case
    using Cons.IH [OF sub] by (cases b) (auto simp: t walk_create_Cons grow_def is_nil_def)
qed simp

lemma write_data_ok:
  assumes "tree_ok (length p) t" and "tree_map t p \<noteq> None"
  shows "\<exists>t'. write_data p x t = Inr t' \<and> tree_ok (length p) t' \<and>
    (\<forall>q. length q = length p \<longrightarrow> tree_map t' q = (if q = p then Some x else tree_map t q))"
  using walk_create_ok [of p t x] assms by (simp add: root_ok_def write_data_eq_create)

end
