(* ===== verification/Routing_Stack.thy ===== *)
theory Routing_Stack
  imports LDR_Prelude
begin

text \<open>
  Routing entries (\<open>routingEntry\<close> of \<open>ldrlib/db.go\<close>) and the stack that orders them
  (\<open>ldrlib/routingStack.go\<close>, a \<open>container/list\<close>).

  Entries are shared: the stack and the address tree hold pointers to the same object, the
  stack removes by pointer identity, and \<open>SynchronizeRoutingDB\<close> writes through the pointer. So
  entries live in a store, \<open>entry_ref \<Rightarrow> routingEntry\<close>, and the stack is a list of references.
\<close>

section \<open>Entries and references\<close>

record routingEntry =
  re_destination :: address
  re_nextHop :: address
  re_capacity :: i64
  re_height :: u64

type_synonym entry_ref = nat

type_synonym entry_store = "entry_ref \<Rightarrow> routingEntry"

type_synonym routingStack = "entry_ref list"

section \<open>Operations\<close>

definition createRoutingStack :: routingStack where
  "createRoutingStack = []"

definition stack_empty :: "routingStack \<Rightarrow> bool" where
  "stack_empty s \<longleftrightarrow> length s = 0"

text \<open>\<open>Front()\<close> of an empty list is nil, and its \<open>Value\<close> a nil dereference.\<close>

fun stack_peek :: "routingStack \<Rightarrow> entry_ref res" where
  "stack_peek [] = Inl NilDeref"
| "stack_peek (e # s) = Inr e"

fun peekFromBlock :: "entry_store \<Rightarrow> u64 \<Rightarrow> routingStack \<Rightarrow> entry_ref list" where
  "peekFromBlock h fromBlock [] = []"
| "peekFromBlock h fromBlock (e # s) =
     (if re_height (h e) < fromBlock then [] else e # peekFromBlock h fromBlock s)"

definition stack_put :: "entry_ref \<Rightarrow> routingStack \<Rightarrow> routingStack" where
  "stack_put entry s = entry # s"

fun stack_pop :: "routingStack \<Rightarrow> (entry_ref \<times> routingStack) res" where
  "stack_pop [] = Inl NilDeref"
| "stack_pop (e # s) = Inr (e, s)"

text \<open>Removes the first element that is this pointer; when there is none, \<open>Remove(nil)\<close> panics.\<close>

fun stack_remove :: "entry_ref \<Rightarrow> routingStack \<Rightarrow> routingStack res" where
  "stack_remove entry [] = Inl NilDeref"
| "stack_remove entry (e # s) =
     (if e = entry then Inr s else bind_res (stack_remove entry s) (\<lambda>s. Inr (e # s)))"

section \<open>Facts\<close>

lemma stack_remove_eq:
  "stack_remove e s = (if e \<in> set s then Inr (remove1 e s) else Inl NilDeref)"
  by (induction s) auto

lemma peekFromBlock_takeWhile:
  "peekFromBlock h b s = takeWhile (\<lambda>e. \<not> re_height (h e) < b) s"
  by (induction s) auto

lemma peekFromBlock_genesis [simp]: "peekFromBlock h 0 s = s"
  by (induction s) auto

lemma set_peekFromBlock_subset: "set (peekFromBlock h b s) \<subseteq> set s"
  unfolding peekFromBlock_takeWhile by (rule set_takeWhileD [THEN conjunct1, THEN subsetI])

text \<open>The order the stack is meant to have: most recent update first.\<close>

definition newest_first :: "entry_store \<Rightarrow> routingStack \<Rightarrow> bool" where
  "newest_first h s \<longleftrightarrow> sorted_wrt (\<lambda>a b. re_height (h b) \<le> re_height (h a)) s"

lemma peekFromBlock_filter:
  "newest_first h s \<Longrightarrow> peekFromBlock h b s = filter (\<lambda>e. b \<le> re_height (h e)) s"
proof (induction s)
  case (Cons e s)
  then have IH: "peekFromBlock h b s = filter (\<lambda>e. b \<le> re_height (h e)) s"
    and older: "\<And>x. x \<in> set s \<Longrightarrow> re_height (h x) \<le> re_height (h e)"
    by (auto simp: newest_first_def)
  have "filter (\<lambda>e. b \<le> re_height (h e)) s = []" if "re_height (h e) < b"
    using older that by (fastforce simp: filter_empty_conv)
  then show ?case
    using IH by (auto simp: not_le)
qed simp

lemma newest_first_put:
  "newest_first h s \<Longrightarrow> (\<And>r. r \<in> set s \<Longrightarrow> re_height (h r) \<le> re_height (h e)) \<Longrightarrow>
   newest_first h (stack_put e s)"
  by (simp add: newest_first_def stack_put_def)

lemma sorted_wrt_remove1: "sorted_wrt P s \<Longrightarrow> sorted_wrt P (remove1 e s)"
  by (induction s) (auto dest: notin_set_remove1 [THEN contrapos_nn] set_remove1_subset [THEN subsetD])

lemma newest_first_remove: "newest_first h s \<Longrightarrow> newest_first h (remove1 e s)"
  by (simp add: newest_first_def sorted_wrt_remove1)

lemma newest_first_cong:
  "(\<And>r. r \<in> set s \<Longrightarrow> re_height (h r) = re_height (h' r)) \<Longrightarrow> newest_first h s \<longleftrightarrow> newest_first h' s"
  by (induction s) (auto simp: newest_first_def)

end
