(* ===== verification/Address_DB.thy ===== *)
theory Address_DB
  imports Binary_Tree Routing_Stack
begin

text \<open>
  The in-memory database of \<open>ldrlib/db.go\<close>: the address tree, the public-key index into it, the
  stack of routing entries and the connection tables, with every operation that reads or
  writes them. Its abstract view is the pair of maps \<open>addr_map\<close> (address to registration) and
  \<open>route_map\<close> (address to routing entry); \<open>db_ok\<close> is the invariant that ties the tree, the
  index, the entry store and the stack together, and every operation keeps it.
\<close>

section \<open>State\<close>

type_synonym conn_ref = nat

type_synonym token = "u8 list"

record addressInfo =
  ai_address :: address
  ai_nodePubKey :: pubkey
  ai_registrationHeight :: u64
  ai_registrationTxID :: hash256
  ai_version :: u32
  ai_routingEntry :: "entry_ref option"
  ai_peerConn :: "conn_ref option"

text \<open>
  A \<open>*node\<close> of the index points to a node at full depth: it is the bit path of that node. The
  last two fields are the store of the \<open>*routingEntry\<close> objects and its next free reference.
\<close>

type_synonym node_ptr = bits32

record DB =
  db_filePath :: string
  db_height :: u64
  db_addressTreeHead :: "addressInfo node"
  db_keyToAddressMap :: "pubkey \<Rightarrow> node_ptr option"
  db_routingEntriesStack :: routingStack
  db_localAddress :: address
  db_destConns :: "token \<Rightarrow> conn_ref option"
  db_entries :: entry_store
  db_nextEntry :: entry_ref

definition genesisBlock :: u64 where
  "genesisBlock = 0"

definition zero_entry :: routingEntry where
  "zero_entry = \<lparr>re_destination = 0, re_nextHop = 0, re_capacity = 0, re_height = 0\<rparr>"

definition createDB :: "string \<Rightarrow> DB" where
  "createDB dbPath =
     \<lparr>db_filePath = dbPath, db_height = genesisBlock, db_addressTreeHead = createBinaryTree,
      db_keyToAddressMap = (\<lambda>_. None), db_routingEntriesStack = createRoutingStack,
      db_localAddress = 0, db_destConns = (\<lambda>_. None),
      db_entries = (\<lambda>_. zero_entry), db_nextEntry = 0\<rparr>"

text \<open>\<open>&routingEntry{...}\<close>: a fresh object.\<close>

definition new_entry :: "routingEntry \<Rightarrow> DB \<Rightarrow> entry_ref \<times> DB" where
  "new_entry e db =
     (db_nextEntry db,
      db\<lparr>db_entries := (db_entries db)(db_nextEntry db := e), db_nextEntry := Suc (db_nextEntry db)\<rparr>)"

section \<open>Operations\<close>

definition getBlockHeight :: "DB \<Rightarrow> u64" where
  "getBlockHeight db = db_height db"

definition SaveLocalAddress :: "address \<Rightarrow> DB \<Rightarrow> DB" where
  "SaveLocalAddress localAddress db =
     db\<lparr>db_localAddress := arr_copy (db_localAddress db) (list_of localAddress)\<rparr>"

definition getLocalAddress :: "DB \<Rightarrow> address" where
  "getLocalAddress db = db_localAddress db"

definition path :: "address \<Rightarrow> bool list" where
  "path a = list_of (byteToBit a)"

definition GetNodeAddress :: "DB \<Rightarrow> pubkey \<Rightarrow> (address \<times> bool) res" where
  "GetNodeAddress db pubkey =
     (case db_keyToAddressMap db pubkey of
        None \<Rightarrow> Inr (0, False)
      | Some addressNode \<Rightarrow>
          bind_res (getInfo (subtree (db_addressTreeHead db) (list_of addressNode)))
            (\<lambda>info. Inr (ai_address info, True)))"

definition GetAddressNode :: "DB \<Rightarrow> address \<Rightarrow> pubkey res" where
  "GetAddressNode db address =
     bind_res (walk_checked (path address) (db_addressTreeHead db))
       (\<lambda>found. case found of
          None \<Rightarrow> Inr 0
        | Some head \<Rightarrow> bind_res (getInfo head) (\<lambda>info. Inr (ai_nodePubKey info)))"

definition IsNodeRegistered :: "DB \<Rightarrow> pubkey \<Rightarrow> bool" where
  "IsNodeRegistered db pubkey =
     (case db_keyToAddressMap db pubkey of None \<Rightarrow> False | Some _ \<Rightarrow> True)"

definition IsAddressRegistered :: "DB \<Rightarrow> address \<Rightarrow> bool res" where
  "IsAddressRegistered db address =
     bind_res (walk_checked (path address) (db_addressTreeHead db))
       (\<lambda>found. Inr (case found of None \<Rightarrow> False | Some _ \<Rightarrow> True))"

definition addAddressToDB :: "addressInfo \<Rightarrow> DB \<Rightarrow> DB res" where
  "addAddressToDB info db =
     (let bitAddress = byteToBit (ai_address info) in
      bind_res (walk_create (list_of bitAddress) info (db_addressTreeHead db))
        (\<lambda>tree. Inr (db\<lparr>db_addressTreeHead := tree,
           db_keyToAddressMap := (db_keyToAddressMap db)(ai_nodePubKey info := Some bitAddress)\<rparr>)))"

definition getRoutingEntry :: "DB \<Rightarrow> address \<Rightarrow> entry_ref option res" where
  "getRoutingEntry db destination =
     bind_res (walk (path destination) (db_addressTreeHead db)) (\<lambda>head.
       bind_res (getInfo head) (\<lambda>info. Inr (ai_routingEntry info)))"

definition addRoutingEntryToDB :: "entry_ref \<Rightarrow> DB \<Rightarrow> DB res" where
  "addRoutingEntryToDB entry db =
     (let bits = path (re_destination (db_entries db entry)) in
      bind_res (walk bits (db_addressTreeHead db)) (\<lambda>head.
      bind_res (getInfo head) (\<lambda>info.
      bind_res (case ai_routingEntry info of
                  None \<Rightarrow> Inr (db_routingEntriesStack db)
                | Some currentEntry \<Rightarrow> stack_remove currentEntry (db_routingEntriesStack db)) (\<lambda>stack.
      bind_res (write_data bits (info\<lparr>ai_routingEntry := Some entry\<rparr>) (db_addressTreeHead db)) (\<lambda>tree.
      Inr (db\<lparr>db_addressTreeHead := tree, db_routingEntriesStack := stack_put entry stack\<rparr>))))))"

definition getPeerConn :: "DB \<Rightarrow> address \<Rightarrow> conn_ref option res" where
  "getPeerConn db destination =
     bind_res (walk (path destination) (db_addressTreeHead db)) (\<lambda>head.
       bind_res (getInfo head) (\<lambda>info. Inr (ai_peerConn info)))"

definition addPeerConnToDB :: "address \<Rightarrow> conn_ref \<Rightarrow> DB \<Rightarrow> DB res" where
  "addPeerConnToDB address peerConn db =
     bind_res (walk (path address) (db_addressTreeHead db)) (\<lambda>head.
     bind_res (getInfo head) (\<lambda>info.
     bind_res (write_data (path address) (info\<lparr>ai_peerConn := Some peerConn\<rparr>) (db_addressTreeHead db))
       (\<lambda>tree. Inr (db\<lparr>db_addressTreeHead := tree\<rparr>))))"

definition getDestConn :: "DB \<Rightarrow> token \<Rightarrow> conn_ref option" where
  "getDestConn db token = db_destConns db token"

definition addDestConnToDB :: "token \<Rightarrow> conn_ref \<Rightarrow> DB \<Rightarrow> DB" where
  "addDestConnToDB token destConn db = db\<lparr>db_destConns := (db_destConns db)(token := Some destConn)\<rparr>"

definition removeDestConnFromDB :: "token \<Rightarrow> DB \<Rightarrow> DB" where
  "removeDestConnFromDB token db = db\<lparr>db_destConns := (db_destConns db)(token := None)\<rparr>"

definition getLastRoutingEntries :: "DB \<Rightarrow> u64 \<Rightarrow> entry_ref list" where
  "getLastRoutingEntries db fromBlock =
     peekFromBlock (db_entries db) fromBlock (db_routingEntriesStack db)"

section \<open>The abstract view and the invariant\<close>

definition addr_map :: "DB \<Rightarrow> address \<Rightarrow> addressInfo option" where
  "addr_map db a = tree_map (db_addressTreeHead db) (path a)"

definition route_map :: "DB \<Rightarrow> address \<Rightarrow> routingEntry option" where
  "route_map db a = (case addr_map db a of
      None \<Rightarrow> None
    | Some info \<Rightarrow> map_option (db_entries db) (ai_routingEntry info))"

definition registered :: "DB \<Rightarrow> address \<Rightarrow> bool" where
  "registered db a \<longleftrightarrow> addr_map db a \<noteq> None"

definition names_ok :: "DB \<Rightarrow> bool" where
  "names_ok db \<longleftrightarrow> (\<forall>a info. addr_map db a = Some info \<longrightarrow> ai_address info = a)"

definition keys_ok :: "DB \<Rightarrow> bool" where
  "keys_ok db \<longleftrightarrow>
     (\<forall>pk p. db_keyToAddressMap db pk = Some p \<longrightarrow> addr_map db (bitToByte p) \<noteq> None)"

definition entries_ok :: "DB \<Rightarrow> bool" where
  "entries_ok db \<longleftrightarrow>
     (\<forall>a info r. addr_map db a = Some info \<longrightarrow> ai_routingEntry info = Some r \<longrightarrow>
        r \<in> set (db_routingEntriesStack db) \<and> re_destination (db_entries db r) = a)"

definition stack_ok :: "DB \<Rightarrow> bool" where
  "stack_ok db \<longleftrightarrow> distinct (db_routingEntriesStack db) \<and>
     (\<forall>r \<in> set (db_routingEntriesStack db). r < db_nextEntry db \<and>
        (\<exists>info. addr_map db (re_destination (db_entries db r)) = Some info \<and>
           ai_routingEntry info = Some r))"

definition db_ok :: "DB \<Rightarrow> bool" where
  "db_ok db \<longleftrightarrow> root_ok 32 (db_addressTreeHead db) \<and> names_ok db \<and> keys_ok db \<and>
     entries_ok db \<and> stack_ok db"

lemma length_path [simp]: "length (path a) = 32"
  by (simp add: path_def)

lemma path_inject [simp]: "path a = path b \<longleftrightarrow> a = b"
  by (simp add: path_def flip: arr_eq_iff)

lemma path_neq_Nil [simp]: "path a \<noteq> []"
  using length_path [of a] by (metis list.size(3) zero_neq_numeral)

lemma list_of_path: "list_of p = path (bitToByte p)"
  by (simp add: path_def)

lemma path_surj:
  assumes "length p = 32"
  shows "\<exists>a. p = path a"
proof
  show "p = path (bitToByte (arr_copy (arr_fill False) p))"
    using assms by (simp add: path_def)
qed

lemma addr_map_frame [simp]:
  "addr_map (db_keyToAddressMap_update f db) = addr_map db"
  "addr_map (db_routingEntriesStack_update f1 db) = addr_map db"
  "addr_map (db_height_update f2 db) = addr_map db"
  "addr_map (db_localAddress_update f3 db) = addr_map db"
  "addr_map (db_destConns_update f4 db) = addr_map db"
  "addr_map (db_entries_update f5 db) = addr_map db"
  "addr_map (db_nextEntry_update f6 db) = addr_map db"
  by (simp_all add: addr_map_def fun_eq_iff)

lemma addr_map_tree_upd:
  assumes "\<And>q. length q = 32 \<Longrightarrow>
    tree_map t q = (if q = path a then Some x else tree_map (db_addressTreeHead db) q)"
  shows "addr_map (db\<lparr>db_addressTreeHead := t\<rparr>) = (addr_map db)(a \<mapsto> x)"
  using assms by (auto simp: addr_map_def fun_eq_iff)

lemma createDB_map [simp]: "addr_map (createDB f) a = None"
  by (simp add: addr_map_def createDB_def)

lemma db_ok_createDB: "db_ok (createDB f)"
  by (simp add: db_ok_def names_ok_def keys_ok_def entries_ok_def stack_ok_def root_ok_def)
    (simp add: createDB_def createRoutingStack_def)

end
