(* ===== verification/Keyed_Store.thy ===== *)
theory Keyed_Store
  imports LDR_Prelude
begin

text \<open>
  The contract of a store of records found by a key: storing a record that is admissible in the
  current state succeeds, keeps the invariant and what is admissible, and replaces exactly the
  value at the record's key. The clients are the loops that load many records, one after the
  other, and what they build is derived here once. The address registry and the routing table
  of the database both provide this contract (theories \<open>Registry\<close> and \<open>Routing_Table\<close>).
\<close>

locale keyed_store =
  fixes key :: "'v \<Rightarrow> 'k"
    and lookup :: "'s \<Rightarrow> 'k \<Rightarrow> 'v option"
    and store :: "'v \<Rightarrow> 's \<Rightarrow> 's res"
    and invar :: "'s \<Rightarrow> bool"
    and admissible :: "'s \<Rightarrow> 'v \<Rightarrow> bool"
  assumes store_succeeds:
      "invar s \<Longrightarrow> admissible s v \<Longrightarrow> \<exists>s'. store v s = Inr s' \<and> invar s'"
    and store_lookup:
      "invar s \<Longrightarrow> admissible s v \<Longrightarrow> store v s = Inr s' \<Longrightarrow> lookup s' = (lookup s)(key v \<mapsto> v)"
    and store_admissible:
      "invar s \<Longrightarrow> admissible s v \<Longrightarrow> admissible s w \<Longrightarrow> store v s = Inr s' \<Longrightarrow> admissible s' w"
begin

lemma store_same: "invar s \<Longrightarrow> admissible s v \<Longrightarrow> store v s = Inr s' \<Longrightarrow> lookup s' (key v) = Some v"
  by (simp add: store_lookup)

lemma store_other:
  "invar s \<Longrightarrow> admissible s v \<Longrightarrow> store v s = Inr s' \<Longrightarrow> k \<noteq> key v \<Longrightarrow> lookup s' k = lookup s k"
  by (simp add: store_lookup)

text \<open>Loading a list of records: the last record of a key wins, the rest is as before.\<close>

lemma load_all:
  assumes "invar s" and "\<forall>v \<in> set vs. admissible s v"
  shows "\<exists>s'. fold_res store vs s = Inr s' \<and> invar s' \<and>
    lookup s' = lookup s ++ map_of (map (\<lambda>v. (key v, v)) (rev vs))"
  using assms
proof (induction vs arbitrary: s)
  case (Cons v vs)
  then obtain t where t: "store v s = Inr t" "invar t"
    using store_succeeds by fastforce
  then have "\<forall>w \<in> set vs. admissible t w"
    using Cons.prems store_admissible by (metis list.set_intros)
  then obtain s' where s': "fold_res store vs t = Inr s'" "invar s'"
    "lookup s' = lookup t ++ map_of (map (\<lambda>v. (key v, v)) (rev vs))"
    using Cons.IH t by blast
  moreover have "lookup t = (lookup s)(key v \<mapsto> v)"
    using Cons.prems t store_lookup by simp
  ultimately show ?case
    using t by (auto simp: map_add_def fun_eq_iff split: option.splits)
qed simp

text \<open>With distinct keys the order does not matter: every record is found under its key.\<close>

lemma load_distinct:
  assumes "invar s" and "\<forall>v \<in> set vs. admissible s v"
    and "distinct (map key vs)" and "fold_res store vs s = Inr s'" and "v \<in> set vs"
  shows "lookup s' (key v) = Some v"
proof -
  have "lookup s' = lookup s ++ map_of (map (\<lambda>v. (key v, v)) (rev vs))"
    using load_all [OF assms(1,2)] assms(4) by auto
  moreover have "map_of (map (\<lambda>v. (key v, v)) (rev vs)) (key v) = Some v"
    using assms(3,5) by (intro map_of_is_SomeI) (auto simp: comp_def distinct_map)
  ultimately show ?thesis by simp
qed

lemma load_untouched:
  assumes "invar s" and "\<forall>v \<in> set vs. admissible s v"
    and "fold_res store vs s = Inr s'" and "k \<notin> key ` set vs"
  shows "lookup s' k = lookup s k"
proof -
  have "lookup s' = lookup s ++ map_of (map (\<lambda>v. (key v, v)) (rev vs))"
    using load_all [OF assms(1,2)] assms(3) by auto
  moreover have "map_of (map (\<lambda>v. (key v, v)) (rev vs)) k = None"
    using assms(4) by (force simp: map_of_eq_None_iff)
  ultimately show ?thesis by (simp add: map_add_def)
qed

end

end
