(* ===== verification/Registry.thy ===== *)
theory Registry
  imports Address_DB Keyed_Store
begin

text \<open>
  What the registration side of the database does: the exact result of every lookup, in terms of
  \<open>addr_map\<close>, and of \<open>addAddressToDB\<close>, with the preservation of the invariant. A lookup that
  follows the tree without a nil check panics exactly on unregistered addresses.
\<close>

section \<open>Lookups\<close>

lemma db_ok_root: "db_ok db \<Longrightarrow> root_ok 32 (db_addressTreeHead db)"
  by (simp add: db_ok_def)

lemma tree_ok_of_registered:
  "root_ok 32 (db_addressTreeHead db) \<Longrightarrow> addr_map db a \<noteq> None \<Longrightarrow> tree_ok 32 (db_addressTreeHead db)"
  by (auto simp: root_ok_def addr_map_def)

lemma walk_info:
  assumes "root_ok 32 (db_addressTreeHead db)"
  shows "bind_res (walk (path a) (db_addressTreeHead db)) (\<lambda>head. bind_res (getInfo head) F) =
    (case addr_map db a of None \<Rightarrow> Inl NilDeref | Some info \<Rightarrow> F info)"
proof -
  have "bind_res (walk (path a) (db_addressTreeHead db)) getInfo =
      (case addr_map db a of None \<Rightarrow> Inl NilDeref | Some info \<Rightarrow> Inr info)"
    using assms walk_getInfo [of "path a" "db_addressTreeHead db"]
    by (auto simp: root_ok_def addr_map_def walk_getInfo_create)
  then show ?thesis
    by (simp add: bind_res_assoc [symmetric] split: option.splits)
qed

lemma walk_checked_db:
  assumes "root_ok 32 (db_addressTreeHead db)"
  shows "walk_checked (path a) (db_addressTreeHead db) =
    Inr (if addr_map db a = None then None else Some (subtree (db_addressTreeHead db) (path a)))"
  using assms walk_checked_tree_map [of "path a" "db_addressTreeHead db"]
  by (auto simp: root_ok_def addr_map_def walk_checked_create)

lemma getInfo_subtree:
  "addr_map db a = Some info \<Longrightarrow> getInfo (subtree (db_addressTreeHead db) (path a)) = Inr info"
  by (auto simp: addr_map_def tree_map_def getInfo_def split: node.splits)

lemma IsAddressRegistered_eq:
  "db_ok db \<Longrightarrow> IsAddressRegistered db a = Inr (registered db a)"
  by (simp add: IsAddressRegistered_def walk_checked_db db_ok_root registered_def)

lemma GetAddressNode_eq:
  "db_ok db \<Longrightarrow> GetAddressNode db a =
     Inr (case addr_map db a of None \<Rightarrow> 0 | Some info \<Rightarrow> ai_nodePubKey info)"
  by (auto simp: GetAddressNode_def walk_checked_db db_ok_root getInfo_subtree split: option.splits)

lemma GetNodeAddress_eq:
  assumes "db_ok db"
  shows "GetNodeAddress db pk =
    Inr (case db_keyToAddressMap db pk of None \<Rightarrow> (0, False) | Some p \<Rightarrow> (bitToByte p, True))"
proof (cases "db_keyToAddressMap db pk")
  case (Some p)
  then obtain info where info: "addr_map db (bitToByte p) = Some info"
    using assms by (force simp: db_ok_def keys_ok_def)
  then have "ai_address info = bitToByte p"
    using assms by (auto simp: db_ok_def names_ok_def)
  with Some getInfo_subtree [OF info] show ?thesis
    by (simp add: GetNodeAddress_def list_of_path)
qed (simp add: GetNodeAddress_def)

lemma IsNodeRegistered_eq: "IsNodeRegistered db pk \<longleftrightarrow> db_keyToAddressMap db pk \<noteq> None"
  by (simp add: IsNodeRegistered_def split: option.splits)

lemma getRoutingEntry_eq:
  "db_ok db \<Longrightarrow> getRoutingEntry db a =
     (case addr_map db a of None \<Rightarrow> Inl NilDeref | Some info \<Rightarrow> Inr (ai_routingEntry info))"
  by (simp add: getRoutingEntry_def walk_info db_ok_root)

lemma getPeerConn_eq:
  "db_ok db \<Longrightarrow> getPeerConn db a =
     (case addr_map db a of None \<Rightarrow> Inl NilDeref | Some info \<Rightarrow> Inr (ai_peerConn info))"
  by (simp add: getPeerConn_def walk_info db_ok_root)

section \<open>Registering an address\<close>

text \<open>An address may be (re)registered while it has no routing entry.\<close>

definition can_register :: "DB \<Rightarrow> addressInfo \<Rightarrow> bool" where
  "can_register db info \<longleftrightarrow> ai_routingEntry info = None \<and>
     (\<forall>old. addr_map db (ai_address info) = Some old \<longrightarrow> ai_routingEntry old = None)"

lemma addAddressToDB_spec:
  assumes "db_ok db"
  obtains db' where "addAddressToDB info db = Inr db'"
    and "addr_map db' = (addr_map db)(ai_address info \<mapsto> info)"
    and "db_keyToAddressMap db' = (db_keyToAddressMap db)(ai_nodePubKey info \<mapsto> byteToBit (ai_address info))"
    and "db_routingEntriesStack db' = db_routingEntriesStack db" "db_entries db' = db_entries db"
    and "db_nextEntry db' = db_nextEntry db" "db_height db' = db_height db"
    and "db_localAddress db' = db_localAddress db" "db_destConns db' = db_destConns db"
    and "db_filePath db' = db_filePath db"
    and "can_register db info \<Longrightarrow> db_ok db'"
proof -
  obtain t where t: "walk_create (path (ai_address info)) info (db_addressTreeHead db) = Inr t"
      "tree_ok 32 t"
    and upd: "\<And>q. length q = 32 \<Longrightarrow>
      tree_map t q = (if q = path (ai_address info) then Some info else tree_map (db_addressTreeHead db) q)"
    using walk_create_ok [of "path (ai_address info)" "db_addressTreeHead db" info] db_ok_root [OF assms]
    by auto
  let ?db' = "db\<lparr>db_addressTreeHead := t, db_keyToAddressMap :=
    (db_keyToAddressMap db)(ai_nodePubKey info \<mapsto> byteToBit (ai_address info))\<rparr>"
  have add: "addAddressToDB info db = Inr ?db'"
    using t by (simp add: addAddressToDB_def path_def)
  have m: "addr_map ?db' = (addr_map db)(ai_address info \<mapsto> info)"
    by (simp add: addr_map_tree_upd [OF upd])
  have "db_ok ?db'" if "can_register db info"
  proof -
    have "names_ok ?db'"
      using assms unfolding db_ok_def names_ok_def m by auto
    moreover have "keys_ok ?db'"
      using assms unfolding db_ok_def keys_ok_def m by simp
    moreover have "entries_ok ?db'"
      using assms that unfolding db_ok_def entries_ok_def can_register_def m by simp
    moreover have "stack_ok ?db'"
      using assms that unfolding db_ok_def stack_ok_def can_register_def m by fastforce
    ultimately show ?thesis
      using t by (simp add: db_ok_def root_ok_def)
  qed
  then show ?thesis
    using that [OF add m] by simp
qed

section \<open>The registry as a keyed store\<close>

lemma no_routes_can_register:
  "db_ok db \<Longrightarrow> db_routingEntriesStack db = [] \<Longrightarrow> ai_routingEntry info = None \<Longrightarrow> can_register db info"
  unfolding db_ok_def entries_ok_def can_register_def by fastforce

text \<open>Before any route is known, addresses load like records into a keyed store.\<close>

interpretation registry: keyed_store ai_address addr_map addAddressToDB
  "\<lambda>db. db_ok db \<and> db_routingEntriesStack db = []" "\<lambda>db info. ai_routingEntry info = None"
proof
  fix db :: DB and info info' :: addressInfo and db' :: DB
  assume inv: "db_ok db \<and> db_routingEntriesStack db = []" and new: "ai_routingEntry info = None"
  then have can: "can_register db info" by (simp add: no_routes_can_register)
  show "\<exists>db'. addAddressToDB info db = Inr db' \<and> db_ok db' \<and> db_routingEntriesStack db' = []"
    by (rule addAddressToDB_spec [of db info]) (use inv can in auto)
  show "addr_map db' = (addr_map db)(ai_address info \<mapsto> info)" if "addAddressToDB info db = Inr db'"
    by (rule addAddressToDB_spec [of db info]) (use inv that in auto)
qed

section \<open>Properties\<close>

text \<open>
  Registering. On a well-formed database, \<open>addAddressToDB\<close> of an address without a routing
  entry succeeds, keeps the invariant, makes the address registered and changes no other
  address, makes the node found under its public key and the public key under the address,
  and leaves routes, stack and height alone.
\<close>

lemma addAddressToDB_registers:
  assumes "db_ok db" and "can_register db info"
  shows "\<exists>db'. addAddressToDB info db = Inr db' \<and> db_ok db' \<and>
    IsAddressRegistered db' a = Inr (a = ai_address info \<or> registered db a) \<and>
    GetAddressNode db' a = (if a = ai_address info then Inr (ai_nodePubKey info) else GetAddressNode db a) \<and>
    GetNodeAddress db' pk = (if pk = ai_nodePubKey info then Inr (ai_address info, True) else GetNodeAddress db pk) \<and>
    IsNodeRegistered db' pk = (pk = ai_nodePubKey info \<or> IsNodeRegistered db pk) \<and>
    route_map db' = route_map db \<and> db_routingEntriesStack db' = db_routingEntriesStack db \<and>
    getBlockHeight db' = getBlockHeight db"
proof (rule addAddressToDB_spec [OF assms(1), of info])
  fix db'
  assume *: "addAddressToDB info db = Inr db'" "addr_map db' = (addr_map db)(ai_address info \<mapsto> info)"
    "db_keyToAddressMap db' = (db_keyToAddressMap db)(ai_nodePubKey info \<mapsto> byteToBit (ai_address info))"
    "db_routingEntriesStack db' = db_routingEntriesStack db" "db_entries db' = db_entries db"
    "db_height db' = db_height db" "can_register db info \<Longrightarrow> db_ok db'"
  moreover have "route_map db' = route_map db"
    using assms(2) unfolding route_map_def *(2,5) can_register_def
    by (intro ext) (auto split: option.splits)
  ultimately show ?thesis
    using assms by (simp add: IsAddressRegistered_eq GetAddressNode_eq GetNodeAddress_eq
        IsNodeRegistered_eq registered_def getBlockHeight_def)
qed

definition example_info :: "u8 list \<Rightarrow> u8 list \<Rightarrow> addressInfo" where
  "example_info address pubkey =
     \<lparr>ai_address = arr_copy 0 address, ai_nodePubKey = arr_copy 0 pubkey, ai_registrationHeight = 7,
      ai_registrationTxID = 0, ai_version = 0, ai_routingEntry = None, ai_peerConn = None\<rparr>"

text \<open>
  The lookups without a nil check. On a well-formed database \<open>getRoutingEntry\<close> and
  \<open>getPeerConn\<close> panic with a nil dereference exactly when the address is not registered, while
  \<open>IsAddressRegistered\<close> and \<open>GetAddressNode\<close> never panic.
\<close>

lemma unchecked_lookups_panic:
  assumes "db_ok db"
  shows "(getRoutingEntry db a = Inl NilDeref \<longleftrightarrow> \<not> registered db a) \<and>
    (getPeerConn db a = Inl NilDeref \<longleftrightarrow> \<not> registered db a) \<and>
    IsAddressRegistered db a = Inr (registered db a) \<and>
    GetAddressNode db a = Inr (case addr_map db a of None \<Rightarrow> 0 | Some info \<Rightarrow> ai_nodePubKey info)"
  using assms
  by (auto simp: getRoutingEntry_eq getPeerConn_eq IsAddressRegistered_eq GetAddressNode_eq
      registered_def split: option.splits)

end
