(* ===== verification/Go_Strings.thy ===== *)
theory Go_Strings
  imports LDR_Prelude
begin

text \<open>
  The text forms the program uses from Go's standard library: decimal numbers, the dotted form
  of an IPv4 address (\<open>net.IP.String\<close>), and \<open>encoding/hex\<close> with its round trip.
\<close>

section \<open>Decimal and dotted decimal\<close>

fun dec_string :: "nat \<Rightarrow> string" where
  "dec_string n =
     (if n < 10 then [''0123456789'' ! n] else dec_string (n div 10) @ [''0123456789'' ! (n mod 10)])"

declare dec_string.simps [simp del]

definition int_string :: "int \<Rightarrow> string" where
  "int_string v = (if v < 0 then ''-'' @ dec_string (nat (- v)) else dec_string (nat v))"

definition ip_string :: "address \<Rightarrow> string" where
  "ip_string a = (case list_of a of
      [w0, w1, w2, w3] \<Rightarrow> dec_string (unat w0) @ ''.'' @ dec_string (unat w1) @ ''.'' @
        dec_string (unat w2) @ ''.'' @ dec_string (unat w3)
    | _ \<Rightarrow> [])"

section \<open>Hexadecimal\<close>

definition hex_digit :: "nat \<Rightarrow> char" where
  "hex_digit n = ''0123456789abcdef'' ! n"

definition from_hex_char :: "char \<Rightarrow> nat option" where
  "from_hex_char c =
     (let k = of_char c :: nat in
      if 48 \<le> k \<and> k \<le> 57 then Some (k - 48)
      else if 97 \<le> k \<and> k \<le> 102 then Some (k - 87)
      else if 65 \<le> k \<and> k \<le> 70 then Some (k - 55)
      else None)"

definition EncodeToString :: "u8 list \<Rightarrow> string" where
  "EncodeToString bs = concat (map (\<lambda>b. [hex_digit (unat b div 16), hex_digit (unat b mod 16)]) bs)"

text \<open>\<open>DecodeString\<close> fails on a character that is no hex digit and on an odd length.\<close>

fun DecodeString :: "string \<Rightarrow> go_error + u8 list" where
  "DecodeString [] = Inr []"
| "DecodeString [c] = (case from_hex_char c of
      None \<Rightarrow> Inl ''encoding/hex: invalid byte''
    | Some _ \<Rightarrow> Inl ''encoding/hex: odd length hex string'')"
| "DecodeString (c # d # cs) = (case from_hex_char c of
      None \<Rightarrow> Inl ''encoding/hex: invalid byte''
    | Some x \<Rightarrow> (case from_hex_char d of
        None \<Rightarrow> Inl ''encoding/hex: invalid byte''
      | Some y \<Rightarrow> (case DecodeString cs of
          Inl err \<Rightarrow> Inl err
        | Inr bs \<Rightarrow> Inr (of_nat (x * 16 + y) # bs))))"

lemma from_hex_digit [simp]:
  assumes "n < 16"
  shows "from_hex_char (hex_digit n) = Some n"
proof -
  have "list_all (\<lambda>n. from_hex_char (hex_digit n) = Some n) [0..<16]"
    by code_simp
  then show ?thesis
    using assms by (simp add: list_all_iff)
qed

lemma EncodeToString_Cons [simp]:
  "EncodeToString (b # bs) =
     hex_digit (unat b div 16) # hex_digit (unat b mod 16) # EncodeToString bs"
  by (simp add: EncodeToString_def)

lemma EncodeToString_Nil [simp]: "EncodeToString [] = []"
  by (simp add: EncodeToString_def)

lemma EncodeToString_append: "EncodeToString (xs @ ys) = EncodeToString xs @ EncodeToString ys"
  by (simp add: EncodeToString_def)

lemma length_EncodeToString [simp]: "length (EncodeToString bs) = 2 * length bs"
  by (induction bs) auto

lemma unat_byte_less [simp]: "unat (b :: u8) < 256"
  using unsigned_less [of b] by simp

lemma DecodeString_EncodeToString [simp]: "DecodeString (EncodeToString bs) = Inr bs"
proof (induction bs)
  case (Cons b bs)
  have "unat b div 16 < 16"
    using unat_byte_less [of b] by linarith
  moreover have "of_nat (unat b div 16 * 16 + unat b mod 16) = b"
    by simp
  ultimately show ?case
    using Cons by (simp del: of_nat_add of_nat_mult)
qed simp

lemma EncodeToString_inject: "EncodeToString xs = EncodeToString ys \<longleftrightarrow> xs = ys"
  by (metis DecodeString_EncodeToString sum.inject(2))

lemma take_EncodeToString: "take (2 * n) (EncodeToString bs) = EncodeToString (take n bs)"
  by (induction bs arbitrary: n) (auto simp: take_Cons split: nat.splits)

lemma drop_EncodeToString: "drop (2 * n) (EncodeToString bs) = EncodeToString (drop n bs)"
  by (induction bs arbitrary: n) (auto simp: drop_Cons split: nat.splits)

end
