(* ===== verification/Lightning.thy ===== *)
theory Lightning
  imports Go_Strings
begin

text \<open>
  The lightning client (\<open>ldrlib/ln.go\<close>, \<open>lndwrapper/lnd.go\<close>) and the public-key strings of
  \<open>ldrlib/utils.go\<close>. The lnd daemon and the zbase32 package are not part of the repository:
  \<open>Lnd\<close> holds what they answer, and is an argument of every definition that calls them.
\<close>

section \<open>What lnd answers\<close>

record Channel =
  ch_RemotePubkey :: string
  ch_LocalBalance :: i64

record ChannelEdge =
  ce_Node1Pub :: string
  ce_Node2Pub :: string

record NodeInfo =
  ni_Addresses :: "string list"
  ni_Channels :: "ChannelEdge list"

record Lnd =
  rpc_GetInfo :: "go_error + string"
  rpc_GetNodeInfo :: "string \<Rightarrow> bool \<Rightarrow> go_error + NodeInfo"
  rpc_ListChannels :: "go_error + Channel list"
  rpc_SignMessage :: "u8 list \<Rightarrow> go_error + string"
  rpc_VerifyMessage :: "u8 list \<Rightarrow> string \<Rightarrow> go_error + bool \<times> string"
  zbase32_Encode :: "u8 list \<Rightarrow> string"
  zbase32_Decode :: "string \<Rightarrow> go_error + u8 list"

section \<open>Public keys as strings\<close>

definition PubKeyArrayToString :: "pubkey \<Rightarrow> string" where
  "PubKeyArrayToString pubkey = EncodeToString (list_of pubkey)"

text \<open>A decoded key of the wrong length is cut or padded with zeros by \<open>copy\<close>.\<close>

definition PubKeyStringToArray :: "string \<Rightarrow> pubkey res" where
  "PubKeyStringToArray pubkey =
     bind_res (or_fatal (DecodeString pubkey)) (\<lambda>pubKeySlice. Inr (arr_copy 0 pubKeySlice))"

lemma PubKeyStringToArray_ArrayToString [simp]:
  "PubKeyStringToArray (PubKeyArrayToString pk) = Inr pk"
  by (simp add: PubKeyStringToArray_def PubKeyArrayToString_def)

lemma PubKeyArrayToString_inject [simp]:
  "PubKeyArrayToString pk = PubKeyArrayToString pk' \<longleftrightarrow> pk = pk'"
  by (metis PubKeyStringToArray_ArrayToString sum.inject(2))

section \<open>Operations\<close>

definition GetLocalNodePubKey :: "Lnd \<Rightarrow> pubkey res" where
  "GetLocalNodePubKey client =
     bind_res (or_fatal (rpc_GetInfo client)) (\<lambda>identity. PubKeyStringToArray identity)"

text \<open>\<open>strings.Index(s, c)\<close>; \<open>None\<close> is -1, and \<open>s[:-1]\<close> panics.\<close>

fun str_index :: "char \<Rightarrow> string \<Rightarrow> nat option" where
  "str_index c [] = None"
| "str_index c (d # s) = (if d = c then Some 0 else map_option Suc (str_index c s))"

definition host_of :: "string \<Rightarrow> string res" where
  "host_of addr = (case str_index CHR '':'' addr of
      None \<Rightarrow> Inl OutOfRange
    | Some i \<Rightarrow> Inr (take i addr))"

definition GetNodeIPs :: "Lnd \<Rightarrow> pubkey \<Rightarrow> string list res" where
  "GetNodeIPs client nodePubKey =
     bind_res (or_fatal (rpc_GetNodeInfo client (PubKeyArrayToString nodePubKey) False))
       (\<lambda>nodeInfo. map_res host_of (ni_Addresses nodeInfo))"

definition GetLocalChannels :: "Lnd \<Rightarrow> Channel list res" where
  "GetLocalChannels client = or_fatal (rpc_ListChannels client)"

definition GetLocalNodeNeighboursPubKeys :: "Lnd \<Rightarrow> pubkey list res" where
  "GetLocalNodeNeighboursPubKeys client =
     bind_res (or_fatal (rpc_ListChannels client))
       (\<lambda>openChannels. map_res (\<lambda>channel. PubKeyStringToArray (ch_RemotePubkey channel)) openChannels)"

definition GetNodeNeighboursPubKeys :: "Lnd \<Rightarrow> pubkey \<Rightarrow> pubkey list res" where
  "GetNodeNeighboursPubKeys client nodePubKey =
     bind_res (or_fatal (rpc_GetNodeInfo client (PubKeyArrayToString nodePubKey) True))
       (\<lambda>nodeInfo. map_res (\<lambda>channel. PubKeyStringToArray (ce_Node1Pub channel)) (ni_Channels nodeInfo))"

definition SignMessage :: "Lnd \<Rightarrow> u8 list \<Rightarrow> u8 list res" where
  "SignMessage client message =
     bind_res (or_fatal (rpc_SignMessage client message))
       (\<lambda>signature. or_fatal (zbase32_Decode client signature))"

definition VerifyMessage :: "Lnd \<Rightarrow> u8 list \<Rightarrow> u8 list \<Rightarrow> (bool \<times> pubkey) res" where
  "VerifyMessage client message signature =
     bind_res (or_fatal (rpc_VerifyMessage client message (zbase32_Encode client signature)))
       (\<lambda>(valid, pubkey). bind_res (PubKeyStringToArray pubkey) (\<lambda>pk. Inr (valid, pk)))"

section \<open>Facts\<close>

lemma str_index_append: "c \<notin> set h \<Longrightarrow> str_index c (h @ c # p) = Some (length h)"
  by (induction h) auto

lemma str_index_None: "str_index c s = None \<longleftrightarrow> c \<notin> set s"
  by (induction s) auto

lemma host_of_append: "CHR '':'' \<notin> set h \<Longrightarrow> host_of (h @ '':'' @ p) = Inr h"
  by (simp add: host_of_def str_index_append)

lemma host_of_fault: "host_of addr = Inl f \<longleftrightarrow> f = OutOfRange \<and> CHR '':'' \<notin> set addr"
  using str_index_None [of "CHR '':''" addr] by (auto simp: host_of_def split: option.splits)

lemma GetLocalChannels_eq [simp]:
  "GetLocalChannels client = Inr chs \<longleftrightarrow> rpc_ListChannels client = Inr chs"
  by (cases "rpc_ListChannels client") (auto simp: GetLocalChannels_def)

section \<open>Properties\<close>

text \<open>
  The hosts of a node. When lnd answers, \<open>GetNodeIPs\<close> returns one host per advertised
  address, the text before its first colon; it panics exactly when some address has no colon.
\<close>

lemma GetNodeIPs_hosts:
  assumes "rpc_GetNodeInfo client (PubKeyArrayToString pk) False = Inr nodeInfo"
  shows "((\<exists>f. GetNodeIPs client pk = Inl f) \<longleftrightarrow> (\<exists>addr \<in> set (ni_Addresses nodeInfo). CHR '':'' \<notin> set addr)) \<and>
    (\<forall>hosts. GetNodeIPs client pk = Inr hosts \<longrightarrow>
       list_all2 (\<lambda>addr host. CHR '':'' \<notin> set host \<and> (\<exists>port. addr = host @ '':'' @ port))
         (ni_Addresses nodeInfo) hosts)"
proof -
  have eq: "GetNodeIPs client pk = map_res host_of (ni_Addresses nodeInfo)"
    using assms by (simp add: GetNodeIPs_def)
  have split: "CHR '':'' \<notin> set host \<and> (\<exists>port. addr = host @ '':'' @ port)"
    if "host_of addr = Inr host" for addr host
  proof -
    have "CHR '':'' \<in> set addr"
      using that host_of_fault [of addr OutOfRange] by auto
    then obtain h p where "addr = h @ '':'' @ p" "CHR '':'' \<notin> set h"
      by (auto dest: split_list_first)
    with that show ?thesis
      using host_of_append [of h p] by auto
  qed
  show ?thesis
    unfolding eq map_res_fault
    by (auto simp: host_of_fault map_res_eq_Inr elim!: list_all2_mono dest!: split)
qed

text \<open>
  The neighbours of a node. \<open>GetNodeNeighboursPubKeys\<close> takes the first end of every
  channel: the node counts as its own neighbour as soon as it is the first end of a channel, and
  a real neighbour is listed only where it is the first end of a channel with the node.
\<close>

lemma GetNodeNeighboursPubKeys_first_ends:
  assumes "rpc_GetNodeInfo client (PubKeyArrayToString pk) True = Inr nodeInfo"
    and "ni_Channels nodeInfo = map (\<lambda>(p, q). \<lparr>ce_Node1Pub = PubKeyArrayToString p,
           ce_Node2Pub = PubKeyArrayToString q\<rparr>) ends"
    and "\<forall>(p, q) \<in> set ends. p = pk \<or> q = pk"
  shows "\<exists>ns. GetNodeNeighboursPubKeys client pk = Inr ns \<and>
    (pk \<in> set ns \<longleftrightarrow> (\<exists>q. (pk, q) \<in> set ends)) \<and>
    (\<forall>p. p \<noteq> pk \<longrightarrow> (p \<in> set ns \<longleftrightarrow> (p, pk) \<in> set ends))"
proof -
  have "map_res (\<lambda>c. PubKeyStringToArray (ce_Node1Pub c)) (ni_Channels nodeInfo) = Inr (map fst ends)"
    unfolding assms(2) by (induction ends) auto
  then have "GetNodeNeighboursPubKeys client pk = Inr (map fst ends)"
    by (simp add: GetNodeNeighboursPubKeys_def assms(1))
  moreover have "p \<in> set (map fst ends) \<longleftrightarrow> (p, pk) \<in> set ends" if "p \<noteq> pk" for p
    using assms(3) that by (force simp: image_iff)
  moreover have "pk \<in> set (map fst ends) \<longleftrightarrow> (\<exists>q. (pk, q) \<in> set ends)"
    by (force simp: image_iff)
  ultimately show ?thesis
    by blast
qed

section \<open>A small network\<close>

definition example_lnd :: "Channel list \<Rightarrow> Lnd" where
  "example_lnd chs =
     \<lparr>rpc_GetInfo = Inr (PubKeyArrayToString (arr_copy 0 [2, 1])),
      rpc_GetNodeInfo = (\<lambda>pk includeChannels. Inr
        \<lparr>ni_Addresses = [''10.0.0.7:9735''],
         ni_Channels = (if includeChannels
           then [\<lparr>ce_Node1Pub = PubKeyArrayToString (arr_copy 0 [2, 1]),
                  ce_Node2Pub = PubKeyArrayToString (arr_copy 0 [2, 2])\<rparr>]
           else [])\<rparr>),
      rpc_ListChannels = Inr chs,
      rpc_SignMessage = (\<lambda>m. Inr (EncodeToString (take 65 (m @ replicate 65 0)))),
      rpc_VerifyMessage = (\<lambda>m s. Inr (s = EncodeToString (take 65 (m @ replicate 65 0)),
        PubKeyArrayToString (arr_copy 0 [2, 1]))),
      zbase32_Encode = EncodeToString, zbase32_Decode = DecodeString\<rparr>"

end
