(* ===== verification/Routing_Table.thy ===== *)
theory Routing_Table
  imports Registry Lightning
begin

text \<open>
  The routing table of \<open>ldrlib/db.go\<close>: installing a routing entry, learning a destination from a
  peer (\<open>addNewDestinationToDB\<close>) and following the balances of the local channels
  (\<open>SynchronizeRoutingDB\<close>), with the lemmas that give the effect of each on \<open>route_map\<close> and on
  the stack.
\<close>

section \<open>Operations\<close>

record destination =
  d_address :: address
  d_capacity :: i64

definition routingEntryToDestination :: "routingEntry \<Rightarrow> destination" where
  "routingEntryToDestination entry = \<lparr>d_address = re_destination entry, d_capacity = re_capacity entry\<rparr>"

definition destinationToRoutingEntry :: "destination \<Rightarrow> u64 \<Rightarrow> address \<Rightarrow> routingEntry" where
  "destinationToRoutingEntry dest currentBlock nextHopNeighbour =
     \<lparr>re_destination = d_address dest, re_nextHop = nextHopNeighbour, re_capacity = d_capacity dest,
      re_height = currentBlock\<rparr>"

text \<open>The loop of \<open>addNewDestinationToDB\<close> over the local channels: it writes to the new entry.\<close>

fun limit_capacity :: "string \<Rightarrow> entry_ref \<Rightarrow> Channel list \<Rightarrow> entry_store \<Rightarrow> entry_store" where
  "limit_capacity key r [] h = h"
| "limit_capacity key r (ch # chs) h = limit_capacity key r chs
     (if ch_RemotePubkey ch = key \<and> ch_LocalBalance ch <s re_capacity (h r)
      then h(r := (h r)\<lparr>re_capacity := ch_LocalBalance ch\<rparr>) else h)"

definition addNewDestinationToDB :: "Lnd \<Rightarrow> destination \<Rightarrow> pubkey \<Rightarrow> DB \<Rightarrow> DB res" where
  "addNewDestinationToDB lnClient dest neighbourPubKey db =
     (if d_address dest = getLocalAddress db then Inr db
      else bind_res (GetNodeAddress db neighbourPubKey) (\<lambda>(peerAddress, _).
        let (newEntry, db) = new_entry
              \<lparr>re_destination = d_address dest, re_nextHop = peerAddress,
               re_capacity = d_capacity dest, re_height = getBlockHeight db\<rparr> db
        in bind_res (GetLocalChannels lnClient) (\<lambda>localChannels.
        let db = db\<lparr>db_entries :=
              limit_capacity (PubKeyArrayToString neighbourPubKey) newEntry localChannels (db_entries db)\<rparr>
        in bind_res (getRoutingEntry db (d_address dest)) (\<lambda>found.
        case found of
          None \<Rightarrow> addRoutingEntryToDB newEntry db
        | Some entry \<Rightarrow>
            if re_capacity (db_entries db newEntry) <s re_capacity (db_entries db entry) then Inr db
            else addRoutingEntryToDB newEntry db))))"

text \<open>The inner loop of \<open>SynchronizeRoutingDB\<close>: entries via a neighbour follow its balance.\<close>

fun cap_entries :: "address \<Rightarrow> i64 \<Rightarrow> entry_ref list \<Rightarrow> entry_store \<Rightarrow> entry_store" where
  "cap_entries neighbourAddress balance [] h = h"
| "cap_entries neighbourAddress balance (r # rs) h = cap_entries neighbourAddress balance rs
     (if re_nextHop (h r) = neighbourAddress \<and> balance <s re_capacity (h r)
      then h(r := (h r)\<lparr>re_capacity := balance\<rparr>) else h)"

definition sync_channel :: "Lnd \<Rightarrow> entry_ref list \<Rightarrow> Channel \<Rightarrow> DB \<Rightarrow> DB res" where
  "sync_channel lnClient routingEntries localChannel db =
     bind_res (PubKeyStringToArray (ch_RemotePubkey localChannel)) (\<lambda>neighbourPubKey.
     bind_res (GetNodeAddress db neighbourPubKey) (\<lambda>(neighbourAddress, registered).
     if \<not> registered then Inr db
     else addNewDestinationToDB lnClient
            \<lparr>d_address = neighbourAddress, d_capacity = ch_LocalBalance localChannel\<rparr> neighbourPubKey
            (db\<lparr>db_entries := cap_entries neighbourAddress (ch_LocalBalance localChannel)
                 routingEntries (db_entries db)\<rparr>)))"

text \<open>
  One round of \<open>SynchronizeRoutingDB\<close>. The channels are listed again inside every
  \<open>addNewDestinationToDB\<close>: \<open>lnd k\<close> is what lnd answers at the \<open>k\<close>-th listing of the round.
\<close>

definition sync_round :: "(nat \<Rightarrow> Lnd) \<Rightarrow> DB \<Rightarrow> DB res" where
  "sync_round lnd db =
     bind_res (GetLocalChannels (lnd 0)) (\<lambda>localChannels.
       let routingEntries = peekFromBlock (db_entries db) genesisBlock (db_routingEntriesStack db) in
       fold_res (\<lambda>(k, localChannel). sync_channel (lnd (Suc k)) routingEntries localChannel)
         (enumerate 0 localChannels) db)"

text \<open>The endless loop, cut after as many rounds as the list has answers for.\<close>

definition SynchronizeRoutingDB :: "(nat \<Rightarrow> Lnd) list \<Rightarrow> DB \<Rightarrow> DB res" where
  "SynchronizeRoutingDB rounds db = fold_res sync_round rounds db"

text \<open>\<open>addRoutingEntryToDB\<close> of an entry just read or built: a fresh object.\<close>

definition put_route :: "routingEntry \<Rightarrow> DB \<Rightarrow> DB res" where
  "put_route e db = (let (r, db) = new_entry e db in addRoutingEntryToDB r db)"

section \<open>Installing an entry\<close>

lemma route_map_Some:
  "route_map db a = Some e \<longleftrightarrow>
   (\<exists>info r. addr_map db a = Some info \<and> ai_routingEntry info = Some r \<and> e = db_entries db r)"
  by (auto simp: route_map_def split: option.splits)

lemma stack_remove_current:
  assumes "db_ok db" and "addr_map db a = Some info"
  shows "(case ai_routingEntry info of None \<Rightarrow> Inr (db_routingEntriesStack db)
      | Some q \<Rightarrow> stack_remove q (db_routingEntriesStack db)) =
    Inr (case ai_routingEntry info of None \<Rightarrow> db_routingEntriesStack db
      | Some q \<Rightarrow> remove1 q (db_routingEntriesStack db))"
  using assms by (auto simp: db_ok_def entries_ok_def stack_remove_eq split: option.splits)

lemma addRoutingEntryToDB_spec:
  assumes "db_ok db" and "addr_map db (re_destination (db_entries db r)) = Some info"
    and "r < db_nextEntry db" and "r \<notin> set (db_routingEntriesStack db)"
  obtains db' where "addRoutingEntryToDB r db = Inr db'" and "db_ok db'"
    and "addr_map db' = (addr_map db)(re_destination (db_entries db r) \<mapsto> info\<lparr>ai_routingEntry := Some r\<rparr>)"
    and "db_routingEntriesStack db' = r # (case ai_routingEntry info of
           None \<Rightarrow> db_routingEntriesStack db | Some q \<Rightarrow> remove1 q (db_routingEntriesStack db))"
    and "db_entries db' = db_entries db" "db_nextEntry db' = db_nextEntry db"
    and "db_height db' = db_height db" "db_localAddress db' = db_localAddress db"
    and "db_keyToAddressMap db' = db_keyToAddressMap db" "db_destConns db' = db_destConns db"
    and "db_filePath db' = db_filePath db"
proof -
  let ?a = "re_destination (db_entries db r)"
  let ?info = "info\<lparr>ai_routingEntry := Some r\<rparr>"
  let ?stack = "case ai_routingEntry info of None \<Rightarrow> db_routingEntriesStack db
    | Some q \<Rightarrow> remove1 q (db_routingEntriesStack db)"
  have "tree_ok 32 (db_addressTreeHead db)"
    using assms(1,2) by (intro tree_ok_of_registered [of db ?a]) (auto simp: db_ok_def)
  then obtain t where t: "write_data (path ?a) ?info (db_addressTreeHead db) = Inr t" "tree_ok 32 t"
    and upd: "\<And>q. length q = 32 \<Longrightarrow>
      tree_map t q = (if q = path ?a then Some ?info else tree_map (db_addressTreeHead db) q)"
    using write_data_ok [of "path ?a" "db_addressTreeHead db" ?info] assms(2)
    by (auto simp: addr_map_def)
  let ?db' = "db\<lparr>db_addressTreeHead := t, db_routingEntriesStack := stack_put r ?stack\<rparr>"
  have add: "addRoutingEntryToDB r db = Inr ?db'"
    using assms(1,2) t
    by (simp add: addRoutingEntryToDB_def walk_info db_ok_root stack_remove_current)
  have m: "addr_map ?db' = (addr_map db)(?a \<mapsto> ?info)"
    by (simp add: addr_map_tree_upd [OF upd])
  have distinct: "distinct (db_routingEntriesStack db)"
    using assms(1) by (simp add: db_ok_def stack_ok_def)
  have names: "ai_address info = ?a"
    using assms(1,2) by (auto simp: db_ok_def names_ok_def)
  have rest: "q \<in> set ?stack \<longleftrightarrow> q \<in> set (db_routingEntriesStack db) \<and> ai_routingEntry info \<noteq> Some q" for q
    using distinct by (auto split: option.splits)
  have "names_ok ?db'" "keys_ok ?db'"
    using assms(1) names unfolding db_ok_def names_ok_def keys_ok_def m by auto
  moreover have "entries_ok ?db'"
  proof -
    have "q \<in> set (stack_put r ?stack) \<and> re_destination (db_entries db q) = b"
      if "addr_map db b = Some i" "ai_routingEntry i = Some q" "b \<noteq> ?a" for b i q
    proof -
      have q: "q \<in> set (db_routingEntriesStack db)" "re_destination (db_entries db q) = b"
        using assms(1) that by (auto simp: db_ok_def entries_ok_def)
      have "ai_routingEntry info \<noteq> Some q"
        using assms(1,2) q(2) that by (metis db_ok_def entries_ok_def)
      then show ?thesis
        using q rest by (simp add: stack_put_def)
    qed
    then show ?thesis
      unfolding entries_ok_def m by (auto simp: stack_put_def)
  qed
  moreover have "stack_ok ?db'"
  proof -
    have "q < db_nextEntry db \<and> re_destination (db_entries db q) \<noteq> ?a \<and>
        (\<exists>i. addr_map db (re_destination (db_entries db q)) = Some i \<and> ai_routingEntry i = Some q)"
      if "q \<in> set ?stack" for q
      using assms(1,2) that rest [of q] unfolding db_ok_def stack_ok_def by fastforce
    moreover have "distinct (r # ?stack)"
      using distinct assms(4) rest [of r] by (auto split: option.splits)
    ultimately show ?thesis
      using assms(3) unfolding stack_ok_def m by (auto simp: stack_put_def)
  qed
  ultimately have "db_ok ?db'"
    using t by (simp add: db_ok_def root_ok_def)
  then show ?thesis
    using that [OF add _ m] by (simp add: stack_put_def)
qed

lemma addRoutingEntryToDB_unregistered:
  "db_ok db \<Longrightarrow> addr_map db (re_destination (db_entries db r)) = None \<Longrightarrow>
   addRoutingEntryToDB r db = Inl NilDeref"
  by (simp add: addRoutingEntryToDB_def walk_info db_ok_root)

section \<open>The entry store\<close>

lemma db_ok_frame [simp]:
  "db_ok (db_height_update f db) = db_ok db"
  "db_ok (db_localAddress_update f1 db) = db_ok db"
  "db_ok (db_destConns_update f2 db) = db_ok db"
  by (simp_all add: db_ok_def names_ok_def keys_ok_def entries_ok_def stack_ok_def)

lemma route_map_frame [simp]:
  "route_map (db_height_update f db) = route_map db"
  "route_map (db_localAddress_update f1 db) = route_map db"
  "route_map (db_destConns_update f2 db) = route_map db"
  by (auto simp: route_map_def fun_eq_iff split: option.splits)

text \<open>Writing entries keeps the invariant as long as the entries on the stack keep their destination.\<close>

lemma db_ok_entries:
  assumes "db_ok db" and "db_nextEntry db \<le> n"
    and "\<And>r. r \<in> set (db_routingEntriesStack db) \<Longrightarrow> re_destination (h r) = re_destination (db_entries db r)"
  shows "db_ok (db\<lparr>db_entries := h, db_nextEntry := n\<rparr>)"
proof -
  have "entries_ok (db\<lparr>db_entries := h, db_nextEntry := n\<rparr>)"
    using assms(1,3) unfolding db_ok_def entries_ok_def by simp
  moreover have "stack_ok (db\<lparr>db_entries := h, db_nextEntry := n\<rparr>)"
    using assms unfolding db_ok_def stack_ok_def by fastforce
  ultimately show ?thesis
    using assms(1) by (simp add: db_ok_def names_ok_def keys_ok_def)
qed

lemma stack_ref_less: "db_ok db \<Longrightarrow> r \<in> set (db_routingEntriesStack db) \<Longrightarrow> r < db_nextEntry db"
  by (simp add: db_ok_def stack_ok_def)

lemma entry_on_stack:
  "db_ok db \<Longrightarrow> addr_map db a = Some info \<Longrightarrow> ai_routingEntry info = Some r \<Longrightarrow>
   r \<in> set (db_routingEntriesStack db) \<and> r < db_nextEntry db \<and> re_destination (db_entries db r) = a"
  by (auto simp: db_ok_def entries_ok_def stack_ok_def)

text \<open>A fresh entry, whatever it holds, leaves the table as it is.\<close>

definition with_entry :: "routingEntry \<Rightarrow> DB \<Rightarrow> DB" where
  "with_entry e db = db\<lparr>db_entries := (db_entries db)(db_nextEntry db := e), db_nextEntry := Suc (db_nextEntry db)\<rparr>"

lemma new_entry_eq: "new_entry e db = (db_nextEntry db, with_entry e db)"
  by (simp add: new_entry_def with_entry_def)

lemma with_entry_frame [simp]:
  "addr_map (with_entry e db) = addr_map db"
  "db_routingEntriesStack (with_entry e db) = db_routingEntriesStack db"
  "db_keyToAddressMap (with_entry e db) = db_keyToAddressMap db"
  "db_height (with_entry e db) = db_height db"
  "db_localAddress (with_entry e db) = db_localAddress db"
  "db_destConns (with_entry e db) = db_destConns db"
  "db_filePath (with_entry e db) = db_filePath db"
  "db_addressTreeHead (with_entry e db) = db_addressTreeHead db"
  "db_nextEntry (with_entry e db) = Suc (db_nextEntry db)"
  "db_entries (with_entry e db) (db_nextEntry db) = e"
  by (simp_all add: with_entry_def)

lemma with_entry_old: "r < db_nextEntry db \<Longrightarrow> db_entries (with_entry e db) r = db_entries db r"
  by (simp add: with_entry_def)

lemma db_ok_with_entry [simp]: "db_ok db \<Longrightarrow> db_ok (with_entry e db)"
  unfolding with_entry_def by (rule db_ok_entries) (auto dest: stack_ref_less)

lemma route_map_with_entry [simp]: "db_ok db \<Longrightarrow> route_map (with_entry e db) = route_map db"
  by (rule ext) (auto simp: route_map_def with_entry_old dest: entry_on_stack
      split: option.splits intro!: option.map_cong0)

text \<open>Installing a fresh entry for a registered destination.\<close>

lemma install_spec:
  assumes "db_ok db" and "addr_map db (re_destination e) = Some info"
  obtains db' where "addRoutingEntryToDB (db_nextEntry db) (with_entry e db) = Inr db'" and "db_ok db'"
    and "route_map db' = (route_map db)(re_destination e \<mapsto> e)"
    and "addr_map db' = (addr_map db)(re_destination e \<mapsto> info\<lparr>ai_routingEntry := Some (db_nextEntry db)\<rparr>)"
    and "db_routingEntriesStack db' = db_nextEntry db # (case ai_routingEntry info of
           None \<Rightarrow> db_routingEntriesStack db | Some q \<Rightarrow> remove1 q (db_routingEntriesStack db))"
    and "db_entries db' = (db_entries db)(db_nextEntry db := e)" "db_nextEntry db' = Suc (db_nextEntry db)"
    and "db_height db' = db_height db" "db_localAddress db' = db_localAddress db"
    and "db_keyToAddressMap db' = db_keyToAddressMap db" "db_destConns db' = db_destConns db"
    and "db_filePath db' = db_filePath db"
proof (rule addRoutingEntryToDB_spec [of "with_entry e db" "db_nextEntry db" info])
  show "db_nextEntry db \<notin> set (db_routingEntriesStack (with_entry e db))"
    using assms(1) by (auto dest: stack_ref_less)
next
  fix db'
  assume *: "addRoutingEntryToDB (db_nextEntry db) (with_entry e db) = Inr db'" "db_ok db'"
    "addr_map db' = (addr_map (with_entry e db))(re_destination (db_entries (with_entry e db) (db_nextEntry db))
       \<mapsto> info\<lparr>ai_routingEntry := Some (db_nextEntry db)\<rparr>)"
    "db_entries db' = db_entries (with_entry e db)"
  have "route_map db' = (route_map db)(re_destination e \<mapsto> e)"
  proof (rule ext)
    fix a
    show "route_map db' a = ((route_map db)(re_destination e \<mapsto> e)) a"
    proof (cases "a = re_destination e")
      case False
      then have "route_map db' a = route_map (with_entry e db) a"
        by (auto simp: route_map_def *(3,4) split: option.splits)
      then show ?thesis
        using False assms(1) by simp
    qed (simp add: route_map_def *(3,4))
  qed
  moreover have "db_entries (with_entry e db) = (db_entries db)(db_nextEntry db := e)"
    by (simp add: with_entry_def)
  moreover assume "db_routingEntriesStack db' = db_nextEntry db # (case ai_routingEntry info of
      None \<Rightarrow> db_routingEntriesStack (with_entry e db)
    | Some q \<Rightarrow> remove1 q (db_routingEntriesStack (with_entry e db)))"
    "db_nextEntry db' = db_nextEntry (with_entry e db)" "db_height db' = db_height (with_entry e db)"
    "db_localAddress db' = db_localAddress (with_entry e db)"
    "db_keyToAddressMap db' = db_keyToAddressMap (with_entry e db)"
    "db_destConns db' = db_destConns (with_entry e db)" "db_filePath db' = db_filePath (with_entry e db)"
  ultimately show ?thesis
    using that * by (simp cong: option.case_cong)
qed (use assms in simp_all)

lemma put_route_eq: "put_route e db = addRoutingEntryToDB (db_nextEntry db) (with_entry e db)"
  by (simp add: put_route_def new_entry_eq)

interpretation routes: keyed_store re_destination route_map put_route db_ok
  "\<lambda>db e. registered db (re_destination e)"
proof
  fix db db' :: DB and e e' :: routingEntry
  assume ok: "db_ok db" and "registered db (re_destination e)"
  then obtain info where info: "addr_map db (re_destination e) = Some info"
    by (auto simp: registered_def)
  show "\<exists>db'. put_route e db = Inr db' \<and> db_ok db'"
    by (rule install_spec [OF ok info]) (auto simp: put_route_eq)
  assume "put_route e db = Inr db'"
  then show "route_map db' = (route_map db)(re_destination e \<mapsto> e)"
    by (rule_tac install_spec [OF ok info]) (auto simp: put_route_eq)
  assume "registered db (re_destination e')"
  then show "registered db' (re_destination e')"
    using \<open>put_route e db = Inr db'\<close>
    by (rule_tac install_spec [OF ok info]) (auto simp: put_route_eq registered_def)
qed

section \<open>Peer connections\<close>

lemma addPeerConnToDB_spec:
  assumes "db_ok db" and "registered db a"
  shows "\<exists>db' info. addPeerConnToDB a r db = Inr db' \<and> db_ok db' \<and> addr_map db a = Some info \<and>
    addr_map db' = (addr_map db)(a \<mapsto> info\<lparr>ai_peerConn := Some r\<rparr>) \<and>
    (\<forall>b. registered db' b = registered db b) \<and>
    (\<forall>b. getPeerConn db' b = (if b = a then Inr (Some r) else getPeerConn db b)) \<and>
    route_map db' = route_map db \<and> db_localAddress db' = db_localAddress db"
proof -
  obtain info where info: "addr_map db a = Some info"
    using assms(2) by (auto simp: registered_def)
  let ?info = "info\<lparr>ai_peerConn := Some r\<rparr>"
  have "tree_ok 32 (db_addressTreeHead db)"
    using assms(1) info by (intro tree_ok_of_registered [of db a]) (auto simp: db_ok_def)
  then obtain t where t: "write_data (path a) ?info (db_addressTreeHead db) = Inr t" "tree_ok 32 t"
    and upd: "\<And>q. length q = 32 \<Longrightarrow>
      tree_map t q = (if q = path a then Some ?info else tree_map (db_addressTreeHead db) q)"
    using write_data_ok [of "path a" "db_addressTreeHead db" ?info] info by (auto simp: addr_map_def)
  let ?db' = "db\<lparr>db_addressTreeHead := t\<rparr>"
  have add: "addPeerConnToDB a r db = Inr ?db'"
    using assms(1) info t by (simp add: addPeerConnToDB_def walk_info db_ok_root)
  have m: "addr_map ?db' = (addr_map db)(a \<mapsto> ?info)"
    by (rule addr_map_tree_upd [OF upd])
  have name: "ai_address info = a"
    using assms(1) info by (auto simp: db_ok_def names_ok_def)
  have entries: "entries_ok ?db'" and names: "names_ok ?db'" and keys: "keys_ok ?db'"
    using assms(1) info name unfolding db_ok_def entries_ok_def names_ok_def keys_ok_def m by auto
  have "stack_ok ?db'"
    using assms(1) info unfolding db_ok_def stack_ok_def m by fastforce
  then have ok: "db_ok ?db'"
    using t entries names keys by (simp add: db_ok_def root_ok_def)
  have "route_map ?db' = route_map db"
    using info by (intro ext) (auto simp: route_map_def m split: option.splits)
  moreover have "getPeerConn ?db' b = (if b = a then Inr (Some r) else getPeerConn db b)" for b
    using ok assms(1) by (simp add: getPeerConn_eq m)
  ultimately show ?thesis
    using add ok info m by (auto simp: registered_def)
qed

lemma put_route_keeps_conns:
  assumes "db_ok db" and "registered db (re_destination e)"
  shows "\<exists>db'. put_route e db = Inr db' \<and> db_ok db' \<and> route_map db' = (route_map db)(re_destination e \<mapsto> e) \<and>
    (\<forall>a. getPeerConn db' a = getPeerConn db a) \<and> db_localAddress db' = db_localAddress db"
proof -
  obtain info where info: "addr_map db (re_destination e) = Some info"
    using assms(2) by (auto simp: registered_def)
  show ?thesis
    by (rule install_spec [OF assms(1) info]) (use info assms(1) in \<open>auto simp: put_route_eq getPeerConn_eq\<close>)
qed

end
