(* ===== verification/Wire_Format.thy ===== *)
theory Wire_Format
  imports Record_Codec Endian Routing_Table
begin

text \<open>
  The byte formats of \<open>ldrlib/utils.go\<close>: block height, routing entry, destination, address
  information and route. The first four are records of a fixed size and provide
  \<open>record_codec\<close>; a route has a variable number of hops behind a 16-bit count.
\<close>

section \<open>Block height\<close>

definition serializeBlockHeight :: "u64 \<Rightarrow> u8 list" where
  "serializeBlockHeight blockHeight = le_bytes 8 blockHeight"

definition deserializeBlockHeight :: "u8 list \<Rightarrow> u64 res" where
  "deserializeBlockHeight blockHeightBytes = le_get 8 blockHeightBytes"

section \<open>Routing entry\<close>

definition serializeRoutingEntry :: "routingEntry \<Rightarrow> u8 list" where
  "serializeRoutingEntry entry =
     list_of (re_destination entry) @ list_of (re_nextHop entry) @
     le_bytes 8 (re_capacity entry) @ le_bytes 8 (re_height entry)"

definition deserializeRoutingEntry :: "u8 list \<Rightarrow> routingEntry res" where
  "deserializeRoutingEntry entryBytes =
     bind_res (slice 0 4 entryBytes) (\<lambda>d.
     bind_res (slice 4 8 entryBytes) (\<lambda>n.
     bind_res (bind_res (slice 8 16 entryBytes) (le_get 8)) (\<lambda>c.
     bind_res (bind_res (slice 16 24 entryBytes) (le_get 8)) (\<lambda>h.
     Inr \<lparr>re_destination = arr_copy 0 d, re_nextHop = arr_copy 0 n, re_capacity = c, re_height = h\<rparr>))))"

section \<open>Destination\<close>

definition serializeDestination :: "destination \<Rightarrow> u8 list" where
  "serializeDestination dest = list_of (d_address dest) @ le_bytes 8 (d_capacity dest)"

definition deserializeDestination :: "u8 list \<Rightarrow> destination res" where
  "deserializeDestination destBytes =
     bind_res (slice 0 4 destBytes) (\<lambda>a.
     bind_res (bind_res (slice 4 12 destBytes) (le_get 8)) (\<lambda>c.
     Inr \<lparr>d_address = arr_copy 0 a, d_capacity = c\<rparr>))"

section \<open>Address information\<close>

definition addressInfoSerializedSize :: nat where
  "addressInfoSerializedSize = 81"

definition addressInfo_bytes :: "addressInfo \<Rightarrow> u8 list" where
  "addressInfo_bytes info =
     list_of (ai_address info) @ list_of (ai_nodePubKey info) @
     le_bytes 8 (ai_registrationHeight info) @ list_of (ai_registrationTxID info) @
     le_bytes 4 (ai_version info)"

definition serializeAddressInfo :: "addressInfo \<Rightarrow> u8 list res" where
  "serializeAddressInfo info =
     (if length (addressInfo_bytes info) \<noteq> addressInfoSerializedSize
      then Inl (Fatal ''Error serializing addressInfo: inconsistent sizes.'')
      else Inr (addressInfo_bytes info))"

text \<open>The offsets of the last two fields are those of the source.\<close>

definition deserializeAddressInfo :: "u8 list \<Rightarrow> addressInfo res" where
  "deserializeAddressInfo infoBytes =
     bind_res (slice 0 4 infoBytes) (\<lambda>a.
     bind_res (slice 4 37 infoBytes) (\<lambda>k.
     bind_res (bind_res (slice 37 45 infoBytes) (le_get 8)) (\<lambda>h.
     bind_res (slice 36 68 infoBytes) (\<lambda>t.
     bind_res (bind_res (slice 45 49 infoBytes) (le_get 4)) (\<lambda>v.
     Inr \<lparr>ai_address = arr_copy 0 a, ai_nodePubKey = arr_copy 0 k, ai_registrationHeight = h,
          ai_registrationTxID = arr_copy 0 t, ai_version = v, ai_routingEntry = None,
          ai_peerConn = None\<rparr>)))))"

section \<open>Route\<close>

record Route =
  rt_destination :: address
  rt_capacity :: i64
  rt_hops :: "address list"
  rt_token :: token

definition serializeRoute :: "Route \<Rightarrow> u8 list" where
  "serializeRoute route =
     list_of (rt_destination route) @ rt_token route @ le_bytes 8 (rt_capacity route) @
     le_bytes 2 (of_nat (length (rt_hops route)) :: u16) @ concat (map list_of (rt_hops route))"

definition deserializeRoute :: "u8 list \<Rightarrow> Route res" where
  "deserializeRoute routeBytes =
     bind_res (slice 0 4 routeBytes) (\<lambda>d.
     bind_res (slice 4 14 routeBytes) (\<lambda>t.
     bind_res (bind_res (slice 14 22 routeBytes) (le_get 8)) (\<lambda>c.
     bind_res (bind_res (slice 22 24 routeBytes) (le_get 2)) (\<lambda>numberHops.
     bind_res (map_res (\<lambda>i. bind_res (slice (24 + 4 * i) (24 + 4 * (i + 1)) routeBytes)
                              (\<lambda>b. Inr (arr_copy 0 b))) [0..<unat (numberHops :: u16)]) (\<lambda>hops.
     Inr \<lparr>rt_destination = arr_copy 0 d, rt_capacity = c, rt_hops = hops, rt_token = t\<rparr>)))))"

section \<open>The formats as record codecs\<close>

lemma slice_prefix: "slice 0 (length xs) (xs @ ys) = Inr xs"
  by (simp add: slice_def)

lemma slice_skip:
  "length xs \<le> a \<Longrightarrow> slice a b (xs @ ys) =
     (if a \<le> b then slice (a - length xs) (b - length xs) ys else Inl OutOfRange)"
  by (auto simp: slice_def)

lemma slice_head: "length xs = b \<Longrightarrow> slice 0 b (xs @ ys) = Inr xs"
  by (simp add: slice_def)

lemma slice_all: "length xs = b \<Longrightarrow> slice 0 b xs = Inr xs"
  by (simp add: slice_def)

lemmas read_back = slice_skip slice_head slice_all

lemma le_get_8 [simp]: "le_get 8 (le_bytes 8 (w :: u64)) = Inr w"
  and le_get_4 [simp]: "le_get 4 (le_bytes 4 (v :: u32)) = Inr v"
  and le_get_2 [simp]: "le_get 2 (le_bytes 2 (u :: u16)) = Inr u"
  by (rule le_get_bytes, simp)+

lemma serializeRoutingEntry_dec: "deserializeRoutingEntry (serializeRoutingEntry e) = Inr e"
  by (simp add: serializeRoutingEntry_def deserializeRoutingEntry_def read_back)

lemma serializeDestination_dec: "deserializeDestination (serializeDestination d) = Inr d"
  by (simp add: serializeDestination_def deserializeDestination_def read_back)

lemma length_serializeRoutingEntry: "length (serializeRoutingEntry e) = 24"
  by (simp add: serializeRoutingEntry_def)

lemma length_serializeDestination: "length (serializeDestination d) = 12"
  by (simp add: serializeDestination_def)

lemma split_at_length:
  assumes "length bs = m + n"
  obtains xs ys where "bs = xs @ ys" "length xs = m" "length ys = n"
  using assms by (intro that [of "take m bs" "drop m bs"]) auto

lemma list_of_copy_4 [simp]: "length xs = 4 \<Longrightarrow> list_of (arr_copy (0 :: address) xs) = xs"
  by simp

lemma deserializeDestination_ser:
  assumes "length bs = 12"
  shows "\<exists>d. deserializeDestination bs = Inr d \<and> serializeDestination d = bs"
proof -
  obtain a c where "bs = a @ c" "length a = 4" "length c = 8"
    using split_at_length [of bs 4 8] assms by auto
  then show ?thesis
    by (simp add: deserializeDestination_def serializeDestination_def read_back le_get_exact le_bytes_le_val)
qed

lemma deserializeRoutingEntry_ser:
  assumes "length bs = 24"
  shows "\<exists>e. deserializeRoutingEntry bs = Inr e \<and> serializeRoutingEntry e = bs"
proof -
  obtain d r where d: "bs = d @ r" "length d = 4" "length r = 20"
    using split_at_length [of bs 4 20] assms by auto
  obtain n s where n: "r = n @ s" "length n = 4" "length s = 16"
    using split_at_length [of r 4 16] d by auto
  obtain c h where "s = c @ h" "length c = 8" "length h = 8"
    using split_at_length [of s 8 8] n by auto
  with d n show ?thesis
    by (simp add: deserializeRoutingEntry_def serializeRoutingEntry_def read_back le_get_exact le_bytes_le_val)
qed

interpretation entry_codec: exact_codec serializeRoutingEntry deserializeRoutingEntry 24 "\<lambda>e. e"
  by unfold_locales
    (simp_all add: serializeRoutingEntry_dec deserializeRoutingEntry_ser length_serializeRoutingEntry)

interpretation destination_codec: exact_codec serializeDestination deserializeDestination 12 "\<lambda>d. d"
  by unfold_locales
    (simp_all add: serializeDestination_dec deserializeDestination_ser length_serializeDestination)

interpretation height_codec: exact_codec serializeBlockHeight deserializeBlockHeight 8 "\<lambda>h. h"
  by unfold_locales
    (auto simp: serializeBlockHeight_def deserializeBlockHeight_def le_get_exact le_bytes_le_val)

interpretation hop_codec: exact_codec "list_of :: address \<Rightarrow> u8 list" "\<lambda>b. Inr (arr_copy 0 b)" 4 "\<lambda>a. a"
  by unfold_locales auto

text \<open>
  What an address record keeps: the transaction id read back is the last byte of the public
  key, the registration height and the first 23 bytes of the real one, and the version is
  the first four bytes of the transaction id.
\<close>

definition stored_info :: "addressInfo \<Rightarrow> addressInfo" where
  "stored_info info = info\<lparr>
     ai_registrationTxID := arr_copy 0 (list_of (ai_nodePubKey info) ! 32 #
        le_bytes 8 (ai_registrationHeight info) @ take 23 (list_of (ai_registrationTxID info))),
     ai_version := le_val (take 4 (list_of (ai_registrationTxID info))),
     ai_routingEntry := None, ai_peerConn := None\<rparr>"

lemma length_addressInfo_bytes [simp]: "length (addressInfo_bytes info) = 81"
  by (simp add: addressInfo_bytes_def)

lemma serializeAddressInfo_eq [simp]: "serializeAddressInfo info = Inr (addressInfo_bytes info)"
  by (simp add: serializeAddressInfo_def addressInfoSerializedSize_def)

lemma drop_last_byte: "length xs = Suc n \<Longrightarrow> drop n xs = [xs ! n]"
  by (simp add: Cons_nth_drop_Suc [symmetric])

lemma deserialize_addressInfo_bytes: "deserializeAddressInfo (addressInfo_bytes info) = Inr (stored_info info)"
proof -
  let ?k = "list_of (ai_nodePubKey info)" and ?h = "le_bytes 8 (ai_registrationHeight info)"
    and ?t = "list_of (ai_registrationTxID info)"
  have txid: "slice 36 68 (addressInfo_bytes info) = Inr (?k ! 32 # ?h @ take 23 ?t)"
    by (simp add: addressInfo_bytes_def slice_def drop_last_byte)
  have version: "slice 45 49 (addressInfo_bytes info) = Inr (take 4 ?t)"
    by (simp add: addressInfo_bytes_def slice_def)
  have "slice 0 4 (addressInfo_bytes info) = Inr (list_of (ai_address info))"
    "slice 4 37 (addressInfo_bytes info) = Inr ?k" "slice 37 45 (addressInfo_bytes info) = Inr ?h"
    by (simp_all add: addressInfo_bytes_def slice_def)
  with txid version show ?thesis
    by (simp add: deserializeAddressInfo_def stored_info_def le_get_exact)
qed

interpretation info_codec: record_codec addressInfo_bytes deserializeAddressInfo 81 stored_info
  by unfold_locales (simp_all add: deserialize_addressInfo_bytes)

lemma deserializeRoute_serializeRoute:
  assumes "length (rt_token route) = 10"
  shows "deserializeRoute (serializeRoute route) =
    Inr (route\<lparr>rt_hops := take (length (rt_hops route) mod 65536) (rt_hops route)\<rparr>)"
proof -
  let ?hops = "rt_hops route"
  let ?hdr = "list_of (rt_destination route) @ rt_token route @ le_bytes 8 (rt_capacity route) @
     le_bytes 2 (of_nat (length ?hops) :: u16)"
  have count: "unat (of_nat (length ?hops) :: u16) = length ?hops mod 65536"
    by (simp add: unat_of_nat)
  have "map_res (\<lambda>i. bind_res (slice (24 + i * 4) (24 + (i + 1) * 4) (?hdr @ concat (map list_of ?hops) @ []))
      (\<lambda>b. Inr (arr_copy 0 b :: address))) [0..<length ?hops mod 65536] =
      Inr (map (\<lambda>a. a) (take (length ?hops mod 65536) ?hops))"
    by (rule hop_codec.dec_records) (use assms in simp_all)
  then have hops: "map_res (\<lambda>i. bind_res (slice (24 + 4 * i) (24 + 4 * (i + 1)) (serializeRoute route))
      (\<lambda>b. Inr (arr_copy 0 b :: address))) [0..<length ?hops mod 65536] =
      Inr (take (length ?hops mod 65536) ?hops)"
    by (simp add: serializeRoute_def mult.commute [of 4])
  have "slice 0 4 (serializeRoute route) = Inr (list_of (rt_destination route))"
    "slice 4 14 (serializeRoute route) = Inr (rt_token route)"
    "slice 14 22 (serializeRoute route) = Inr (le_bytes 8 (rt_capacity route))"
    "slice 22 24 (serializeRoute route) = Inr (le_bytes 2 (of_nat (length ?hops) :: u16))"
    using assms by (simp_all add: serializeRoute_def slice_def)
  then show ?thesis
    unfolding deserializeRoute_def using hops by (simp add: count)
qed

text \<open>Decoding any byte string: it panics unless the hops the count promises are there.\<close>

definition claimed_hops :: "u8 list \<Rightarrow> nat" where
  "claimed_hops routeBytes = unat (le_val (take 2 (drop 22 routeBytes)) :: u16)"

lemma deserializeRoute_cases:
  assumes "24 \<le> length bs"
  shows "deserializeRoute bs = Inl OutOfRange \<longleftrightarrow> length bs < 24 + 4 * claimed_hops bs"
    and "(\<exists>f. deserializeRoute bs = Inl f) \<longleftrightarrow> length bs < 24 + 4 * claimed_hops bs"
proof -
  let ?g = "\<lambda>i. bind_res (slice (24 + 4 * i) (24 + 4 * (i + 1)) bs) (\<lambda>b. Inr (arr_copy 0 b :: address))"
  let ?n = "claimed_hops bs"
  have fields: "slice 0 4 bs = Inr (take 4 bs)" "slice 4 14 bs = Inr (take 10 (drop 4 bs))"
    "slice 14 22 bs = Inr (take 8 (drop 14 bs))" "slice 22 24 bs = Inr (take 2 (drop 22 bs))"
    using assms by (simp_all add: slice_def)
  have gets: "le_get 8 (take 8 (drop 14 bs)) = Inr (le_val (take 8 (drop 14 bs)) :: u64)"
    "le_get 2 (take 2 (drop 22 bs)) = Inr (le_val (take 2 (drop 22 bs)) :: u16)"
    using assms by (simp_all add: le_get_exact)
  have eq: "deserializeRoute bs = bind_res (map_res ?g [0..<?n]) (\<lambda>hops.
      Inr \<lparr>rt_destination = arr_copy 0 (take 4 bs), rt_capacity = le_val (take 8 (drop 14 bs)),
           rt_hops = hops, rt_token = take 10 (drop 4 bs)\<rparr>)"
    unfolding deserializeRoute_def by (simp add: fields gets claimed_hops_def)
  have g: "?g i = Inl f \<longleftrightarrow> f = OutOfRange \<and> length bs < 24 + 4 * (i + 1)" for i f
    by (auto simp: slice_def)
  have fault: "f = OutOfRange \<and> length bs < 24 + 4 * ?n" if "map_res ?g [0..<?n] = Inl f" for f
    using map_res_fault_from [OF that] unfolding g by auto
  have short: "\<exists>f. map_res ?g [0..<?n] = Inl f" if "length bs < 24 + 4 * ?n"
  proof -
    have "?n - 1 \<in> set [0..<?n]" and "?g (?n - 1) = Inl OutOfRange"
      using that assms by (auto simp: g)
    then show ?thesis
      unfolding map_res_fault by blast
  qed
  show "deserializeRoute bs = Inl OutOfRange \<longleftrightarrow> length bs < 24 + 4 * ?n"
    using fault short unfolding eq by (cases "map_res ?g [0..<?n]") auto
  show "(\<exists>f. deserializeRoute bs = Inl f) \<longleftrightarrow> length bs < 24 + 4 * ?n"
    using fault short unfolding eq by (cases "map_res ?g [0..<?n]") auto
qed

section \<open>Properties\<close>

lemma slice_unit_fault: "length s < b \<Longrightarrow> bind_res (slice a b s) f = Inl OutOfRange"
  by simp

lemma short_records:
  "length bs < 24 \<Longrightarrow> deserializeRoutingEntry bs = Inl OutOfRange"
  "length bs < 12 \<Longrightarrow> deserializeDestination bs = Inl OutOfRange"
  by (auto simp: deserializeRoutingEntry_def deserializeDestination_def bind_res_def slice_def le_get_def
      split: sum.splits if_splits)

text \<open>
  The record formats. Routing entries take 24 bytes and destinations 12; on a string of that size
  the decoder succeeds and gives exactly the value whose encoding the string is, so no information is
  lost or invented; on a shorter string it panics.
\<close>

lemma record_formats_exact:
  "length (serializeRoutingEntry e) = 24 \<and> length (serializeDestination d) = 12 \<and>
   (length bs = 24 \<longrightarrow> (deserializeRoutingEntry bs = Inr e \<longleftrightarrow> bs = serializeRoutingEntry e)) \<and>
   (length bs = 12 \<longrightarrow> (deserializeDestination bs = Inr d \<longleftrightarrow> bs = serializeDestination d)) \<and>
   (length bs < 24 \<longrightarrow> deserializeRoutingEntry bs = Inl OutOfRange) \<and>
   (length bs < 12 \<longrightarrow> deserializeDestination bs = Inl OutOfRange)"
  by (simp add: entry_codec.dec_eq_iff destination_codec.dec_eq_iff length_serializeRoutingEntry
      length_serializeDestination short_records)

definition example_entry :: routingEntry where
  "example_entry = \<lparr>re_destination = arr_copy 0 [10, 0, 0, 1], re_nextHop = arr_copy 0 [10, 0, 0, 2],
     re_capacity = 1000, re_height = 600000\<rparr>"

text \<open>
  C39: reading back an address record. The address, the public key and the registration height come
  back; the transaction id does not: its first byte is the last byte of the public key, then come
  the height and 23 bytes of the real id. The version read is the first four bytes of the id,
  not the version written.
\<close>

theorem addressInfo_roundtrip:
  "\<exists>bs info'. serializeAddressInfo info = Inr bs \<and> length bs = addressInfoSerializedSize \<and>
     deserializeAddressInfo bs = Inr info' \<and>
     ai_address info' = ai_address info \<and> ai_nodePubKey info' = ai_nodePubKey info \<and>
     ai_registrationHeight info' = ai_registrationHeight info \<and>
     list_of (ai_registrationTxID info') = list_of (ai_nodePubKey info) ! 32 #
       le_bytes 8 (ai_registrationHeight info) @ take 23 (list_of (ai_registrationTxID info)) \<and>
     ai_version info' = le_val (take 4 (list_of (ai_registrationTxID info)))"
  by (simp add: deserialize_addressInfo_bytes addressInfoSerializedSize_def stored_info_def)

text \<open>
  The route format. With a token of ten bytes, decoding the encoding of a route gives the route
  back, its hops cut to their number modulo 65536: the count is written in 16 bits. So a route
  of fewer than 65536 hops survives, and a longer one loses its tail without an error.
\<close>

lemma route_roundtrip:
  assumes "length (rt_token route) = 10"
  shows "deserializeRoute (serializeRoute route) =
    Inr (route\<lparr>rt_hops := take (length (rt_hops route) mod 65536) (rt_hops route)\<rparr>)"
  by (rule deserializeRoute_serializeRoute [OF assms])

definition example_rt :: Route where
  "example_rt = \<lparr>rt_destination = arr_copy 0 [10, 0, 0, 1], rt_capacity = 1000,
     rt_hops = [arr_copy 0 [10, 0, 0, 2], arr_copy 0 [10, 0, 0, 1]],
     rt_token = [1, 2, 3, 4, 5, 6, 7, 8, 9, 10]\<rparr>"

end
