(* ===== verification/Suggest_Address.thy ===== *)
theory Suggest_Address
  imports Registry Go_Strings
begin

text \<open>
  \<open>SuggestAddress\<close> and the searches it runs (\<open>closestFreeAddress\<close>, \<open>bottomSearch\<close>, the two
  depth-first searches and the padding), and an exact account of what it suggests.

  A level \<open>p\<close> of a seed address is the subtree of the addresses that agree with the seed on the
  first \<open>p\<close> bits and differ on bit \<open>p\<close>. The search finds the deepest level with a free address.
  When that level is empty the suggestion is a free address of it; when it is partly used, the
  depth-first searches report the seed's own path instead of the path they took, and the
  suggestion is an address that is registered already.
\<close>

section \<open>The search\<close>

definition rightPadBitAddress :: "bits32 \<Rightarrow> nat \<Rightarrow> bool \<Rightarrow> bits32" where
  "rightPadBitAddress bitAddress startPosition padBit =
     fold (\<lambda>i bits. arr_set bits i padBit) [startPosition..<32] bitAddress"

fun leftToRightDFS :: "'a node \<Rightarrow> bits32 \<Rightarrow> nat \<Rightarrow> bool \<times> bits32" where
  "leftToRightDFS NilNode bits pathPosition = (True, rightPadBitAddress bits pathPosition False)"
| "leftToRightDFS (Node d l r) bits pathPosition =
     (if is_nil l \<and> is_nil r then (False, arr_fill False)
      else (let (foundFlag, suggested) = leftToRightDFS l bits (pathPosition + 1) in
        if foundFlag then (foundFlag, suggested)
        else (let (foundFlag, suggested) = leftToRightDFS r bits (pathPosition + 1) in
          if foundFlag then (foundFlag, suggested) else (False, arr_fill False))))"

fun rightToLeftDFS :: "'a node \<Rightarrow> bits32 \<Rightarrow> nat \<Rightarrow> bool \<times> bits32" where
  "rightToLeftDFS NilNode bits pathPosition = (True, rightPadBitAddress bits pathPosition False)"
| "rightToLeftDFS (Node d l r) bits pathPosition =
     (if is_nil l \<and> is_nil r then (False, arr_fill False)
      else (let (foundFlag, suggested) = rightToLeftDFS r bits (pathPosition + 1) in
        if foundFlag then (foundFlag, suggested)
        else (let (foundFlag, suggested) = rightToLeftDFS l bits (pathPosition + 1) in
          if foundFlag then (foundFlag, suggested) else (False, arr_fill False))))"

fun bottomSearch :: "'a node \<Rightarrow> bits32 \<Rightarrow> nat \<Rightarrow> (bool \<times> address) res" where
  "bottomSearch NilNode bits pathPosition = Inl NilDeref"
| "bottomSearch (Node d l r) bits pathPosition =
     (if is_nil l \<and> is_nil r then Inr (False, 0)
      else bind_res (index (list_of bits) pathPosition) (\<lambda>b.
        if b then
          (if is_nil l then
             Inr (True, bitToByte (rightPadBitAddress (arr_set bits pathPosition False) (pathPosition + 1) True))
           else (let (foundFlag, suggested) = rightToLeftDFS l bits pathPosition in
             Inr (foundFlag, bitToByte suggested)))
        else
          (if is_nil r then
             Inr (True, bitToByte (rightPadBitAddress (arr_set bits pathPosition True) (pathPosition + 1) False))
           else (let (foundFlag, suggested) = leftToRightDFS r bits pathPosition in
             Inr (foundFlag, bitToByte suggested)))))"

function closestFreeAddress :: "'a node \<Rightarrow> bits32 \<Rightarrow> nat \<Rightarrow> (bool \<times> address) res" where
  "closestFreeAddress NilNode bits positionIndex = Inl NilDeref"
| "closestFreeAddress (Node d l r) bits positionIndex =
     (if is_nil l \<and> is_nil r then Inr (False, 0)
      else bind_res (index (list_of bits) positionIndex) (\<lambda>b.
        let head = (if b then r else l) in
        bind_res (closestFreeAddress head bits (positionIndex + 1)) (\<lambda>(foundFlag, suggested).
          if foundFlag then Inr (foundFlag, suggested)
          else bind_res (bottomSearch head bits (positionIndex + 1)) (\<lambda>(foundFlag, suggested).
            if foundFlag then Inr (foundFlag, suggested) else Inr (False, 0)))))"
  by pat_completeness auto
termination
  by (relation "measure (\<lambda>(head, _). size head)") auto

definition SuggestAddress :: "DB \<Rightarrow> address \<Rightarrow> (go_error + address) res" where
  "SuggestAddress db seedAddress =
     bind_res (closestFreeAddress (db_addressTreeHead db) (byteToBit seedAddress) 0)
       (\<lambda>(foundFlag, suggestedAddress).
          if foundFlag then Inr (Inr suggestedAddress)
          else Inr (Inl (''Can't suggest address for '' @ ip_string seedAddress)))"

section \<open>Full subtrees\<close>

text \<open>Every address below the node, \<open>n\<close> bits deep, is registered.\<close>

fun full :: "nat \<Rightarrow> 'a node \<Rightarrow> bool" where
  "full n NilNode = False"
| "full 0 (Node d l r) = True"
| "full (Suc n) (Node d l r) \<longleftrightarrow> full n l \<and> full n r"

lemma all_paths_Suc:
  "(\<forall>v :: bool list. length v = Suc n \<longrightarrow> P v) \<longleftrightarrow>
   (\<forall>v. length v = n \<longrightarrow> P (False # v)) \<and> (\<forall>v. length v = n \<longrightarrow> P (True # v))"
  (is "?all \<longleftrightarrow> ?parts")
proof
  assume parts: ?parts
  have "P (b # w)" if "length w = n" for b w
    using parts that by (cases b) simp_all
  then show ?all
    by (auto simp: length_Suc_conv)
qed simp

lemma full_iff:
  assumes "t = NilNode \<or> tree_ok n t"
  shows "full n t \<longleftrightarrow> (\<forall>v. length v = n \<longrightarrow> tree_map t v \<noteq> None)"
  using assms
proof (induction n t rule: full.induct)
  case (1 n)
  have "length (replicate n False) = n" by simp
  then show ?case by (auto intro!: exI [of _ "replicate n False"])
next
  case (3 n d l r)
  then have "full n l \<longleftrightarrow> (\<forall>v. length v = n \<longrightarrow> tree_map l v \<noteq> None)"
    "full n r \<longleftrightarrow> (\<forall>v. length v = n \<longrightarrow> tree_map r v \<noteq> None)"
    by auto
  then show ?case
    unfolding all_paths_Suc by simp
qed auto

section \<open>What the depth-first searches return\<close>

lemma list_of_rightPad:
  "list_of (rightPadBitAddress bits q b) = take q (list_of bits) @ replicate (32 - q) b"
proof -
  have pad: "q + n \<le> length xs \<Longrightarrow>
      fold (\<lambda>i xs. xs[i := b]) [q..<q + n] xs = take q xs @ replicate n b @ drop (q + n) xs" for n xs
  proof (induction n)
    case (Suc n)
    have "drop (q + n) xs = xs ! (q + n) # drop (Suc (q + n)) xs"
      using Suc.prems by (simp add: Cons_nth_drop_Suc)
    with Suc show ?case
      by (simp add: list_update_append replicate_append_same)
  qed simp
  have lift: "list_of (fold (\<lambda>i bits. arr_set bits i b) is bits) =
      fold (\<lambda>i xs. xs[i := b]) is (list_of bits)" for "is" and bits :: bits32
    by (induction "is" arbitrary: bits) auto
  show ?thesis
  proof (cases "q \<le> 32")
    case True
    then show ?thesis
      using pad [of "32 - q" "list_of bits"] by (simp add: rightPadBitAddress_def lift)
  qed (simp add: rightPadBitAddress_def)
qed

lemma DFS_found_Node:
  "fst (leftToRightDFS (Node d l r) bits p) \<longleftrightarrow> \<not> (is_nil l \<and> is_nil r) \<and>
     (fst (leftToRightDFS l bits (p + 1)) \<or> fst (leftToRightDFS r bits (p + 1)))"
  "fst (rightToLeftDFS (Node d l r) bits p) \<longleftrightarrow> \<not> (is_nil l \<and> is_nil r) \<and>
     (fst (rightToLeftDFS r bits (p + 1)) \<or> fst (rightToLeftDFS l bits (p + 1)))"
  by (simp_all add: Let_def case_prod_beta)

lemma DFS_step:
  "leftToRightDFS (Node d l r) bits p = (True, s) \<Longrightarrow>
     leftToRightDFS l bits (p + 1) = (True, s) \<or> leftToRightDFS r bits (p + 1) = (True, s)"
  "rightToLeftDFS (Node d l r) bits p = (True, s) \<Longrightarrow>
     rightToLeftDFS l bits (p + 1) = (True, s) \<or> rightToLeftDFS r bits (p + 1) = (True, s)"
  by (auto simp: Let_def case_prod_beta prod_eq_iff split: if_splits)

declare leftToRightDFS.simps(2) [simp del] rightToLeftDFS.simps(2) [simp del]

lemma DFS_found_iff:
  "t = NilNode \<or> tree_ok n t \<Longrightarrow> (fst (leftToRightDFS t bits p) \<longleftrightarrow> \<not> full n t) \<and>
     (fst (rightToLeftDFS t bits p) \<longleftrightarrow> \<not> full n t)"
proof (induction n t arbitrary: p rule: full.induct)
  case (3 n d l r)
  then have "l = NilNode \<or> tree_ok n l" "r = NilNode \<or> tree_ok n r" "\<not> (is_nil l \<and> is_nil r)"
    by (auto simp: is_nil_def)
  with 3 show ?case
    by (auto simp: DFS_found_Node)
qed (auto simp: DFS_found_Node)

text \<open>Whatever they find, they pad the seed, at or below the depth where they started.\<close>

lemma leftToRightDFS_pads:
  "leftToRightDFS t bits p = (True, s) \<Longrightarrow>
   \<exists>q \<ge> p. s = rightPadBitAddress bits q False \<and> (t \<noteq> NilNode \<longrightarrow> p < q)"
proof (induction t arbitrary: p)
  case (Node d l r)
  from DFS_step(1) [OF Node.prems] Node.IH
  obtain q where "p + 1 \<le> q" "s = rightPadBitAddress bits q False" by blast
  then show ?case by (intro exI [of _ q]) simp
qed auto

lemma rightToLeftDFS_pads:
  "rightToLeftDFS t bits p = (True, s) \<Longrightarrow>
   \<exists>q \<ge> p. s = rightPadBitAddress bits q False \<and> (t \<noteq> NilNode \<longrightarrow> p < q)"
proof (induction t arbitrary: p)
  case (Node d l r)
  from DFS_step(2) [OF Node.prems] Node.IH
  obtain q where "p + 1 \<le> q" "s = rightPadBitAddress bits q False" by blast
  then show ?case by (intro exI [of _ q]) simp
qed auto

section \<open>What the search up the seed's path returns\<close>

text \<open>The node of level \<open>p\<close> of the path \<open>s\<close>, from the node at depth \<open>pos\<close> of that path.\<close>

definition level_node :: "'a node \<Rightarrow> bool list \<Rightarrow> nat \<Rightarrow> nat \<Rightarrow> 'a node" where
  "level_node head s pos p = subtree head (drop pos (take p s) @ [\<not> s ! p])"

text \<open>What is suggested for level \<open>p\<close>: the end of an empty level next to the seed, or, when the
  level is in use, an address on the seed's own side of bit \<open>p\<close>.\<close>

definition reports :: "'a node \<Rightarrow> bool list \<Rightarrow> nat \<Rightarrow> address \<Rightarrow> bool" where
  "reports level s p a \<longleftrightarrow>
     (if is_nil level then path a = take p s @ [\<not> s ! p] @ replicate (31 - p) (s ! p)
      else take (p + 1) (path a) = take (p + 1) s)"

lemma level_node_child:
  assumes "pos < p" and "p < length s"
  shows "level_node (Node d l r) s pos p = level_node (if s ! pos then r else l) s (pos + 1) p"
proof -
  have "drop pos (take p s) = s ! pos # drop (pos + 1) (take p s)"
    using assms by (simp add: Cons_nth_drop_Suc [symmetric])
  then show ?thesis by (simp add: level_node_def)
qed

lemma bottomSearch_outcome:
  assumes "tree_ok (Suc m) c" and "Suc m + q = 32"
  shows "\<exists>a. bottomSearch c bits q = Inr (\<not> full m (level_node c (list_of bits) q q), a) \<and>
    (\<not> full m (level_node c (list_of bits) q q) \<longrightarrow>
       reports (level_node c (list_of bits) q q) (list_of bits) q a)"
proof -
  let ?s = "list_of bits"
  obtain l r where c: "c = Node None l r" and ok: "l = NilNode \<or> tree_ok m l" "r = NilNode \<or> tree_ok m r"
    "\<not> (is_nil l \<and> is_nil r)"
    using assms by (cases c) (auto simp: is_nil_def)
  have q: "q < 32" using assms by simp
  have near: "take (q + 1) (path (bitToByte (rightPadBitAddress bits q' False))) = take (q + 1) ?s"
    if "q < q'" for q'
    using that q by (simp add: path_def list_of_rightPad)
  have pad: "path (bitToByte (rightPadBitAddress (arr_set bits q b) (q + 1) (\<not> b)))
      = take q ?s @ [b] @ replicate (31 - q) (\<not> b)" for b
    using q by (simp add: path_def list_of_rightPad take_Suc_conv_app_nth)
  show ?thesis
  proof (cases "?s ! q")
    case True
    have lvl: "level_node c ?s q q = l"
      using q True by (simp add: level_node_def c)
    show ?thesis
    proof (cases "l = NilNode")
      case True
      then show ?thesis
        using \<open>?s ! q\<close> q ok pad [of False] unfolding lvl by (auto simp: c reports_def)
    next
      case False
      then obtain f s' where dfs: "rightToLeftDFS l bits q = (f, s')" "f \<longleftrightarrow> \<not> full m l"
        using DFS_found_iff [of l m bits q] ok by (metis prod.collapse)
      then have "f \<longrightarrow> reports l ?s q (bitToByte s')"
        using rightToLeftDFS_pads [of l bits q s'] False near by (auto simp: reports_def is_nil_def)
      then show ?thesis
        using \<open>?s ! q\<close> q False dfs unfolding lvl by (auto simp: c is_nil_def)
    qed
  next
    case right: False
    have lvl: "level_node c ?s q q = r"
      using q right by (simp add: level_node_def c)
    show ?thesis
    proof (cases "r = NilNode")
      case True
      then show ?thesis
        using right q ok pad [of True] unfolding lvl by (auto simp: c reports_def)
    next
      case False
      then obtain f s' where dfs: "leftToRightDFS r bits q = (f, s')" "f \<longleftrightarrow> \<not> full m r"
        using DFS_found_iff [of r m bits q] ok by (metis prod.collapse)
      then have "f \<longrightarrow> reports r ?s q (bitToByte s')"
        using leftToRightDFS_pads [of r bits q s'] False near by (auto simp: reports_def is_nil_def)
      then show ?thesis
        using right q False dfs unfolding lvl by (auto simp: c is_nil_def)
    qed
  qed
qed

definition deepest_level :: "'a node \<Rightarrow> bool list \<Rightarrow> nat \<Rightarrow> nat \<Rightarrow> bool" where
  "deepest_level head s pos p \<longleftrightarrow> pos < p \<and> p < 32 \<and> \<not> full (31 - p) (level_node head s pos p) \<and>
     (\<forall>p'. p < p' \<longrightarrow> p' < 32 \<longrightarrow> full (31 - p') (level_node head s pos p'))"

definition search_outcome :: "'a node \<Rightarrow> bool list \<Rightarrow> nat \<Rightarrow> bool \<times> address \<Rightarrow> bool" where
  "search_outcome head s pos res \<longleftrightarrow>
     (if fst res then \<exists>p. deepest_level head s pos p \<and> reports (level_node head s pos p) s p (snd res)
      else \<forall>p. pos < p \<longrightarrow> p < 32 \<longrightarrow> full (31 - p) (level_node head s pos p))"

lemma closestFreeAddress_outcome:
  assumes "tree_ok n head" and "n + pos = 32" and "tree_map head (drop pos (list_of bits)) \<noteq> None"
  shows "\<exists>res. closestFreeAddress head bits pos = Inr res \<and> search_outcome head (list_of bits) pos res"
  using assms
proof (induction n arbitrary: head pos)
  case 0
  then obtain d where head: "head = Node d NilNode NilNode" by (cases head) auto
  then show ?case using 0 by (auto simp: search_outcome_def)
next
  case (Suc n)
  let ?s = "list_of bits"
  obtain l r where head: "head = Node None l r" and ok: "\<not> (is_nil l \<and> is_nil r)"
    and sub: "l = NilNode \<or> tree_ok n l" "r = NilNode \<or> tree_ok n r"
    using Suc.prems by (cases head) (auto simp: is_nil_def)
  define c where "c = (if ?s ! pos then r else l)"
  have pos: "pos < 32" using Suc.prems by simp
  have "drop pos ?s = ?s ! pos # drop (pos + 1) ?s"
    using pos by (simp add: Cons_nth_drop_Suc)
  then have reach: "tree_map c (drop (pos + 1) ?s) \<noteq> None"
    using Suc.prems by (simp add: head c_def)
  then have c: "tree_ok n c"
    using sub by (auto simp: c_def split: if_splits)
  obtain res where res: "closestFreeAddress c bits (pos + 1) = Inr res"
      "search_outcome c ?s (pos + 1) res"
    using Suc.IH [OF c _ reach] Suc.prems by auto
  have lvl: "level_node head ?s pos p = level_node c ?s (pos + 1) p" if "pos < p" "p < 32" for p
    using level_node_child [of pos p ?s None l r] that by (simp add: head c_def)
  have step: "closestFreeAddress head bits pos = (if fst res then Inr res else
      bind_res (bottomSearch c bits (pos + 1)) (\<lambda>(f, a). if f then Inr (f, a) else Inr (False, 0)))"
    using ok pos res by (cases res) (auto simp: head c_def index_def)
  show ?case
  proof (cases "fst res")
    case True
    then obtain p where p: "deepest_level c ?s (pos + 1) p" "reports (level_node c ?s (pos + 1) p) ?s p (snd res)"
      using res by (auto simp: search_outcome_def)
    then have deepest: "deepest_level head ?s pos p"
      using lvl by (auto simp: deepest_level_def)
    moreover have "reports (level_node head ?s pos p) ?s p (snd res)"
      using p(2) lvl [of p] deepest by (simp add: deepest_level_def)
    ultimately show ?thesis
      using True step by (auto simp: search_outcome_def)
  next
    case False
    then have deep: "full (31 - p) (level_node head ?s pos p)" if "pos + 1 < p" "p < 32" for p
      using res lvl that by (auto simp: search_outcome_def)
    show ?thesis
    proof (cases n)
      case 0
      then have "bottomSearch c bits (pos + 1) = Inr (False, 0)"
        using c by (cases c) auto
      then show ?thesis
        using False step deep 0 Suc.prems by (auto simp: search_outcome_def)
    next
      case (Suc m)
      then have m: "31 - (pos + 1) = m" "pos + 1 < 32" using Suc.prems by simp_all
      obtain a where bs: "bottomSearch c bits (pos + 1) = Inr (\<not> full m (level_node c ?s (pos + 1) (pos + 1)), a)"
        "\<not> full m (level_node c ?s (pos + 1) (pos + 1)) \<longrightarrow>
           reports (level_node c ?s (pos + 1) (pos + 1)) ?s (pos + 1) a"
        using bottomSearch_outcome [of m c "pos + 1" bits] c Suc Suc.prems by auto
      have here: "level_node c ?s (pos + 1) (pos + 1) = level_node head ?s pos (pos + 1)"
        using lvl m by simp
      note bs = bs [unfolded here]
      show ?thesis
      proof (cases "full m (level_node head ?s pos (pos + 1))")
        case True
        have "full (31 - p) (level_node head ?s pos p)" if "pos < p" "p < 32" for p
        proof (cases "p = pos + 1")
          case False
          then show ?thesis using deep that by simp
        next
          case True
          then have "31 - p = m" using m by simp
          with True \<open>full m (level_node head ?s pos (pos + 1))\<close> show ?thesis by simp
        qed
        then have "search_outcome head ?s pos (False, 0)"
          by (simp add: search_outcome_def)
        moreover have "closestFreeAddress head bits pos = Inr (False, 0)"
          using False step bs(1) True by simp
        ultimately show ?thesis by blast
      next
        case notfull: False
        then have "deepest_level head ?s pos (pos + 1)"
          using m deep by (auto simp: deepest_level_def)
        moreover have "reports (level_node head ?s pos (pos + 1)) ?s (pos + 1) a"
          using bs(2) notfull by simp
        ultimately have "search_outcome head ?s pos (True, a)"
          by (auto simp: search_outcome_def)
        moreover have "closestFreeAddress head bits pos = Inr (True, a)"
          using False step bs(1) notfull by simp
        ultimately show ?thesis by blast
      qed
    qed
  qed
qed

section \<open>Levels of an address, in terms of the registered addresses\<close>

definition splits_at :: "nat \<Rightarrow> address \<Rightarrow> address \<Rightarrow> bool" where
  "splits_at p a b \<longleftrightarrow> take p (path a) = take p (path b) \<and> path a ! p \<noteq> path b ! p"

definition level_has_free :: "DB \<Rightarrow> address \<Rightarrow> nat \<Rightarrow> bool" where
  "level_has_free db seed p \<longleftrightarrow> (\<exists>b. splits_at p seed b \<and> \<not> registered db b)"

definition level_in_use :: "DB \<Rightarrow> address \<Rightarrow> nat \<Rightarrow> bool" where
  "level_in_use db seed p \<longleftrightarrow> (\<exists>b. splits_at p seed b \<and> registered db b)"

text \<open>The first bit is never varied: levels start at 1.\<close>

definition nearest_free_level :: "DB \<Rightarrow> address \<Rightarrow> nat \<Rightarrow> bool" where
  "nearest_free_level db seed p \<longleftrightarrow> 0 < p \<and> p < 32 \<and> level_has_free db seed p \<and>
     (\<forall>p'. p < p' \<longrightarrow> p' < 32 \<longrightarrow> \<not> level_has_free db seed p')"

lemma splits_at_iff:
  assumes "p < 32"
  shows "splits_at p a b \<longleftrightarrow> (\<exists>v. length v = 31 - p \<and> path b = take p (path a) @ [\<not> path a ! p] @ v)"
proof
  assume split: "splits_at p a b"
  have "path b = take p (path b) @ path b ! p # drop (Suc p) (path b)"
    using assms by (intro id_take_nth_drop) simp
  moreover have "take p (path b) = take p (path a)" "path b ! p = (\<not> path a ! p)"
    using split by (auto simp: splits_at_def)
  ultimately have "path b = take p (path a) @ [\<not> path a ! p] @ drop (p + 1) (path b)"
    by simp
  moreover have "length (drop (p + 1) (path b)) = 31 - p" by simp
  ultimately show "\<exists>v. length v = 31 - p \<and> path b = take p (path a) @ [\<not> path a ! p] @ v"
    by blast
next
  assume "\<exists>v. length v = 31 - p \<and> path b = take p (path a) @ [\<not> path a ! p] @ v"
  then show "splits_at p a b"
    using assms by (auto simp: splits_at_def nth_append)
qed

lemma tree_map_subtree: "tree_map (subtree t w) v = tree_map t (w @ v)"
  by (simp add: tree_map_def subtree_append)

lemma level_node_db:
  "level_node (db_addressTreeHead db) (path seed) 0 p =
   subtree (db_addressTreeHead db) (take p (path seed) @ [\<not> path seed ! p])"
  by (simp add: level_node_def)

lemma level_node_ok:
  assumes "tree_ok 32 (db_addressTreeHead db)" and "p < 32"
  shows "level_node (db_addressTreeHead db) (path seed) 0 p = NilNode \<or>
    tree_ok (31 - p) (level_node (db_addressTreeHead db) (path seed) 0 p)"
  unfolding level_node_db using assms by (intro tree_ok_subtree) simp

lemma ex_splits_iff:
  assumes "p < 32"
  shows "(\<exists>b. splits_at p seed b \<and> P (addr_map db b)) \<longleftrightarrow>
    (\<exists>v. length v = 31 - p \<and> P (tree_map (level_node (db_addressTreeHead db) (path seed) 0 p) v))"
    (is "?addr \<longleftrightarrow> ?tree")
proof
  assume ?addr
  then show ?tree
    using splits_at_iff [OF assms] by (auto simp: addr_map_def level_node_db tree_map_subtree)
next
  assume ?tree
  then obtain v where v: "length v = 31 - p"
    "P (tree_map (level_node (db_addressTreeHead db) (path seed) 0 p) v)" by blast
  then have "length (take p (path seed) @ [\<not> path seed ! p] @ v) = 32"
    using assms by simp
  then obtain b where b: "take p (path seed) @ [\<not> path seed ! p] @ v = path b"
    using path_surj by blast
  then have "splits_at p seed b"
    using splits_at_iff [OF assms] v by metis
  moreover have "P (addr_map db b)"
    using v(2) by (simp add: addr_map_def level_node_db tree_map_subtree flip: b)
  ultimately show ?addr by blast
qed

lemma full_level_iff:
  assumes "tree_ok 32 (db_addressTreeHead db)" and "p < 32"
  shows "full (31 - p) (level_node (db_addressTreeHead db) (path seed) 0 p) \<longleftrightarrow>
    \<not> level_has_free db seed p"
  using full_iff [OF level_node_ok [OF assms]] ex_splits_iff [OF assms(2), of seed "\<lambda>x. x = None" db]
  by (auto simp: level_has_free_def registered_def)

lemma tree_ok_inhabited: "tree_ok n t \<Longrightarrow> \<exists>v. length v = n \<and> tree_map t v \<noteq> None"
proof (induction n t rule: tree_ok.induct)
  case (3 n d l r)
  then consider "l \<noteq> NilNode" "tree_ok n l" | "r \<noteq> NilNode" "tree_ok n r" by auto
  then show ?case
  proof cases
    case 1
    then obtain v where "length v = n" "tree_map l v \<noteq> None" using 3 by blast
    then show ?thesis by (intro exI [of _ "False # v"]) simp
  next
    case 2
    then obtain v where "length v = n" "tree_map r v \<noteq> None" using 3 by blast
    then show ?thesis by (intro exI [of _ "True # v"]) simp
  qed
qed auto

lemma nil_level_iff:
  assumes "tree_ok 32 (db_addressTreeHead db)" and "p < 32"
  shows "is_nil (level_node (db_addressTreeHead db) (path seed) 0 p) \<longleftrightarrow> \<not> level_in_use db seed p"
  using level_node_ok [OF assms, of seed] tree_ok_inhabited
    ex_splits_iff [OF assms(2), of seed "\<lambda>x. x \<noteq> None" db]
  by (fastforce simp: level_in_use_def registered_def is_nil_def)

text \<open>Two different addresses split at some bit.\<close>

lemma splits_somewhere:
  assumes "take q (path a) = take q (path b)" and "a \<noteq> b" and "q \<le> 32"
  shows "\<exists>p. q \<le> p \<and> p < 32 \<and> splits_at p a b"
proof -
  have ex: "\<exists>i. i < 32 \<and> path a ! i \<noteq> path b ! i"
    using assms(2) nth_equalityI [of "path a" "path b"] by auto
  define p where "p = (LEAST i. i < 32 \<and> path a ! i \<noteq> path b ! i)"
  have p: "p < 32" "path a ! p \<noteq> path b ! p"
    using LeastI_ex [OF ex] by (simp_all add: p_def)
  have least: "path a ! i = path b ! i" if "i < p" for i
    using not_less_Least [of i "\<lambda>i. i < 32 \<and> path a ! i \<noteq> path b ! i"] that p(1)
    by (simp add: p_def)
  have "take p (path a) = take p (path b)"
    using least p(1) by (intro nth_take_lemma) simp_all
  moreover have "q \<le> p"
  proof (rule ccontr)
    assume "\<not> q \<le> p"
    then have "path a ! p = path b ! p" using assms(1) by (metis not_le nth_take)
    with p show False by simp
  qed
  ultimately show ?thesis using p by (auto simp: splits_at_def)
qed

section \<open>The suggestion, in terms of the registered addresses\<close>

lemma deepest_level_iff:
  assumes "tree_ok 32 (db_addressTreeHead db)"
  shows "deepest_level (db_addressTreeHead db) (path seed) 0 p \<longleftrightarrow> nearest_free_level db seed p"
  using full_level_iff [OF assms] by (auto simp: deepest_level_def nearest_free_level_def)

lemma SuggestAddress_cases:
  assumes "db_ok db" and "registered db seed"
  obtains (suggested) p a where "SuggestAddress db seed = Inr (Inr a)" "nearest_free_level db seed p"
      "if level_in_use db seed p then take (p + 1) (path a) = take (p + 1) (path seed)
       else path a = take p (path seed) @ [\<not> path seed ! p] @ replicate (31 - p) (path seed ! p)"
    | (exhausted) e where "SuggestAddress db seed = Inr (Inl e)"
      "\<And>p. 0 < p \<Longrightarrow> p < 32 \<Longrightarrow> \<not> level_has_free db seed p"
proof -
  let ?t = "db_addressTreeHead db"
  have t: "tree_ok 32 ?t"
    using assms by (simp add: tree_ok_of_registered db_ok_root registered_def)
  obtain f a where res: "closestFreeAddress ?t (byteToBit seed) 0 = Inr (f, a)"
      "search_outcome ?t (path seed) 0 (f, a)"
    using closestFreeAddress_outcome [OF t, of 0 "byteToBit seed"] assms(2)
    by (auto simp: path_def registered_def addr_map_def)
  show ?thesis
  proof (cases f)
    case True
    then obtain p where p: "deepest_level ?t (path seed) 0 p" "reports (level_node ?t (path seed) 0 p) (path seed) p a"
      using res(2) by (auto simp: search_outcome_def)
    then have "p < 32" by (simp add: deepest_level_def)
    show ?thesis
      by (rule suggested [of a p])
        (use True res(1) p deepest_level_iff [OF t] nil_level_iff [OF t \<open>p < 32\<close>] in
          \<open>simp_all add: SuggestAddress_def reports_def split: if_splits\<close>)
  next
    case False
    then have "\<not> level_has_free db seed p" if "0 < p" "p < 32" for p
      using res(2) full_level_iff [OF t] that by (auto simp: search_outcome_def)
    with False res(1) show ?thesis
      by (intro exhausted [of "''Can't suggest address for '' @ ip_string seed"])
        (simp_all add: SuggestAddress_def)
  qed
qed

lemma nearest_free_level_unique:
  "nearest_free_level db seed p \<Longrightarrow> nearest_free_level db seed q \<Longrightarrow> p = q"
  unfolding nearest_free_level_def by (metis nat_neq_iff)

lemma registered_below_nearest:
  assumes "registered db seed" and "nearest_free_level db seed p"
    and "take (p + 1) (path a) = take (p + 1) (path seed)"
  shows "registered db a"
proof (cases "a = seed")
  case False
  then obtain q where "p + 1 \<le> q" "q < 32" "splits_at q seed a"
    using splits_somewhere [of "p + 1" seed a] assms by (auto simp: nearest_free_level_def)
  then have "p < q" "\<not> level_has_free db seed q"
    using assms(2) by (simp_all add: nearest_free_level_def)
  with \<open>splits_at q seed a\<close> show ?thesis
    by (auto simp: level_has_free_def)
qed (use assms in simp)

lemma same_first_bit_iff:
  "(\<forall>b. take 1 (path b) = take 1 (path seed) \<longrightarrow> registered db b) \<longleftrightarrow>
   registered db seed \<and> (\<forall>p. 0 < p \<longrightarrow> p < 32 \<longrightarrow> \<not> level_has_free db seed p)"
proof -
  have same: "take 1 (path b) = take 1 (path seed)" if "splits_at p seed b" "0 < p" for p b
  proof -
    have "take 1 (take p (path seed)) = take 1 (take p (path b))"
      using that by (simp add: splits_at_def)
    then show ?thesis
      using that(2) by (simp add: min_def Suc_le_eq)
  qed
  have other: "registered db b" if reg: "registered db seed"
      and full: "\<And>p. 0 < p \<Longrightarrow> p < 32 \<Longrightarrow> \<not> level_has_free db seed p"
      and bit: "take 1 (path b) = take 1 (path seed)" for b
  proof (cases "b = seed")
    case False
    then obtain q where "1 \<le> q" "q < 32" "splits_at q seed b"
      using splits_somewhere [of 1 seed b] bit by auto
    then show ?thesis
      using full [of q] by (auto simp: level_has_free_def)
  qed (use reg in simp)
  show ?thesis (is "?same \<longleftrightarrow> ?levels")
  proof
    assume ?same
    then show ?levels
      using same by (auto simp: level_has_free_def)
  next
    assume ?levels
    then show ?same
      using other by blast
  qed
qed

section \<open>Properties\<close>

text \<open>
  C19: the search ends without a fault. For a registered seed \<open>SuggestAddress\<close> returns a value; it is
  the error exactly when every address that shares the seed's first bit is registered, even
  if the other half of the address space is empty.
\<close>

theorem SuggestAddress_returns:
  assumes "db_ok db" and "registered db seed"
  shows "(\<exists>r. SuggestAddress db seed = Inr r) \<and>
    ((\<exists>e. SuggestAddress db seed = Inr (Inl e)) \<longleftrightarrow>
     (\<forall>b. take 1 (path b) = take 1 (path seed) \<longrightarrow> registered db b))"
  using assms
proof (cases rule: SuggestAddress_cases)
  case (suggested p a)
  then have "\<not> (\<forall>p. 0 < p \<longrightarrow> p < 32 \<longrightarrow> \<not> level_has_free db seed p)"
    by (auto simp: nearest_free_level_def)
  with suggested show ?thesis unfolding same_first_bit_iff by simp
next
  case (exhausted e)
  with assms show ?thesis unfolding same_first_bit_iff by simp
qed

text \<open>
  C20: when the suggestion is usable. Let \<open>p\<close> be the deepest level of the seed with a free address.
  The suggested address is already registered exactly when level \<open>p\<close> holds a registered address:
  the depth-first searches then return the seed's own side. Otherwise it is the free address of
  level \<open>p\<close> next to the seed, and no free address shares a longer prefix with the seed.
\<close>

theorem SuggestAddress_taken_iff_level_in_use:
  assumes "db_ok db" and "registered db seed" and "SuggestAddress db seed = Inr (Inr a)"
  shows "\<exists>p. nearest_free_level db seed p \<and>
    (registered db a \<longleftrightarrow> level_in_use db seed p) \<and>
    (\<not> level_in_use db seed p \<longrightarrow>
       path a = take p (path seed) @ [\<not> path seed ! p] @ replicate (31 - p) (path seed ! p)) \<and>
    (\<forall>b. \<not> registered db b \<longrightarrow> take (p + 1) (path b) \<noteq> take (p + 1) (path seed))"
  using assms(1,2)
proof (cases rule: SuggestAddress_cases)
  case (suggested p a')
  then have eq: "a' = a" using assms by simp
  have below: "registered db b" if "take (p + 1) (path b) = take (p + 1) (path seed)" for b
    using registered_below_nearest assms(2) suggested(2) that by blast
  have "registered db a \<longleftrightarrow> level_in_use db seed p"
  proof (cases "level_in_use db seed p")
    case True
    then show ?thesis using suggested eq below by simp
  next
    case False
    then have a: "path a = take p (path seed) @ [\<not> path seed ! p] @ replicate (31 - p) (path seed ! p)"
      using suggested eq by simp
    have "p < 32" using suggested(2) by (simp add: nearest_free_level_def)
    then have "splits_at p seed a"
      using splits_at_iff [of p seed a] a by fastforce
    then show ?thesis
      using False by (auto simp: level_in_use_def)
  qed
  then show ?thesis
    using suggested eq below by (intro exI [of _ p]) auto
next
  case (exhausted e)
  then show ?thesis using assms(3) by simp
qed

section \<open>Small databases\<close>

definition example_address :: "u8 \<Rightarrow> address" where
  "example_address k = arr_copy 0 [0, 0, 0, k]"

definition example_db :: "u8 list \<Rightarrow> DB res" where
  "example_db ks =
     fold_res addAddressToDB (map (\<lambda>k. example_info [0, 0, 0, k] [2, k]) ks) (createDB ''data'')"

lemma example_db_ok:
  "\<exists>db. example_db ks = Inr db \<and> db_ok db \<and> (\<forall>k \<in> set ks. registered db (example_address k))"
proof -
  let ?infos = "map (\<lambda>k. example_info [0, 0, 0, k] [2, k]) ks"
  have empty: "db_ok (createDB ''data'') \<and> db_routingEntriesStack (createDB ''data'') = []"
    by (rule conjI, rule db_ok_createDB, simp add: createDB_def createRoutingStack_def)
  have fresh: "\<forall>v \<in> set ?infos. ai_routingEntry v = None"
    by (simp add: example_info_def)
  obtain db where db: "example_db ks = Inr db" "db_ok db"
    "addr_map db = addr_map (createDB ''data'') ++ map_of (map (\<lambda>i. (ai_address i, i)) (rev ?infos))"
    using registry.load_all [OF empty fresh] by (auto simp only: example_db_def)
  have "registered db (example_address k)" if "k \<in> set ks" for k
  proof -
    have "example_address k \<in> fst ` set (map (\<lambda>i. (ai_address i, i)) (rev ?infos))"
      using that by (auto simp: example_address_def example_info_def image_image)
    then show ?thesis
      using db(3) by (auto simp: registered_def map_add_None map_of_eq_None_iff)
  qed
  with db show ?thesis by blast
qed

text \<open>The three cases of \<open>TestSuggestAddress\<close> in \<open>ldrlib/db_test.go\<close>.\<close>

lemma TestSuggestAddress:
  "bind_res (example_db [1, 2]) (\<lambda>db. SuggestAddress db (example_address 1)) = Inr (Inr (example_address 0))"
  "bind_res (example_db [1, 2]) (\<lambda>db. SuggestAddress db (example_address 2)) = Inr (Inr (example_address 3))"
  "bind_res (example_db [2, 3]) (\<lambda>db. SuggestAddress db (example_address 2)) = Inr (Inr (example_address 1))"
  by code_simp+

lemma example_taken:
  "bind_res (example_db [0, 2, 3]) (\<lambda>db. SuggestAddress db (example_address 2)) = Inr (Inr (example_address 2))"
  by code_simp

text \<open>
  With 0.0.0.0, 0.0.0.2 and 0.0.0.3 registered, the address suggested to a neighbour of
  0.0.0.2 is 0.0.0.2 itself, although 0.0.0.1 is free.
\<close>

lemma SuggestAddress_suggests_registered:
  "bind_res (example_db [0, 2, 3]) (\<lambda>db. bind_res (SuggestAddress db (example_address 2))
     (\<lambda>suggestion. bind_res (IsAddressRegistered db (example_address 2))
       (\<lambda>two. bind_res (IsAddressRegistered db (example_address 1)) (\<lambda>one. Inr (suggestion, two, one)))))
   = Inr (Inr (example_address 2), True, False)"
  by code_simp

theorem SuggestAddress_returns_witness:
  "\<exists>db. example_db [1, 2] = Inr db \<and> db_ok db \<and> (\<exists>r. SuggestAddress db (example_address 1) = Inr r)"
  using example_db_ok [of "[1, 2]"] SuggestAddress_returns [of _ "example_address 1"]
  by fastforce

theorem SuggestAddress_taken_iff_level_in_use_witness:
  "\<exists>db p. example_db [1, 2] = Inr db \<and> SuggestAddress db (example_address 1) = Inr (Inr (example_address 0))
    \<and> nearest_free_level db (example_address 1) p
    \<and> (registered db (example_address 0) \<longleftrightarrow> level_in_use db (example_address 1) p)"
proof -
  obtain db where db: "example_db [1, 2] = Inr db" "db_ok db" "registered db (example_address 1)"
    using example_db_ok [of "[1, 2]"] by auto
  have "SuggestAddress db (example_address 1) = Inr (Inr (example_address 0))"
    using TestSuggestAddress(1) db(1) by simp
  then show ?thesis
    using SuggestAddress_taken_iff_level_in_use [OF db(2,3)] db(1) by blast
qed

end
