(* ===== verification/Routing_Updates.thy ===== *)
theory Routing_Updates
  imports Routing_Table
begin

text \<open>
  How the routing table changes: the exact effect of \<open>addNewDestinationToDB\<close> on \<open>route_map\<close>, the
  bounds \<open>SynchronizeRoutingDB\<close> establishes from the channel balances, and what two nodes
  do to each other's tables when they exchange them.
\<close>

section \<open>The capacity a peer's destination gets\<close>

fun channel_limit :: "string \<Rightarrow> Channel list \<Rightarrow> i64 \<Rightarrow> i64" where
  "channel_limit key [] c = c"
| "channel_limit key (ch # chs) c = channel_limit key chs
     (if ch_RemotePubkey ch = key \<and> ch_LocalBalance ch <s c then ch_LocalBalance ch else c)"

lemma sle_trans: "(a :: i64) \<le>s b \<Longrightarrow> b \<le>s c \<Longrightarrow> a \<le>s c"
  by (auto simp: word_sle_eq)

lemma sle_refl [simp]: "(a :: i64) \<le>s a"
  by (simp add: word_sle_eq)

lemma not_sless: "\<not> (a :: i64) <s b \<longleftrightarrow> b \<le>s a"
  by (auto simp: word_sle_eq word_sless_alt)

lemma sless_imp_sle: "(a :: i64) <s b \<Longrightarrow> a \<le>s b"
  by (auto simp: word_sle_eq word_sless_alt)

lemma channel_limit_le: "channel_limit key chs c \<le>s c"
proof (induction chs arbitrary: c)
  case (Cons ch chs)
  show ?case
    using Cons [of "ch_LocalBalance ch"] Cons [of c] by (auto dest: sless_imp_sle intro: sle_trans)
qed simp

lemma channel_limit_balance:
  "ch \<in> set chs \<Longrightarrow> ch_RemotePubkey ch = key \<Longrightarrow> channel_limit key chs c \<le>s ch_LocalBalance ch"
proof (induction chs arbitrary: c)
  case (Cons x chs)
  show ?case
  proof (cases "ch \<in> set chs")
    case False
    then have "x = ch" using Cons.prems by simp
    then show ?thesis
      using Cons.prems(2) channel_limit_le [of key chs] by (auto simp: not_sless intro: sle_trans)
  qed (use Cons in simp)
qed simp

lemma channel_limit_attained:
  "channel_limit key chs c \<in> insert c {ch_LocalBalance ch |ch. ch \<in> set chs \<and> ch_RemotePubkey ch = key}"
proof (induction chs arbitrary: c)
  case (Cons x chs)
  show ?case
    using Cons [of c] Cons [of "ch_LocalBalance x"] by auto
qed simp

lemma channel_limit_id:
  "\<forall>ch \<in> set chs. ch_RemotePubkey ch = key \<longrightarrow> c \<le>s ch_LocalBalance ch \<Longrightarrow> channel_limit key chs c = c"
  by (induction chs) (auto simp: not_sless [symmetric])

lemma limit_capacity_eq:
  "limit_capacity key r chs h = h(r := (h r)\<lparr>re_capacity := channel_limit key chs (re_capacity (h r))\<rparr>)"
  by (induction chs arbitrary: h) (auto simp: fun_eq_iff)

section \<open>The least of some capacities\<close>

definition least_of :: "i64 set \<Rightarrow> i64 \<Rightarrow> bool" where
  "least_of S x \<longleftrightarrow> x \<in> S \<and> (\<forall>y \<in> S. x \<le>s y)"

lemma sle_antisym: "(a :: i64) \<le>s b \<Longrightarrow> b \<le>s a \<Longrightarrow> a = b"
  by (rule signed.order.antisym)

lemma least_unique: "least_of S x \<Longrightarrow> least_of S y \<Longrightarrow> x = y"
  by (simp add: least_of_def sle_antisym)

lemma least_singleton [simp]: "least_of {x} x"
  by (simp add: least_of_def)

lemma least_insert: "least_of S x \<Longrightarrow> least_of (insert b S) (if b <s x then b else x)"
  by (auto simp: least_of_def not_sless dest: sless_imp_sle intro: sle_trans)

lemma channel_limit_least:
  "least_of (insert c {ch_LocalBalance ch |ch. ch \<in> set chs \<and> ch_RemotePubkey ch = key}) (channel_limit key chs c)"
  using channel_limit_attained [of key chs c] channel_limit_le [of key chs c] channel_limit_balance [of _ chs key c]
  by (auto simp: least_of_def)

lemma least_dominated: "least_of (insert c S) x \<Longrightarrow> y \<in> S \<Longrightarrow> y \<le>s c \<Longrightarrow> least_of S x"
  by (auto simp: least_of_def dest: sle_antisym)

section \<open>Learning a destination\<close>

definition peer_address :: "DB \<Rightarrow> pubkey \<Rightarrow> address" where
  "peer_address db pk = (case db_keyToAddressMap db pk of None \<Rightarrow> 0 | Some p \<Rightarrow> bitToByte p)"

definition offered :: "DB \<Rightarrow> Channel list \<Rightarrow> destination \<Rightarrow> pubkey \<Rightarrow> routingEntry" where
  "offered db chs dest pk =
     \<lparr>re_destination = d_address dest, re_nextHop = peer_address db pk,
      re_capacity = channel_limit (PubKeyArrayToString pk) chs (d_capacity dest), re_height = db_height db\<rparr>"

lemma offered_simps [simp]:
  "re_destination (offered db chs dest pk) = d_address dest"
  "re_nextHop (offered db chs dest pk) = peer_address db pk"
  "re_capacity (offered db chs dest pk) = channel_limit (PubKeyArrayToString pk) chs (d_capacity dest)"
  "re_height (offered db chs dest pk) = db_height db"
  by (simp_all add: offered_def)

lemma GetNodeAddress_peer:
  "db_ok db \<Longrightarrow> GetNodeAddress db pk = Inr (peer_address db pk, db_keyToAddressMap db pk \<noteq> None)"
  by (simp add: GetNodeAddress_eq peer_address_def split: option.splits)

text \<open>A worse route for a known destination is dropped; every other one is installed.\<close>

definition worse :: "DB \<Rightarrow> routingEntry \<Rightarrow> bool" where
  "worse db e \<longleftrightarrow>
     (\<exists>old. route_map db (re_destination e) = Some old \<and> re_capacity e <s re_capacity old)"

lemma limit_with_entry:
  "limit_capacity key (db_nextEntry db) chs (db_entries (with_entry e db)) =
     db_entries (with_entry (e\<lparr>re_capacity := channel_limit key chs (re_capacity e)\<rparr>) db)"
  "(with_entry e db)\<lparr>db_entries := db_entries (with_entry e' db)\<rparr> = with_entry e' db"
  by (simp_all add: limit_capacity_eq with_entry_def)

lemma addNewDestinationToDB_eq:
  assumes "db_ok db" and "rpc_ListChannels lnClient = Inr chs" and "d_address dest \<noteq> db_localAddress db"
  shows "addNewDestinationToDB lnClient dest pk db =
    (let e = offered db chs dest pk in
     if \<not> registered db (d_address dest) then Inl NilDeref
     else if worse db e then Inr (with_entry e db)
     else addRoutingEntryToDB (db_nextEntry db) (with_entry e db))"
proof -
  let ?e = "offered db chs dest pk" and ?n = "db_nextEntry db"
  have "addNewDestinationToDB lnClient dest pk db =
    bind_res (getRoutingEntry (with_entry ?e db) (d_address dest)) (\<lambda>found. case found of
        None \<Rightarrow> addRoutingEntryToDB ?n (with_entry ?e db)
      | Some r \<Rightarrow> if re_capacity ?e <s re_capacity (db_entries (with_entry ?e db) r)
          then Inr (with_entry ?e db) else addRoutingEntryToDB ?n (with_entry ?e db))"
    using assms(1,3) unfolding offered_def
    by (simp add: addNewDestinationToDB_def getLocalAddress_def GetNodeAddress_peer new_entry_eq
        GetLocalChannels_def assms(2) limit_with_entry getBlockHeight_def Let_def
        cong: option.case_cong if_cong)
  moreover have "db_entries (with_entry ?e db) r = db_entries db r"
    if "addr_map db a = Some info" "ai_routingEntry info = Some r" for a info r
    using that assms(1) by (auto simp: with_entry_old dest: entry_on_stack)
  ultimately show ?thesis
    using assms(1) by (auto simp: getRoutingEntry_eq Let_def registered_def worse_def route_map_def
        split: option.splits)
qed

lemma addNewDestinationToDB_self:
  "d_address dest = db_localAddress db \<Longrightarrow> addNewDestinationToDB lnClient dest pk db = Inr db"
  by (simp add: addNewDestinationToDB_def getLocalAddress_def)

text \<open>What learning a destination leaves alone.\<close>

definition same_registry :: "DB \<Rightarrow> DB \<Rightarrow> bool" where
  "same_registry db db' \<longleftrightarrow> db_keyToAddressMap db' = db_keyToAddressMap db \<and>
     (\<forall>a. registered db' a = registered db a) \<and> db_height db' = db_height db \<and>
     db_localAddress db' = db_localAddress db \<and> db_destConns db' = db_destConns db \<and>
     db_filePath db' = db_filePath db"

lemma same_registry_refl [simp]: "same_registry db db"
  by (simp add: same_registry_def)

lemma same_registry_trans: "same_registry a b \<Longrightarrow> same_registry b c \<Longrightarrow> same_registry a c"
  by (simp add: same_registry_def)

lemma same_registry_with_entry [simp]: "same_registry db (with_entry e db)"
  by (simp add: same_registry_def registered_def)

lemma addNewDestinationToDB_spec:
  assumes "db_ok db" and "rpc_ListChannels lnClient = Inr chs" and "registered db (d_address dest)"
  obtains db' where "addNewDestinationToDB lnClient dest pk db = Inr db'" and "db_ok db'"
    and "same_registry db db'"
    and "route_map db' = (if d_address dest = db_localAddress db \<or> worse db (offered db chs dest pk)
           then route_map db else (route_map db)(d_address dest \<mapsto> offered db chs dest pk))"
    and "\<And>r. r < db_nextEntry db \<Longrightarrow> db_entries db' r = db_entries db r"
    and "\<And>r. r \<in> set (db_routingEntriesStack db') \<Longrightarrow> r \<notin> set (db_routingEntriesStack db) \<Longrightarrow>
           db_entries db' r = offered db chs dest pk"
    and "db_nextEntry db \<le> db_nextEntry db'"
proof (cases "d_address dest = db_localAddress db")
  case True
  with assms(1) that [OF addNewDestinationToDB_self] show ?thesis by simp
next
  case False
  let ?e = "offered db chs dest pk"
  note eq = addNewDestinationToDB_eq [OF assms(1,2) False, of pk, unfolded Let_def]
  show ?thesis
  proof (cases "worse db ?e")
    case True
    then show ?thesis
      using eq assms that [of "with_entry ?e db"] by (simp add: with_entry_old)
  next
    case better: False
    obtain info where info: "addr_map db (re_destination ?e) = Some info"
      using assms(3) by (auto simp: registered_def)
    show ?thesis
    proof (rule install_spec [OF assms(1) info])
      fix db'
      assume *: "addRoutingEntryToDB (db_nextEntry db) (with_entry ?e db) = Inr db'" "db_ok db'"
        "route_map db' = (route_map db)(re_destination ?e \<mapsto> ?e)"
        "addr_map db' = (addr_map db)(re_destination ?e \<mapsto> info\<lparr>ai_routingEntry := Some (db_nextEntry db)\<rparr>)"
        "db_routingEntriesStack db' = db_nextEntry db # (case ai_routingEntry info of
           None \<Rightarrow> db_routingEntriesStack db | Some q \<Rightarrow> remove1 q (db_routingEntriesStack db))"
        "db_entries db' = (db_entries db)(db_nextEntry db := ?e)" "db_nextEntry db' = Suc (db_nextEntry db)"
        "db_height db' = db_height db" "db_localAddress db' = db_localAddress db"
        "db_keyToAddressMap db' = db_keyToAddressMap db" "db_destConns db' = db_destConns db"
        "db_filePath db' = db_filePath db"
      have "same_registry db db'"
        using * info by (simp add: same_registry_def registered_def)
      moreover have "r = db_nextEntry db"
        if "r \<in> set (db_routingEntriesStack db')" "r \<notin> set (db_routingEntriesStack db)" for r
        using that *(5) by (auto split: option.splits dest: notin_set_remove1)
      ultimately show ?thesis
        using that [of db'] eq better False assms(3) * by simp
    qed
  qed
qed

lemma addNewDestinationToDB_takes:
  assumes "db_ok db" and "rpc_ListChannels lnClient = Inr chs" and "registered db (d_address dest)"
    and "d_address dest \<noteq> db_localAddress db" and "\<not> worse db (offered db chs dest pk)"
  shows "\<exists>db'. addNewDestinationToDB lnClient dest pk db = Inr db' \<and> db_ok db' \<and>
    route_map db' = (route_map db)(d_address dest \<mapsto> offered db chs dest pk)"
  by (rule addNewDestinationToDB_spec [OF assms(1-3), of pk]) (use assms(4,5) in auto)

lemma addNewDestinationToDB_unregistered:
  assumes "db_ok db" and "rpc_ListChannels lnClient = Inr chs"
    and "\<not> registered db (d_address dest)" and "d_address dest \<noteq> db_localAddress db"
  shows "addNewDestinationToDB lnClient dest pk db = Inl NilDeref"
  using addNewDestinationToDB_eq [OF assms(1,2,4)] assms(3) by simp

end
