(* ===== verification/Routing_Sync.thy ===== *)
theory Routing_Sync
  imports Routing_Updates
begin

text \<open>
  What a round of \<open>SynchronizeRoutingDB\<close> does to the whole table, the properties of learning
  and of the exchange of destinations between two nodes.
\<close>

section \<open>Capping entries in place\<close>

lemma cap_entries_eq:
  "cap_entries n b rs h r =
     (if r \<in> set rs \<and> re_nextHop (h r) = n \<and> b <s re_capacity (h r) then (h r)\<lparr>re_capacity := b\<rparr> else h r)"
proof (induction rs arbitrary: h)
  case (Cons q rs)
  have "\<not> b <s b"
    by (simp add: word_sless_alt)
  then show ?case
    by (auto simp: Cons.IH)
qed simp

lemma cap_entries_fields [simp]:
  "re_destination (cap_entries n b rs h r) = re_destination (h r)"
  "re_nextHop (cap_entries n b rs h r) = re_nextHop (h r)"
  "re_height (cap_entries n b rs h r) = re_height (h r)"
  by (simp_all add: cap_entries_eq)

lemma cap_entries_le: "re_capacity (cap_entries n b rs h r) \<le>s re_capacity (h r)"
  by (auto simp: cap_entries_eq dest: sless_imp_sle)

lemma cap_entries_capped:
  "r \<in> set rs \<Longrightarrow> re_nextHop (h r) = n \<Longrightarrow> re_capacity (cap_entries n b rs h r) \<le>s b"
  by (auto simp: cap_entries_eq not_sless)

definition capped_db :: "address \<Rightarrow> i64 \<Rightarrow> entry_ref list \<Rightarrow> DB \<Rightarrow> DB" where
  "capped_db n b rs db = db\<lparr>db_entries := cap_entries n b rs (db_entries db)\<rparr>"

lemma capped_db_frame [simp]:
  "addr_map (capped_db n b rs db) = addr_map db"
  "db_routingEntriesStack (capped_db n b rs db) = db_routingEntriesStack db"
  "db_keyToAddressMap (capped_db n b rs db) = db_keyToAddressMap db"
  "db_nextEntry (capped_db n b rs db) = db_nextEntry db"
  "db_localAddress (capped_db n b rs db) = db_localAddress db"
  "db_entries (capped_db n b rs db) = cap_entries n b rs (db_entries db)"
  "registered (capped_db n b rs db) a = registered db a"
  "same_registry db (capped_db n b rs db)"
  by (simp_all add: capped_db_def same_registry_def registered_def)

lemma db_ok_capped [simp]: "db_ok db \<Longrightarrow> db_ok (capped_db n b rs db)"
  using db_ok_entries [of db "db_nextEntry db" "cap_entries n b rs (db_entries db)"]
  by (simp add: capped_db_def)

section \<open>One channel of a round\<close>

definition canonical :: "Channel list \<Rightarrow> bool" where
  "canonical chs \<longleftrightarrow> (\<forall>ch \<in> set chs. ch_RemotePubkey ch \<in> range PubKeyArrayToString)"

definition one_key_per_address :: "DB \<Rightarrow> bool" where
  "one_key_per_address db \<longleftrightarrow>
     (\<forall>pk pk' p. db_keyToAddressMap db pk = Some p \<longrightarrow> db_keyToAddressMap db pk' = Some p \<longrightarrow> pk = pk')"

text \<open>The entry goes through the peer of this channel only with at most the channel's balance.\<close>

definition limits :: "DB \<Rightarrow> Channel \<Rightarrow> routingEntry \<Rightarrow> bool" where
  "limits db ch e \<longleftrightarrow> (\<forall>pk p. ch_RemotePubkey ch = PubKeyArrayToString pk \<longrightarrow>
     db_keyToAddressMap db pk = Some p \<longrightarrow> re_nextHop e = bitToByte p \<longrightarrow>
     re_capacity e \<le>s ch_LocalBalance ch)"

lemma limits_lower:
  "limits db ch e \<Longrightarrow> re_nextHop e' = re_nextHop e \<Longrightarrow> re_capacity e' \<le>s re_capacity e \<Longrightarrow> limits db ch e'"
  by (auto simp: limits_def intro: sle_trans)

lemma limits_same_registry: "same_registry db db' \<Longrightarrow> limits db' = limits db"
  by (simp add: same_registry_def limits_def fun_eq_iff)

lemma limits_offered:
  assumes "one_key_per_address db" and "db_keyToAddressMap db pk \<noteq> None" and "ch \<in> set chs"
  shows "limits db ch (offered db chs dest pk)"
  using assms channel_limit_balance [OF assms(3)]
  by (auto simp: limits_def peer_address_def one_key_per_address_def split: option.splits)

lemma sync_channel_eq:
  assumes "db_ok db" and "ch_RemotePubkey ch = PubKeyArrayToString pk"
  shows "sync_channel lnClient rs ch db =
    (case db_keyToAddressMap db pk of None \<Rightarrow> Inr db
     | Some p \<Rightarrow> addNewDestinationToDB lnClient
         \<lparr>d_address = bitToByte p, d_capacity = ch_LocalBalance ch\<rparr> pk
         (capped_db (bitToByte p) (ch_LocalBalance ch) rs db))"
  using assms
  by (simp add: sync_channel_def GetNodeAddress_peer peer_address_def capped_db_def split: option.splits)

text \<open>
  The invariant of a round over the channels \<open>chs\<close>, with the snapshot \<open>rs\<close> of the stack taken at its
  start and the channels \<open>seen\<close> already handled.
\<close>

definition covers :: "DB \<Rightarrow> Channel \<Rightarrow> DB \<Rightarrow> bool" where
  "covers db0 ch db \<longleftrightarrow> (\<forall>pk p. ch_RemotePubkey ch = PubKeyArrayToString pk \<longrightarrow>
     db_keyToAddressMap db0 pk = Some p \<longrightarrow> bitToByte p \<noteq> db_localAddress db0 \<longrightarrow>
     route_map db (bitToByte p) \<noteq> None)"

lemma covers_mono:
  "covers db0 ch db \<Longrightarrow> (\<And>a. route_map db a \<noteq> None \<Longrightarrow> route_map db' a \<noteq> None) \<Longrightarrow> covers db0 ch db'"
  unfolding covers_def by blast

definition round_inv :: "DB \<Rightarrow> Channel list \<Rightarrow> entry_ref list \<Rightarrow> Channel set \<Rightarrow> DB \<Rightarrow> bool" where
  "round_inv db0 chs rs seen db \<longleftrightarrow> seen \<subseteq> set chs \<and> db_ok db \<and> same_registry db0 db \<and>
     (\<forall>r \<in> set (db_routingEntriesStack db).
        (\<forall>ch \<in> seen. limits db0 ch (db_entries db r)) \<and>
        (r \<notin> set rs \<longrightarrow> (\<forall>ch \<in> set chs. limits db0 ch (db_entries db r))))"

lemma one_key_same_registry:
  "same_registry db db' \<Longrightarrow> one_key_per_address db' = one_key_per_address db"
  by (simp add: one_key_per_address_def same_registry_def)

lemma round_inv_capped:
  assumes "round_inv db0 chs rs seen db" and "ch \<in> set chs"
    and "ch_RemotePubkey ch = PubKeyArrayToString pk" and "db_keyToAddressMap db0 pk = Some p"
  shows "round_inv db0 chs rs (insert ch seen) (capped_db (bitToByte p) (ch_LocalBalance ch) rs db)"
proof -
  let ?h = "cap_entries (bitToByte p) (ch_LocalBalance ch) rs (db_entries db)"
  have keep: "limits db0 c (?h r)" if "limits db0 c (db_entries db r)" for c r
    using limits_lower [OF that] cap_entries_le by simp
  have this_one: "limits db0 ch (?h r)" if "r \<in> set rs" for r
    using assms(3,4) cap_entries_capped [OF that, of "db_entries db"] by (auto simp: limits_def)
  show ?thesis
    using assms(1,2) keep this_one same_registry_trans [of db0 db]
    unfolding round_inv_def by fastforce
qed

lemma round_inv_unregistered:
  assumes "round_inv db0 chs rs seen db" and "ch \<in> set chs"
    and "ch_RemotePubkey ch = PubKeyArrayToString pk" and "db_keyToAddressMap db0 pk = None"
  shows "round_inv db0 chs rs (insert ch seen) db"
  using assms by (auto simp: round_inv_def limits_def)

lemma round_step:
  assumes inv: "round_inv db0 chs rs seen db" and "ch \<in> set chs" and "canonical chs"
    and "one_key_per_address db0" and "rpc_ListChannels lnClient = Inr chs"
  shows "\<exists>db'. sync_channel lnClient rs ch db = Inr db' \<and> round_inv db0 chs rs (insert ch seen) db' \<and>
    covers db0 ch db' \<and> (\<forall>a. route_map db a \<noteq> None \<longrightarrow> route_map db' a \<noteq> None)"
proof -
  obtain pk where pk: "ch_RemotePubkey ch = PubKeyArrayToString pk"
    using assms(2,3) by (auto simp: canonical_def)
  have db: "db_ok db" "same_registry db0 db" "db_keyToAddressMap db = db_keyToAddressMap db0"
    using inv by (simp_all add: round_inv_def same_registry_def)
  show ?thesis
  proof (cases "db_keyToAddressMap db0 pk")
    case None
    then show ?thesis
      using round_inv_unregistered [OF inv assms(2) pk] db pk
      by (simp add: sync_channel_eq [of db ch pk] covers_def)
  next
    case (Some p)
    let ?db = "capped_db (bitToByte p) (ch_LocalBalance ch) rs db"
    let ?dest = "\<lparr>d_address = bitToByte p, d_capacity = ch_LocalBalance ch\<rparr>"
    have inv': "round_inv db0 chs rs (insert ch seen) ?db"
      by (rule round_inv_capped [OF inv assms(2) pk Some])
    have ok: "db_ok ?db" "same_registry db0 ?db" "one_key_per_address ?db"
      using db same_registry_trans [of db0 db ?db] assms(4) one_key_same_registry [of db0 ?db] by auto
    have reg: "registered ?db (d_address ?dest)"
      using db Some by (auto simp: db_ok_def keys_ok_def registered_def)
    have new: "limits db0 c (offered ?db chs ?dest pk)" if "c \<in> set chs" for c
      using limits_offered [OF ok(3) _ that, of pk] Some db limits_same_registry [OF ok(2)] by simp
    obtain db' where db': "addNewDestinationToDB lnClient ?dest pk ?db = Inr db'" "db_ok db'"
        "same_registry ?db db'"
      and routes: "route_map db' = (if d_address ?dest = db_localAddress ?db \<or>
          worse ?db (offered ?db chs ?dest pk) then route_map ?db
          else (route_map ?db)(d_address ?dest \<mapsto> offered ?db chs ?dest pk))"
      and old: "\<And>r. r < db_nextEntry ?db \<Longrightarrow> db_entries db' r = db_entries ?db r"
      and added: "\<And>r. r \<in> set (db_routingEntriesStack db') \<Longrightarrow> r \<notin> set (db_routingEntriesStack ?db) \<Longrightarrow>
        db_entries db' r = offered ?db chs ?dest pk"
      by (rule addNewDestinationToDB_spec [OF ok(1) assms(5) reg, of pk]) blast
    have "(\<forall>c \<in> insert ch seen. limits db0 c (db_entries db' r)) \<and>
        (r \<notin> set rs \<longrightarrow> (\<forall>c \<in> set chs. limits db0 c (db_entries db' r)))"
      if "r \<in> set (db_routingEntriesStack db')" for r
    proof (cases "r \<in> set (db_routingEntriesStack ?db)")
      case True
      then show ?thesis
        using inv' old stack_ref_less [OF ok(1) True] by (simp add: round_inv_def)
    next
      case False
      then show ?thesis
        using added [OF that] new inv' by (auto simp: round_inv_def)
    qed
    then have "round_inv db0 chs rs (insert ch seen) db'"
      using inv' db'(2) same_registry_trans [OF ok(2) db'(3)] by (simp add: round_inv_def)
    moreover have "route_map db' a \<noteq> None" if "route_map db a \<noteq> None" for a
      using that routes by (auto simp: route_map_def split: option.splits)
    moreover have "covers db0 ch db'"
      using Some pk db(2) routes by (auto simp: covers_def worse_def same_registry_def)
    ultimately show ?thesis
      using db' Some db pk by (auto simp: sync_channel_eq [of db ch pk])
  qed
qed

section \<open>A whole round\<close>

lemma round_fold:
  assumes "round_inv db0 chs rs seen db" and "canonical chs" and "one_key_per_address db0"
    and "\<forall>k. rpc_ListChannels (lnd k) = Inr chs" and "set cs \<subseteq> set chs"
    and "\<forall>ch \<in> seen. covers db0 ch db"
  shows "\<exists>db'. fold_res (\<lambda>(k, ch). sync_channel (lnd (Suc k)) rs ch) (enumerate n cs) db = Inr db' \<and>
    round_inv db0 chs rs (seen \<union> set cs) db' \<and> (\<forall>ch \<in> seen \<union> set cs. covers db0 ch db')"
  using assms(1,5,6)
proof (induction cs arbitrary: n seen db)
  case (Cons ch cs)
  obtain db1 where db1: "sync_channel (lnd (Suc n)) rs ch db = Inr db1"
      "round_inv db0 chs rs (insert ch seen) db1" "covers db0 ch db1"
      "\<And>a. route_map db a \<noteq> None \<Longrightarrow> route_map db1 a \<noteq> None"
    using round_step [OF Cons.prems(1) _ assms(2,3), of ch "lnd (Suc n)"] Cons.prems(2) assms(4) by auto
  have "\<forall>c \<in> insert ch seen. covers db0 c db1"
    using db1(3,4) Cons.prems(3) covers_mono by blast
  then show ?case
    using Cons.IH [OF db1(2), of "Suc n"] Cons.prems(2) db1(1) by (simp add: insert_commute)
qed simp

lemma sync_round_spec:
  assumes "db_ok db" and "\<forall>k. rpc_ListChannels (lnd k) = Inr chs" and "canonical chs"
    and "one_key_per_address db"
  shows "\<exists>db'. sync_round lnd db = Inr db' \<and>
    round_inv db chs (db_routingEntriesStack db) (set chs) db' \<and> (\<forall>ch \<in> set chs. covers db ch db')"
proof -
  have "round_inv db chs (db_routingEntriesStack db) {} db"
    using assms(1) by (simp add: round_inv_def)
  from round_fold [OF this assms(3,4,2), of chs 0] assms(2) show ?thesis
    by (simp add: sync_round_def GetLocalChannels_def genesisBlock_def Let_def)
qed

end
