(* ===== verification/Example_Network.thy ===== *)
theory Example_Network
  imports Suggest_Address Routing_Sync
begin

text \<open>
  Small databases used to instantiate the properties: the nodes \<open>ks\<close> are registered, node \<open>k\<close> under
  the address 0.0.0.k and the public key that starts with the bytes 2 and \<open>k\<close>.
\<close>

definition example_key :: "u8 \<Rightarrow> pubkey" where
  "example_key k = arr_copy 0 [2, k]"

definition example_channel :: "u8 \<Rightarrow> i64 \<Rightarrow> Channel" where
  "example_channel k balance =
     \<lparr>ch_RemotePubkey = PubKeyArrayToString (example_key k), ch_LocalBalance = balance\<rparr>"

lemma example_key_inject [simp]: "example_key j = example_key k \<longleftrightarrow> j = k"
proof
  assume "example_key j = example_key k"
  then have "list_of (example_key j) ! 1 = list_of (example_key k) ! 1"
    by simp
  then show "j = k"
    by (simp add: example_key_def list_of_copy)
qed simp

lemma example_address_inject [simp]: "example_address j = example_address k \<longleftrightarrow> j = k"
  by (simp add: example_address_def arr_copy_inject)

lemma example_address_0: "example_address 0 = 0"
  by (simp add: example_address_def arr_eq_iff zero_arr_def numeral_eq_Suc)

lemma example_address_eq_0 [simp]: "example_address k = 0 \<longleftrightarrow> k = 0"
  by (metis example_address_0 example_address_inject)

lemma example_channel_simps [simp]:
  "ch_RemotePubkey (example_channel k b) = PubKeyArrayToString (example_key k)"
  "ch_LocalBalance (example_channel k b) = b"
  by (simp_all add: example_channel_def)

definition fresh_db :: "u8 list \<Rightarrow> DB \<Rightarrow> bool" where
  "fresh_db ks db \<longleftrightarrow> db_ok db \<and> db_routingEntriesStack db = [] \<and>
     (\<forall>a. registered db a \<longleftrightarrow> a \<in> example_address ` set ks) \<and>
     (\<forall>pk p. db_keyToAddressMap db pk = Some p \<longleftrightarrow>
        (\<exists>k \<in> set ks. pk = example_key k \<and> p = byteToBit (example_address k))) \<and>
     (\<forall>k \<in> set ks. map_option ai_nodePubKey (addr_map db (example_address k)) = Some (example_key k)) \<and>
     db_localAddress db = 0 \<and> db_height db = 0"

lemma example_db_fresh: "\<exists>db. example_db ks = Inr db \<and> fresh_db ks db"
proof (induction ks rule: rev_induct)
  case Nil
  show ?case
    by (simp add: example_db_def fresh_db_def db_ok_createDB registered_def)
      (simp add: createDB_def createRoutingStack_def genesisBlock_def)
next
  case (snoc k ks)
  let ?info = "example_info [0, 0, 0, k] [2, k]"
  obtain db where db: "example_db ks = Inr db" "fresh_db ks db"
    using snoc by blast
  have info: "ai_address ?info = example_address k" "ai_nodePubKey ?info = example_key k"
      "ai_routingEntry ?info = None"
    by (simp_all add: example_info_def example_address_def example_key_def)
  have ok: "db_ok db" and can: "can_register db ?info"
    using db(2) info no_routes_can_register [of db ?info] by (simp_all add: fresh_db_def)
  show ?case
  proof (rule addAddressToDB_spec [OF ok, of ?info])
    fix db'
    assume *: "addAddressToDB ?info db = Inr db'" "can_register db ?info \<Longrightarrow> db_ok db'"
      "addr_map db' = (addr_map db)(ai_address ?info \<mapsto> ?info)"
      "db_keyToAddressMap db' = (db_keyToAddressMap db)(ai_nodePubKey ?info \<mapsto> byteToBit (ai_address ?info))"
      "db_routingEntriesStack db' = db_routingEntriesStack db" "db_localAddress db' = db_localAddress db"
      "db_height db' = db_height db"
    have "example_db (ks @ [k]) = Inr db'"
      using db(1) *(1) by (simp add: example_db_def fold_res_append)
    moreover have "fresh_db (ks @ [k]) db'"
      using db(2) *(2-7) can info by (auto simp: fresh_db_def registered_def)
    ultimately show ?thesis by blast
  qed
qed

lemma fresh_db_routes: "fresh_db ks db \<Longrightarrow> route_map db a = None"
proof (rule ccontr)
  assume "fresh_db ks db" "route_map db a \<noteq> None"
  then show False
    by (auto simp: fresh_db_def db_ok_def entries_ok_def route_map_def split: option.splits)
qed

lemma fresh_db_facts:
  assumes "fresh_db ks db"
  shows "db_ok db" "k \<in> set ks \<Longrightarrow> registered db (example_address k)"
    "k \<in> set ks \<Longrightarrow> db_keyToAddressMap db (example_key k) = Some (byteToBit (example_address k))"
    "one_key_per_address db" "db_localAddress db = 0" "db_height db = 0"
  using assms by (auto simp: fresh_db_def one_key_per_address_def)

lemma fresh_db_owner:
  "fresh_db ks db \<Longrightarrow> k \<in> set ks \<Longrightarrow> map_option ai_nodePubKey (addr_map db (example_address k)) = Some (example_key k)"
  by (simp add: fresh_db_def)

lemma fresh_db_peer [simp]: "fresh_db ks db \<Longrightarrow> k \<in> set ks \<Longrightarrow> peer_address db (example_key k) = example_address k"
  by (simp add: peer_address_def fresh_db_facts)

end
