(* ===== verification/Routing_Properties.thy ===== *)
theory Routing_Properties
  imports Example_Network
begin

text \<open>
  The properties of the routing table: installing an entry, keeping the better route, following
  the channel balances, and the two-node routing loop that the exchange of tables creates.
\<close>

section \<open>Installing an entry\<close>

lemma put_route_unregistered:
  "db_ok db \<Longrightarrow> \<not> registered db (re_destination e) \<Longrightarrow> put_route e db = Inl NilDeref"
  using addRoutingEntryToDB_unregistered [of "with_entry e db" "db_nextEntry db"]
  by (simp add: put_route_eq registered_def)

text \<open>The entries on the stack, most recent first.\<close>

definition stacked :: "DB \<Rightarrow> routingEntry list" where
  "stacked db = map (db_entries db) (db_routingEntriesStack db)"

lemma put_route_spec:
  assumes "db_ok db" and "registered db (re_destination e)"
  shows "\<exists>db'. put_route e db = Inr db' \<and> db_ok db' \<and>
    route_map db' = (route_map db)(re_destination e \<mapsto> e) \<and>
    (\<forall>a. registered db' a = registered db a) \<and> db_height db' = db_height db \<and>
    stacked db' = e # filter (\<lambda>x. re_destination x \<noteq> re_destination e) (stacked db)"
proof -
  obtain info where Some: "addr_map db (re_destination e) = Some info"
    using assms(2) by (auto simp: registered_def)
  show ?thesis
  proof (rule install_spec [OF assms(1) Some])
    fix db'
    assume *: "addRoutingEntryToDB (db_nextEntry db) (with_entry e db) = Inr db'" "db_ok db'"
      "route_map db' = (route_map db)(re_destination e \<mapsto> e)"
      "db_routingEntriesStack db' = db_nextEntry db # (case ai_routingEntry info of
           None \<Rightarrow> db_routingEntriesStack db | Some q \<Rightarrow> remove1 q (db_routingEntriesStack db))"
      "db_entries db' = (db_entries db)(db_nextEntry db := e)" "db_height db' = db_height db"
      "addr_map db' = (addr_map db)(re_destination e \<mapsto> info\<lparr>ai_routingEntry := Some (db_nextEntry db)\<rparr>)"
    let ?s = "db_routingEntriesStack db"
    have on: "re_destination (db_entries db r) \<noteq> re_destination e \<longleftrightarrow> ai_routingEntry info \<noteq> Some r"
      if r: "r \<in> set ?s" for r
    proof -
      obtain i where "addr_map db (re_destination (db_entries db r)) = Some i" "ai_routingEntry i = Some r"
        using assms r by (auto simp: db_ok_def stack_ok_def)
      then show ?thesis
        using Some entry_on_stack [OF assms(1) Some, of r] by auto
    qed
    have keep: "(case ai_routingEntry info of None \<Rightarrow> ?s | Some q \<Rightarrow> remove1 q ?s) =
        filter (\<lambda>r. re_destination (db_entries db r) \<noteq> re_destination e) ?s"
    proof (cases "ai_routingEntry info")
      case None
      then have "filter (\<lambda>r. re_destination (db_entries db r) \<noteq> re_destination e) ?s = ?s"
        using on by (simp add: filter_id_conv)
      then show ?thesis using None by simp
    next
      case (Some q)
      have "distinct ?s"
        using assms by (simp add: db_ok_def stack_ok_def)
      then have "remove1 q ?s = filter (\<lambda>r. r \<noteq> q) ?s"
        by (simp add: distinct_remove1_removeAll removeAll_filter_not_eq neq_commute)
      also have "\<dots> = filter (\<lambda>r. re_destination (db_entries db r) \<noteq> re_destination e) ?s"
        using on Some by (intro filter_cong) auto
      finally show ?thesis using Some by simp
    qed
    have "map (db_entries db') (filter P ?s) = map (db_entries db) (filter P ?s)" for P
      using assms *(5) by (auto dest: stack_ref_less)
    then show ?thesis
      using * Some by (simp add: put_route_eq registered_def stacked_def keep filter_map comp_def)
  qed
qed

text \<open>
  C21: installing a route. On a well-formed database, \<open>addRoutingEntryToDB\<close> of a fresh entry panics
  exactly when its destination is not registered. Otherwise it keeps the invariant, makes the
  entry the route of its destination and no other route changes; the entry is on top of the
  stack and the entry it replaces, and no other, has left the stack.
\<close>

theorem addRoutingEntryToDB_installs:
  assumes "db_ok db"
  shows "(put_route e db = Inl NilDeref \<longleftrightarrow> \<not> registered db (re_destination e)) \<and>
    (registered db (re_destination e) \<longrightarrow>
      (\<exists>db'. put_route e db = Inr db' \<and> db_ok db' \<and>
        route_map db' = (route_map db)(re_destination e \<mapsto> e) \<and>
        map (db_entries db') (db_routingEntriesStack db') =
          e # filter (\<lambda>x. re_destination x \<noteq> re_destination e)
                (map (db_entries db) (db_routingEntriesStack db))))"
  using put_route_spec [OF assms, of e] put_route_unregistered [OF assms, of e]
  by (auto simp: stacked_def)

definition example_route :: "u8 \<Rightarrow> u8 \<Rightarrow> i64 \<Rightarrow> u64 \<Rightarrow> routingEntry" where
  "example_route d n c h = \<lparr>re_destination = example_address d, re_nextHop = example_address n,
     re_capacity = c, re_height = h\<rparr>"

theorem addRoutingEntryToDB_installs_witness:
  "\<exists>db db'. example_db [1, 2] = Inr db \<and> put_route (example_route 2 1 50 7) db = Inr db' \<and>
     route_map db' (example_address 2) = Some (example_route 2 1 50 7) \<and>
     put_route (example_route 9 1 50 7) db = Inl NilDeref"
proof -
  obtain db where db: "example_db [1, 2] = Inr db" "fresh_db [1, 2] db"
    using example_db_fresh by blast
  have "registered db (example_address 2)" "\<not> registered db (example_address 9)"
    using db(2) by (auto simp: fresh_db_def)
  then show ?thesis
    using db(1) addRoutingEntryToDB_installs [OF fresh_db_facts(1) [OF db(2)], of "example_route 2 1 50 7"]
      addRoutingEntryToDB_installs [OF fresh_db_facts(1) [OF db(2)], of "example_route 9 1 50 7"]
    by (auto simp: example_route_def)
qed

section \<open>One stack entry per destination\<close>

lemma stacked_routes:
  assumes "db_ok db"
  shows "distinct (map re_destination (stacked db)) \<and> set (stacked db) = ran (route_map db) \<and>
    route_map db = map_of (map (\<lambda>e. (re_destination e, e)) (stacked db))"
proof -
  let ?s = "db_routingEntriesStack db" and ?h = "db_entries db"
  have on: "route_map db (re_destination (?h r)) = Some (?h r)" if "r \<in> set ?s" for r
    using assms that by (force simp: db_ok_def stack_ok_def route_map_def)
  have off: "\<exists>r \<in> set ?s. re_destination (?h r) = a \<and> e = ?h r" if "route_map db a = Some e" for a e
    using that entry_on_stack [OF assms] by (fastforce simp: route_map_Some)
  have inj: "inj_on (\<lambda>r. re_destination (?h r)) (set ?s)"
    using assms unfolding inj_on_def db_ok_def stack_ok_def by (metis option.inject)
  have distinct: "distinct (map (\<lambda>r. re_destination (?h r)) ?s)"
    using assms inj by (simp add: distinct_map db_ok_def stack_ok_def)
  have "map_of (map (\<lambda>e. (re_destination e, e)) (map ?h ?s)) a = route_map db a" for a
  proof (cases "route_map db a")
    case None
    then show ?thesis
      using on by (force simp: map_of_eq_None_iff)
  next
    case (Some e)
    then obtain r where "r \<in> set ?s" "re_destination (?h r) = a" "e = ?h r"
      using off by blast
    then show ?thesis
      using Some distinct by (auto simp: comp_def intro!: map_of_is_SomeI)
  qed
  moreover have "set (map ?h ?s) = ran (route_map db)"
    using on off by (auto simp: ran_def) (metis image_eqI)
  ultimately show ?thesis
    using distinct unfolding stacked_def by (simp add: comp_def fun_eq_iff)
qed

text \<open>
  The stack and the tree agree. In a well-formed database the stack holds exactly the entries
  that are routes, one per destination: \<open>peekFromBlock\<close> from the genesis block lists the
  whole routing table.
\<close>

lemma stack_is_routing_table:
  assumes "db_ok db"
  shows "distinct (map re_destination (map (db_entries db) (getLastRoutingEntries db genesisBlock))) \<and>
    set (map (db_entries db) (getLastRoutingEntries db genesisBlock)) = ran (route_map db) \<and>
    route_map db = map_of (map (\<lambda>e. (re_destination e, e))
      (map (db_entries db) (getLastRoutingEntries db genesisBlock)))"
  using stacked_routes [OF assms]
  by (simp add: getLastRoutingEntries_def genesisBlock_def stacked_def)

section \<open>Learning a destination\<close>

text \<open>
  C12: keeping the better route. For a registered destination \<open>addNewDestinationToDB\<close> returns and
  keeps the invariant and the registry. It offers the peer as next hop at the current height, with a
  capacity that is exactly the least of the peer's and of the balances of the channels with this peer, channels
  with other peers not counting; the offer becomes the route unless the destination is the
  node itself or its present route has a larger capacity, and no other route changes.
\<close>

theorem addNewDestinationToDB_keeps_best:
  assumes "db_ok db" and "rpc_ListChannels lnClient = Inr chs" and "registered db (d_address dest)"
  shows "\<exists>db' e. addNewDestinationToDB lnClient dest pk db = Inr db' \<and> db_ok db' \<and> same_registry db db' \<and>
    re_destination e = d_address dest \<and> re_nextHop e = peer_address db pk \<and>
    re_height e = getBlockHeight db \<and>
    least_of (insert (d_capacity dest) {ch_LocalBalance ch |ch. ch \<in> set chs \<and> ch_RemotePubkey ch = PubKeyArrayToString pk})
      (re_capacity e) \<and>
    route_map db' =
      (if d_address dest = getLocalAddress db \<or>
          (\<exists>old. route_map db (d_address dest) = Some old \<and> re_capacity e <s re_capacity old)
       then route_map db else (route_map db)(d_address dest \<mapsto> e))"
proof (rule addNewDestinationToDB_spec [OF assms, of pk])
  fix db'
  let ?e = "offered db chs dest pk"
  assume "addNewDestinationToDB lnClient dest pk db = Inr db'" "db_ok db'" "same_registry db db'"
    "route_map db' = (if d_address dest = db_localAddress db \<or> worse db ?e
       then route_map db else (route_map db)(d_address dest \<mapsto> ?e))"
  then show ?thesis
    by (intro exI [of _ db'] exI [of _ ?e])
      (simp add: channel_limit_least worse_def getBlockHeight_def getLocalAddress_def)
qed

theorem addNewDestinationToDB_keeps_best_witness:
  "\<exists>db db'. example_db [1, 2, 3] = Inr db \<and>
     addNewDestinationToDB (example_lnd [example_channel 2 40])
       \<lparr>d_address = example_address 3, d_capacity = 90\<rparr> (example_key 2) db = Inr db' \<and> db_ok db'"
proof -
  obtain db where db: "example_db [1, 2, 3] = Inr db" "fresh_db [1, 2, 3] db"
    using example_db_fresh by blast
  show ?thesis
    using db(1) addNewDestinationToDB_keeps_best [OF fresh_db_facts(1) [OF db(2)],
        of "example_lnd [example_channel 2 40]" "[example_channel 2 40]"
          "\<lparr>d_address = example_address 3, d_capacity = 90\<rparr>" "example_key 2"]
      fresh_db_facts(2) [OF db(2), of 3]
    by (auto simp: example_lnd_def)
qed

section \<open>Following the channel balances\<close>

text \<open>
  C11: a round of \<open>SynchronizeRoutingDB\<close>. When lnd answers the same channels throughout, the round
  ends without a fault and keeps the invariant and the registry; afterwards no route through a
  registered neighbour promises more than the balance of any channel with it, and every
  registered neighbour other than the node itself is a destination.
\<close>

theorem sync_round_follows_balances:
  assumes "db_ok db" and "\<forall>k. rpc_ListChannels (lnd k) = Inr chs" and "canonical chs"
    and "one_key_per_address db"
  shows "\<exists>db'. sync_round lnd db = Inr db' \<and> db_ok db' \<and> same_registry db db' \<and>
    (\<forall>ch \<in> set chs. \<forall>pk n. ch_RemotePubkey ch = PubKeyArrayToString pk \<longrightarrow>
       GetNodeAddress db pk = Inr (n, True) \<longrightarrow>
       (\<forall>d e. route_map db' d = Some e \<longrightarrow> re_nextHop e = n \<longrightarrow> re_capacity e \<le>s ch_LocalBalance ch) \<and>
       (n \<noteq> getLocalAddress db \<longrightarrow> route_map db' n \<noteq> None))"
proof -
  obtain db' where db': "sync_round lnd db = Inr db'"
      "round_inv db chs (db_routingEntriesStack db) (set chs) db'" "\<forall>ch \<in> set chs. covers db ch db'"
    using sync_round_spec [OF assms] by blast
  have ok: "db_ok db'" "same_registry db db'"
    using db'(2) by (simp_all add: round_inv_def)
  have "re_capacity e \<le>s ch_LocalBalance ch"
    if "ch \<in> set chs" "ch_RemotePubkey ch = PubKeyArrayToString pk"
      "db_keyToAddressMap db pk = Some p" "route_map db' d = Some e" "re_nextHop e = bitToByte p"
    for ch pk p d e
    using that db'(2) entry_on_stack [OF ok(1)] by (auto simp: round_inv_def limits_def route_map_Some)
  moreover have "route_map db' (bitToByte p) \<noteq> None"
    if "ch \<in> set chs" "ch_RemotePubkey ch = PubKeyArrayToString pk"
      "db_keyToAddressMap db pk = Some p" "bitToByte p \<noteq> db_localAddress db" for ch pk p
    using that db'(3) by (auto simp: covers_def)
  ultimately show ?thesis
    using db'(1) ok assms(1)
    by (intro exI [of _ db'])
      (auto simp: GetNodeAddress_eq getLocalAddress_def split: option.splits)
qed

theorem sync_round_follows_balances_witness:
  "\<exists>db db'. example_db [1, 2] = Inr db \<and>
     sync_round (\<lambda>_. example_lnd [example_channel 2 40]) db = Inr db' \<and>
     route_map db' (example_address 2) \<noteq> None"
proof -
  obtain db where db: "example_db [1, 2] = Inr db" "fresh_db [1, 2] db"
    using example_db_fresh by blast
  have "canonical [example_channel 2 40]"
    by (simp add: canonical_def)
  moreover have "GetNodeAddress db (example_key 2) = Inr (example_address 2, True)"
    using db(2) by (simp add: GetNodeAddress_peer fresh_db_facts)
  moreover have "example_address 2 \<noteq> getLocalAddress db"
    using db(2) by (simp add: getLocalAddress_def fresh_db_facts)
  ultimately show ?thesis
    using db(1) sync_round_follows_balances [OF fresh_db_facts(1) [OF db(2)],
        of "\<lambda>_. example_lnd [example_channel 2 40]" "[example_channel 2 40]"]
      fresh_db_facts(4) [OF db(2)]
    by (auto simp: example_lnd_def)
qed

section \<open>Exchanging tables\<close>

text \<open>
  C13: the routing loop. Let node A route \<open>d\<close> with capacity \<open>c\<close>, let B know \<open>d\<close> but no route to it, and
  let the channels between them carry \<open>c\<close>. When B learns A's destination and then A learns B's,
  both succeed, and A routes \<open>d\<close> through B while B routes \<open>d\<close> through A, whatever A's route was:
  a route of equal capacity replaces the one it was derived from.
\<close>

theorem exchange_creates_routing_loop:
  assumes A: "db_ok A" "db_keyToAddressMap A keyB = Some (byteToBit b)"
    and B: "db_ok B" "db_keyToAddressMap B keyA = Some (byteToBit a)"
    and d: "route_map A d = Some e" "registered B d" "route_map B d = None"
    and "d \<noteq> getLocalAddress A" "d \<noteq> getLocalAddress B"
    and lnA: "rpc_ListChannels lnA = Inr chsA"
      "\<forall>ch \<in> set chsA. ch_RemotePubkey ch = PubKeyArrayToString keyB \<longrightarrow> re_capacity e \<le>s ch_LocalBalance ch"
    and lnB: "rpc_ListChannels lnB = Inr chsB"
      "\<forall>ch \<in> set chsB. ch_RemotePubkey ch = PubKeyArrayToString keyA \<longrightarrow> re_capacity e \<le>s ch_LocalBalance ch"
  shows "\<exists>B' eB A' eA.
    addNewDestinationToDB lnB (routingEntryToDestination e) keyA B = Inr B' \<and>
    route_map B' d = Some eB \<and> re_nextHop eB = a \<and>
    addNewDestinationToDB lnA (routingEntryToDestination eB) keyB A = Inr A' \<and>
    route_map A' d = Some eA \<and> re_nextHop eA = b"
proof -
  have dest: "re_destination e = d" "registered A d"
    using entry_on_stack [OF A(1)] d(1) by (auto simp: route_map_Some registered_def)
  let ?eB = "offered B chsB (routingEntryToDestination e) keyA"
  let ?eA = "offered A chsA (routingEntryToDestination ?eB) keyB"
  have eB: "re_capacity ?eB = re_capacity e" "re_nextHop ?eB = a"
    using channel_limit_id [OF lnB(2)] B(2)
    by (simp_all add: routingEntryToDestination_def peer_address_def)
  have eA: "re_capacity ?eA = re_capacity e" "re_nextHop ?eA = b"
    using channel_limit_id [OF lnA(2)] eB(1) A(2)
    by (simp_all add: routingEntryToDestination_def peer_address_def)
  have addrs: "d_address (routingEntryToDestination e) = d" "d_address (routingEntryToDestination ?eB) = d"
    using dest by (simp_all add: routingEntryToDestination_def)
  have "\<not> worse B ?eB"
    using d(3) addrs by (simp add: worse_def)
  then obtain B' where B': "addNewDestinationToDB lnB (routingEntryToDestination e) keyA B = Inr B'"
      "route_map B' d = Some ?eB"
    using addNewDestinationToDB_takes [OF B(1) lnB(1), of "routingEntryToDestination e" keyA] addrs
      d(2) assms(9) by (auto simp: getLocalAddress_def)
  have "\<not> worse A ?eA"
    using d(1) addrs eA(1) by (simp add: worse_def word_sless_alt)
  then obtain A' where "addNewDestinationToDB lnA (routingEntryToDestination ?eB) keyB A = Inr A'"
      "route_map A' d = Some ?eA"
    using addNewDestinationToDB_takes [OF A(1) lnA(1), of "routingEntryToDestination ?eB" keyB] addrs
      dest assms(8) by (auto simp: getLocalAddress_def)
  then show ?thesis
    using B' eA(2) eB(2) by blast
qed

theorem exchange_creates_routing_loop_witness:
  "\<exists>A B B' eB A' eA. example_db [1, 2, 3] = Inr B \<and> put_route (example_route 3 3 50 7) B = Inr A \<and>
    addNewDestinationToDB (example_lnd [example_channel 1 60]) \<lparr>d_address = example_address 3, d_capacity = 50\<rparr>
      (example_key 1) B = Inr B' \<and>
    route_map B' (example_address 3) = Some eB \<and> re_nextHop eB = example_address 1 \<and>
    addNewDestinationToDB (example_lnd [example_channel 2 60]) (routingEntryToDestination eB)
      (example_key 2) A = Inr A' \<and>
    route_map A' (example_address 3) = Some eA \<and> re_nextHop eA = example_address 2"
proof -
  obtain B where B: "example_db [1, 2, 3] = Inr B" "fresh_db [1, 2, 3] B"
    using example_db_fresh by blast
  obtain info where info: "addr_map B (re_destination (example_route 3 3 50 7)) = Some info"
    using fresh_db_facts(2) [OF B(2), of 3] by (auto simp: example_route_def registered_def)
  obtain A where A: "put_route (example_route 3 3 50 7) B = Inr A" "db_ok A"
      "route_map A = (route_map B)(example_address 3 \<mapsto> example_route 3 3 50 7)"
      "db_keyToAddressMap A = db_keyToAddressMap B" "db_localAddress A = db_localAddress B"
    by (rule install_spec [OF fresh_db_facts(1) [OF B(2)] info])
      (auto simp: put_route_eq example_route_def)
  have cap: "(50 :: i64) \<le>s 60"
    by (simp add: word_sle_eq)
  have dest: "routingEntryToDestination (example_route 3 3 50 7) =
      \<lparr>d_address = example_address 3, d_capacity = 50\<rparr>"
    by (simp add: routingEntryToDestination_def example_route_def)
  show ?thesis
    using exchange_creates_routing_loop [of A "example_key 2" "example_address 2" B "example_key 1"
        "example_address 1" "example_address 3" "example_route 3 3 50 7"
        "example_lnd [example_channel 2 60]" "[example_channel 2 60]"
        "example_lnd [example_channel 1 60]" "[example_channel 1 60]"]
      A B cap fresh_db_facts [OF B(2)] fresh_db_routes [OF B(2)]
    by (simp add: dest getLocalAddress_def example_lnd_def) (auto simp: example_route_def)
qed

end
