(* ===== verification/Messages.thy ===== *)
theory Messages
  imports Wire_Format Routing_Properties
begin

text \<open>
  The three messages peers exchange (\<open>ldrlib/message.go\<close>): the table request, the table response
  and the forwarded route, their construction and their processing on every branch. A Go error is
  a value of the right side; a slice out of range is a fault that ends the node.
\<close>

section \<open>Constants\<close>

definition tableRequestType :: u16 where "tableRequestType = 0"

definition tableResponseType :: u16 where "tableResponseType = 1"

definition forwardRouteType :: u16 where "forwardRouteType = 2"

definition tableRequestHeaderSize :: nat where "tableRequestHeaderSize = 8"

definition messageTypeSize :: nat where "messageTypeSize = 2"

definition tableResponseHeaderSize :: nat where "tableResponseHeaderSize = 2"

definition forwardRouteHeaderSize :: nat where "forwardRouteHeaderSize = 24"

definition destinationSize :: nat where "destinationSize = 12"

lemmas message_sizes = tableRequestHeaderSize_def messageTypeSize_def tableResponseHeaderSize_def
  forwardRouteHeaderSize_def destinationSize_def

lemmas message_types = tableRequestType_def tableResponseType_def forwardRouteType_def

section \<open>Operations\<close>

definition createForwardRouteMessage :: "Route \<Rightarrow> go_error + u8 list" where
  "createForwardRouteMessage route = Inr (be_bytes 2 forwardRouteType @ serializeRoute route)"

definition processForwardRouteMessage :: "u8 list \<Rightarrow> (go_error + Route) res" where
  "processForwardRouteMessage message =
     (if length message < messageTypeSize + forwardRouteHeaderSize
      then Inr (Inl ''Invalid forward message size'')
      else bind_res (bind_res (slice 0 2 message) (be_get 2)) (\<lambda>responseType.
        if responseType \<noteq> forwardRouteType then Inr (Inl ''Invalid forward route message type'')
        else bind_res (slice 2 (length message) message) (\<lambda>routeBytes.
             bind_res (deserializeRoute routeBytes) (\<lambda>route. Inr (Inr route)))))"

definition createTableRequest :: "u64 \<Rightarrow> go_error + u8 list" where
  "createTableRequest startingBlock =
     (if startingBlock < genesisBlock then Inl ''Starting block is too old''
      else Inr (be_bytes 2 tableRequestType @ be_bytes 8 startingBlock))"

definition processTableRequest :: "DB \<Rightarrow> u8 list \<Rightarrow> (go_error + u8 list) res" where
  "processTableRequest db request =
     (if length request \<noteq> messageTypeSize + tableRequestHeaderSize
      then Inr (Inl ''Invalid table request size'')
      else bind_res (bind_res (slice 0 2 request) (be_get 2)) (\<lambda>requestType.
        if requestType \<noteq> tableRequestType then Inr (Inl ''Invalid table request message type'')
        else bind_res (bind_res (slice 2 10 request) (be_get 8)) (\<lambda>startingBlock.
          if startingBlock < genesisBlock then Inr (Inl ''Starting block is too old'')
          else let routingEntries = getLastRoutingEntries db startingBlock in
            Inr (Inr (be_bytes 2 tableResponseType @
              be_bytes 2 (of_nat (length routingEntries) :: u16) @
              concat (map (\<lambda>r. serializeDestination (routingEntryToDestination (db_entries db r)))
                routingEntries))))))"

definition processTableResponse :: "Lnd \<Rightarrow> pubkey \<Rightarrow> u8 list \<Rightarrow> DB \<Rightarrow> (go_error option \<times> DB) res" where
  "processTableResponse lnClient peerPubKey response db =
     (if length response < messageTypeSize + tableResponseHeaderSize
      then Inr (Some ''Invalid table response message size'', db)
      else bind_res (bind_res (slice 0 2 response) (be_get 2)) (\<lambda>responseType.
        if responseType \<noteq> tableResponseType
        then Inr (Some ''Invalid table response message type'', db)
        else bind_res (bind_res (slice 2 4 response) (be_get 2)) (\<lambda>entriesCount.
          bind_res (fold_res (\<lambda>n db.
              bind_res (slice (4 + n * destinationSize) (4 + (n + 1) * destinationSize) response) (\<lambda>serializedDest.
              bind_res (deserializeDestination serializedDest) (\<lambda>dest.
              addNewDestinationToDB lnClient dest peerPubKey db)))
            [0..<unat (entriesCount :: u16)] db) (\<lambda>db. Inr (None, db)))))"

section \<open>Facts\<close>

lemma be_get_2 [simp]: "be_get 2 (be_bytes 2 (w :: u16)) = Inr w"
  and be_get_8 [simp]: "be_get 8 (be_bytes 8 (v :: u64)) = Inr v"
  by (rule be_get_bytes, simp)+

lemma type_read: "slice 0 2 (be_bytes 2 (w :: u16) @ rest) = Inr (be_bytes 2 w)"
  by (simp add: slice_def)

lemma body_read: "b = length bs + 2 \<Longrightarrow> slice 2 b (be_bytes 2 (w :: u16) @ bs) = Inr bs"
  by (simp add: slice_def)

lemma createTableRequest_eq [simp]:
  "createTableRequest b = Inr (be_bytes 2 tableRequestType @ be_bytes 8 b)"
  by (simp add: createTableRequest_def genesisBlock_def)

lemma processTableRequest_eq:
  assumes "createTableRequest b = Inr request"
  shows "processTableRequest db request =
    Inr (Inr (be_bytes 2 tableResponseType @
      be_bytes 2 (of_nat (length (getLastRoutingEntries db b)) :: u16) @
      concat (map serializeDestination
        (map (\<lambda>r. routingEntryToDestination (db_entries db r)) (getLastRoutingEntries db b)))))"
proof -
  have request: "request = be_bytes 2 tableRequestType @ be_bytes 8 b"
    using assms by simp
  moreover have "slice 2 10 request = Inr (be_bytes 8 b)"
    by (simp add: request slice_def)
  ultimately show ?thesis
    by (simp add: processTableRequest_def message_sizes type_read genesisBlock_def Let_def comp_def)
qed

text \<open>Reading back a response: the destinations in order, as many as the 16-bit count says.\<close>

lemma processTableResponse_eq:
  assumes "n = length dests mod 65536"
  shows "processTableResponse lnClient pk
      (be_bytes 2 tableResponseType @ be_bytes 2 (of_nat (length dests) :: u16) @
       concat (map serializeDestination dests)) db =
    bind_res (fold_res (\<lambda>d. addNewDestinationToDB lnClient d pk) (take n dests) db)
      (\<lambda>db. Inr (None, db))"
proof -
  let ?hdr = "be_bytes 2 tableResponseType @ be_bytes 2 (of_nat (length dests) :: u16)"
  let ?resp = "?hdr @ concat (map serializeDestination dests) @ []"
  have count: "unat (of_nat (length dests) :: u16) = n"
    using assms by (simp add: unat_of_nat)
  have n_le: "n \<le> length dests"
    using assms by simp
  have "slice 2 4 ?resp = Inr (be_bytes 2 (of_nat (length dests) :: u16))"
    by (simp add: slice_def)
  moreover have "slice (4 + i * 12) (4 + (i + 1) * 12) ?resp = Inr (serializeDestination (dests ! i))"
    if "i < n" for i
    by (rule destination_codec.slice_record) (use that n_le in simp_all)
  then have "fold_res (\<lambda>i db. bind_res (slice (4 + i * 12) (4 + (i + 1) * 12) ?resp)
        (\<lambda>b. bind_res (deserializeDestination b) (\<lambda>d. addNewDestinationToDB lnClient d pk db))) [0..<n] db
      = fold_res (\<lambda>i. addNewDestinationToDB lnClient (dests ! i) pk) [0..<n] db"
    by (intro fold_res_cong) (simp add: serializeDestination_dec)
  moreover have "fold_res (\<lambda>i. addNewDestinationToDB lnClient (dests ! i) pk) [0..<n] db =
      fold_res (\<lambda>d. addNewDestinationToDB lnClient d pk) (map ((!) dests) [0..<n]) db"
    by (simp only: fold_res_map)
  moreover have "map ((!) dests) [0..<n] = take n dests"
    using n_le by (auto intro!: nth_equalityI)
  ultimately show ?thesis
    by (simp add: processTableResponse_def message_sizes type_read count)
qed

section \<open>Properties of messages\<close>

text \<open>
  C24: the exchange of a table. The response node A builds for the request of node B is processed by
  B as one \<open>addNewDestinationToDB\<close> per entry A has learnt at or after the requested height, in
  stack order and up to the number of entries modulo 65536; B's own faults are the only ones.
\<close>

theorem table_exchange:
  "\<exists>request response.
     createTableRequest startingBlock = Inr request \<and>
     processTableRequest A request = Inr (Inr response) \<and>
     processTableResponse lnClient pk response B =
       (let shared = map (\<lambda>r. routingEntryToDestination (db_entries A r)) (getLastRoutingEntries A startingBlock)
        in bind_res (fold_res (\<lambda>d. addNewDestinationToDB lnClient d pk)
               (take (length shared mod 65536) shared) B) (\<lambda>B'. Inr (None, B')))"
  using processTableRequest_eq [of startingBlock _ A]
    processTableResponse_eq [OF refl, of lnClient pk
      "map (\<lambda>r. routingEntryToDestination (db_entries A r)) (getLastRoutingEntries A startingBlock)" B]
  by (simp add: Let_def)

text \<open>
  Invalid messages are errors. A table request of the wrong length or type and a table response
  that is too short or of the wrong type are answered with an error, never a fault, and a
  response that is refused leaves the database as it was.
\<close>

lemma invalid_messages_refused:
  "(length request \<noteq> 10 \<longrightarrow> processTableRequest db request = Inr (Inl ''Invalid table request size'')) \<and>
   (length request = 10 \<longrightarrow> (be_val (take 2 request) :: u16) \<noteq> tableRequestType \<longrightarrow>
      processTableRequest db request = Inr (Inl ''Invalid table request message type'')) \<and>
   (\<exists>r. processTableRequest db request = Inr r) \<and>
   (length response < 4 \<longrightarrow>
      processTableResponse lnClient pk response db = Inr (Some ''Invalid table response message size'', db)) \<and>
   (4 \<le> length response \<longrightarrow> (be_val (take 2 response) :: u16) \<noteq> tableResponseType \<longrightarrow>
      processTableResponse lnClient pk response db = Inr (Some ''Invalid table response message type'', db))"
proof -
  have "\<exists>r. processTableRequest db request = Inr r"
    by (simp add: processTableRequest_def message_sizes slice_def be_get_def Let_def)
  then show ?thesis
    by (auto simp: processTableRequest_def processTableResponse_def message_sizes slice_def be_get_def)
qed

text \<open>
  An unregistered destination stops the node. When a response starts with a destination that is
  neither registered at the receiver nor its own address, processing it panics with a nil
  dereference, whatever follows.
\<close>

lemma unregistered_destination_panics:
  assumes "db_ok db" and "rpc_ListChannels lnClient = Inr chs"
    and "\<not> registered db (d_address d)" and "d_address d \<noteq> getLocalAddress db"
    and "length (d # ds) < 65536"
  shows "processTableResponse lnClient pk
      (be_bytes 2 tableResponseType @ be_bytes 2 (of_nat (length (d # ds)) :: u16) @
       concat (map serializeDestination (d # ds))) db = Inl NilDeref"
  using assms(5) addNewDestinationToDB_unregistered [OF assms(1-3)] assms(4)
  by (subst processTableResponse_eq [OF refl]) (simp add: getLocalAddress_def)

lemma processForward_serialized:
  assumes "length (rt_token route) = 10"
  shows "processForwardRouteMessage (be_bytes 2 forwardRouteType @ serializeRoute route) =
    Inr (Inr (route\<lparr>rt_hops := take (length (rt_hops route) mod 65536) (rt_hops route)\<rparr>))"
proof -
  have "length (serializeRoute route) \<ge> 24"
    using assms by (simp add: serializeRoute_def)
  then show ?thesis
    by (simp add: processForwardRouteMessage_def message_sizes type_read body_read
        deserializeRoute_serializeRoute [OF assms])
qed

text \<open>
  Forwarding a route. A route with a ten-byte token survives \<open>createForwardRouteMessage\<close> and
  \<open>processForwardRouteMessage\<close>, with the hops cut to their number modulo 65536.
\<close>

lemma forward_route_roundtrip:
  assumes "length (rt_token route) = 10"
  shows "\<exists>message. createForwardRouteMessage route = Inr message \<and>
    processForwardRouteMessage message =
      Inr (Inr (route\<lparr>rt_hops := take (length (rt_hops route) mod 65536) (rt_hops route)\<rparr>))"
  using processForward_serialized [OF assms] by (simp add: createForwardRouteMessage_def)

text \<open>
  A truncated route stops the node. Processing any byte string as a forwarded route is an error
  when it is shorter than its header or of another type. Otherwise it panics exactly when the message
  is shorter than the number of hops in its header promises: the count is not checked.
\<close>

lemma truncated_route_panics:
  "(length message < 26 \<longrightarrow> processForwardRouteMessage message = Inr (Inl ''Invalid forward message size'')) \<and>
   (26 \<le> length message \<longrightarrow> (be_val (take 2 message) :: u16) \<noteq> forwardRouteType \<longrightarrow>
      processForwardRouteMessage message = Inr (Inl ''Invalid forward route message type'')) \<and>
   (26 \<le> length message \<longrightarrow> (be_val (take 2 message) :: u16) = forwardRouteType \<longrightarrow>
      (processForwardRouteMessage message = Inl OutOfRange \<longleftrightarrow>
         length message < 26 + 4 * claimed_hops (drop 2 message)) \<and>
      ((\<exists>route. processForwardRouteMessage message = Inr (Inr route)) \<longleftrightarrow>
         26 + 4 * claimed_hops (drop 2 message) \<le> length message))"
proof -
  have "(processForwardRouteMessage message = Inl OutOfRange \<longleftrightarrow>
         length message < 26 + 4 * claimed_hops (drop 2 message)) \<and>
      ((\<exists>route. processForwardRouteMessage message = Inr (Inr route)) \<longleftrightarrow>
         26 + 4 * claimed_hops (drop 2 message) \<le> length message)"
    if "26 \<le> length message" "(be_val (take 2 message) :: u16) = forwardRouteType"
  proof -
    have "processForwardRouteMessage message =
        bind_res (deserializeRoute (drop 2 message)) (\<lambda>route. Inr (Inr route))"
      using that by (simp add: processForwardRouteMessage_def message_sizes slice_def be_get_def)
    moreover have "24 \<le> length (drop 2 message)"
      "length (drop 2 message) < 24 + n \<longleftrightarrow> length message < 26 + n" for n
      using that(1) by auto
    ultimately show ?thesis
      using deserializeRoute_cases [of "drop 2 message"] by (simp del: length_drop)
        (cases "deserializeRoute (drop 2 message)"; auto simp del: length_drop)
  qed
  then show ?thesis
    by (auto simp: processForwardRouteMessage_def message_sizes slice_def be_get_def)
qed

end
