(* ===== verification/Persistence.thy ===== *)
theory Persistence
  imports Wire_Format Routing_Properties
begin

text \<open>
  The two files of the database (\<open>ldrlib/db.go\<close>): \<open>address.db\<close>, the height of the last scanned block
  followed by one record per registration, and \<open>routing.db\<close>, one record per routing entry. The
  files are byte lists; opening a file that must exist and does not is the only I/O error
  modelled, and it ends the program as in the source.
\<close>

section \<open>Files\<close>

record disk =
  dk_address :: "u8 list option"
  dk_routing :: "u8 list option"

text \<open>\<open>Write\<close> at the start of a file opened without \<open>O_TRUNC\<close>: what lies behind stays.\<close>

definition overwrite :: "u8 list \<Rightarrow> u8 list \<Rightarrow> u8 list" where
  "overwrite new old = new @ drop (length new) old"

definition no_such_file :: go_error where
  "no_such_file = ''no such file or directory''"

definition updateBlockHeight :: "u64 \<Rightarrow> DB \<times> disk \<Rightarrow> (DB \<times> disk) res" where
  "updateBlockHeight blockHeight = (\<lambda>(db, dk).
     case dk_address dk of
       None \<Rightarrow> Inl (Fatal no_such_file)
     | Some content \<Rightarrow>
         Inr (db\<lparr>db_height := blockHeight\<rparr>,
              dk\<lparr>dk_address := Some (overwrite (serializeBlockHeight blockHeight) content)\<rparr>))"

definition saveAddressToFile :: "addressInfo \<Rightarrow> disk \<Rightarrow> disk res" where
  "saveAddressToFile info dk =
     (case dk_address dk of
        None \<Rightarrow> Inl (Fatal no_such_file)
      | Some content \<Rightarrow> bind_res (serializeAddressInfo info)
          (\<lambda>addressInfoBytes. Inr (dk\<lparr>dk_address := Some (content @ addressInfoBytes)\<rparr>)))"

definition SaveRoutingDBToFile :: "DB \<Rightarrow> disk \<Rightarrow> disk" where
  "SaveRoutingDBToFile db dk =
     (let routingEntries = peekFromBlock (db_entries db) genesisBlock (db_routingEntriesStack db);
          written = concat (map (\<lambda>r. serializeRoutingEntry (db_entries db r)) routingEntries);
          old = (case dk_routing dk of None \<Rightarrow> [] | Some content \<Rightarrow> content)
      in dk\<lparr>dk_routing := Some (overwrite written old)\<rparr>)"

text \<open>
  A read loop of \<open>ReadDBFromDisk\<close>: \<open>Read\<close> fills the buffer as far as the file goes; a last
  partial record is decoded from the buffer with the end of the record before it.
\<close>

function read_records :: "nat \<Rightarrow> (u8 list \<Rightarrow> 'r res) \<Rightarrow> ('r \<Rightarrow> DB \<Rightarrow> DB res) \<Rightarrow>
    u8 list \<Rightarrow> u8 list \<Rightarrow> DB \<Rightarrow> DB res" where
  "read_records recordSize dec load buf rest db =
     (if rest = [] \<or> recordSize = 0 then Inr db
      else let buf = take recordSize rest @ drop (length (take recordSize rest)) buf in
        bind_res (dec buf) (\<lambda>r. bind_res (load r db)
          (\<lambda>db. read_records recordSize dec load buf (drop recordSize rest) db)))"
  by pat_completeness auto
termination
  by (relation "measure (\<lambda>(_, _, _, _, rest, _). length rest)") auto

declare read_records.simps [simp del]

definition ReadDBFromDisk :: "string \<Rightarrow> disk \<Rightarrow> (DB \<times> disk) res" where
  "ReadDBFromDisk dataPath dk =
     (let db = createDB dataPath;
          content = (case dk_address dk of None \<Rightarrow> [] | Some content \<Rightarrow> content);
          dk = dk\<lparr>dk_address := Some content\<rparr>
      in bind_res
        (if content = [] then updateBlockHeight genesisBlock (db, dk)
         else let n = min 8 (length content) in
           bind_res (deserializeBlockHeight (take n content @ replicate (8 - n) 0)) (\<lambda>blockHeight.
           bind_res (updateBlockHeight blockHeight (db, dk)) (\<lambda>(db, dk).
           bind_res (read_records 81 deserializeAddressInfo addAddressToDB (replicate 81 0)
               (drop n (case dk_address dk of None \<Rightarrow> [] | Some content \<Rightarrow> content)) db) (\<lambda>db.
           Inr (db, dk)))))
        (\<lambda>(db, dk).
          let routing = (case dk_routing dk of None \<Rightarrow> [] | Some content \<Rightarrow> content);
              dk = dk\<lparr>dk_routing := Some routing\<rparr>
          in bind_res (read_records 24 deserializeRoutingEntry put_route (replicate 24 0) routing db)
               (\<lambda>db. Inr (db, dk))))"

section \<open>Reading what was written\<close>

context record_codec
begin

text \<open>A file of whole records is read record by record.\<close>

lemma read_records_concat:
  assumes "0 < width" and "length buf = width"
  shows "read_records width dec load buf (concat (map enc xs)) db =
    fold_res load (map norm xs) db"
  using assms(2)
proof (induction xs arbitrary: buf db)
  case (Cons x xs)
  have "enc x \<noteq> []"
    using enc_width [of x] assms(1) by auto
  then show ?case
    using Cons assms(1) by (subst read_records.simps) (simp add: enc_width dec_enc Let_def cong: bind_res_cong)
qed (simp add: read_records.simps)

end

text \<open>The registrations of an address file, and the file that holds them.\<close>

definition address_file :: "u64 \<Rightarrow> addressInfo list \<Rightarrow> u8 list" where
  "address_file h infos = serializeBlockHeight h @ concat (map addressInfo_bytes infos)"

lemma length_serializeBlockHeight [simp]: "length (serializeBlockHeight h) = 8"
  by (simp add: serializeBlockHeight_def)

lemma address_file_overwrite [simp]:
  "overwrite (serializeBlockHeight h') (address_file h infos) = address_file h' infos"
  by (simp add: overwrite_def address_file_def)

lemma address_file_append [simp]:
  "address_file h infos @ addressInfo_bytes info = address_file h (infos @ [info])"
  by (simp add: address_file_def)

definition routing_file :: "routingEntry list \<Rightarrow> u8 list" where
  "routing_file es = concat (map serializeRoutingEntry es)"

lemma read_routing:
  "read_records 24 deserializeRoutingEntry put_route (replicate 24 0) (routing_file es) db =
   fold_res put_route es db"
  using entry_codec.read_records_concat [of "replicate 24 0" put_route es db]
  by (simp add: routing_file_def)

lemma read_addresses:
  "read_records 81 deserializeAddressInfo addAddressToDB (replicate 81 0)
     (concat (map addressInfo_bytes infos)) db = fold_res addAddressToDB (map stored_info infos) db"
  using info_codec.read_records_concat [of "replicate 81 0" addAddressToDB infos db] by simp

lemma ReadDBFromDisk_files:
  assumes "dk_address dk = Some (address_file h infos)"
    and "dk_routing dk = None \<and> es = [] \<or> dk_routing dk = Some (routing_file es)"
  shows "ReadDBFromDisk dataPath dk =
    bind_res (fold_res addAddressToDB (map stored_info infos) ((createDB dataPath)\<lparr>db_height := h\<rparr>))
      (\<lambda>db. bind_res (fold_res put_route es db)
        (\<lambda>db. Inr (db, dk\<lparr>dk_routing := Some (routing_file es)\<rparr>)))"
proof -
  have content: "8 \<le> length (address_file h infos)"
    "take 8 (address_file h infos) = serializeBlockHeight h"
    "drop 8 (address_file h infos) = concat (map addressInfo_bytes infos)"
    by (auto simp: address_file_def)
  have nonempty: "address_file h infos \<noteq> []"
    using content(1) by auto
  have height: "deserializeBlockHeight (serializeBlockHeight h) = Inr h"
    by (rule height_codec.dec_enc_id)
  have routing: "(case dk_routing dk of None \<Rightarrow> [] | Some content \<Rightarrow> content) = routing_file es"
    using assms(2) by (auto simp: routing_file_def)
  have same: "dk\<lparr>dk_address := Some (address_file h infos)\<rparr> = dk"
    using assms(1) by simp
  show ?thesis
    unfolding ReadDBFromDisk_def Let_def
    by (simp add: assms(1) same content nonempty height updateBlockHeight_def read_addresses read_routing routing
        bind_res_assoc min_def)
qed

section \<open>Loading\<close>

lemma stored_info_simps [simp]:
  "ai_address (stored_info info) = ai_address info"
  "ai_nodePubKey (stored_info info) = ai_nodePubKey info"
  "ai_registrationHeight (stored_info info) = ai_registrationHeight info"
  "ai_routingEntry (stored_info info) = None"
  by (simp_all add: stored_info_def)

text \<open>Registrations loaded into a database without routes.\<close>

lemma load_registry:
  assumes "db_ok db" and "db_routingEntriesStack db = []" and "\<forall>i \<in> set infos. ai_routingEntry i = None"
  shows "\<exists>db'. fold_res addAddressToDB infos db = Inr db' \<and> db_ok db' \<and> db_routingEntriesStack db' = [] \<and>
    addr_map db' = addr_map db ++ map_of (map (\<lambda>i. (ai_address i, i)) (rev infos)) \<and>
    db_keyToAddressMap db' = db_keyToAddressMap db ++
      map_of (map (\<lambda>i. (ai_nodePubKey i, byteToBit (ai_address i))) (rev infos)) \<and>
    db_height db' = db_height db"
  using assms
proof (induction infos rule: rev_induct)
  case (snoc info infos)
  then obtain db1 where db1: "fold_res addAddressToDB infos db = Inr db1" "db_ok db1"
    "db_routingEntriesStack db1 = []"
    "addr_map db1 = addr_map db ++ map_of (map (\<lambda>i. (ai_address i, i)) (rev infos))"
    "db_keyToAddressMap db1 = db_keyToAddressMap db ++
      map_of (map (\<lambda>i. (ai_nodePubKey i, byteToBit (ai_address i))) (rev infos))"
    "db_height db1 = db_height db"
    by auto
  have "can_register db1 info"
    using db1(2,3) snoc.prems(3) by (simp add: no_routes_can_register)
  then show ?case
    by (rule_tac addAddressToDB_spec [OF db1(2), of info]) (use db1 in \<open>simp add: fold_res_append map_add_def fun_eq_iff\<close>)
qed simp

lemma load_stored:
  "\<exists>db. fold_res addAddressToDB (map stored_info infos) ((createDB p)\<lparr>db_height := h\<rparr>) = Inr db \<and>
    db_ok db \<and> db_routingEntriesStack db = [] \<and> db_height db = h \<and>
    addr_map db = map_of (map (\<lambda>i. (ai_address i, stored_info i)) (rev infos)) \<and>
    db_keyToAddressMap db = map_of (map (\<lambda>i. (ai_nodePubKey i, byteToBit (ai_address i))) (rev infos))"
proof -
  let ?db = "(createDB p)\<lparr>db_height := h\<rparr>"
  have "db_ok ?db"
    by (simp add: db_ok_createDB)
  moreover have "db_routingEntriesStack ?db = []" "db_keyToAddressMap ?db = Map.empty" "addr_map ?db = Map.empty"
    by (simp_all add: fun_eq_iff) (simp_all add: createDB_def createRoutingStack_def)
  ultimately show ?thesis
    using load_registry [of ?db "map stored_info infos"] by (auto simp: rev_map comp_def)
qed

lemma registered_stored:
  "addr_map db = map_of (map (\<lambda>i. (ai_address i, stored_info i)) (rev infos)) \<Longrightarrow>
   registered db a \<longleftrightarrow> a \<in> ai_address ` set infos"
  by (simp add: registered_def map_of_eq_None_iff image_image)

text \<open>Routes with distinct destinations come onto the stack in reverse order.\<close>

lemma put_routes:
  assumes "db_ok db" and "\<forall>e \<in> set es. registered db (re_destination e)"
    and "distinct (map re_destination es)"
    and "\<forall>e \<in> set es. \<forall>x \<in> set (stacked db). re_destination x \<noteq> re_destination e"
  shows "\<exists>db'. fold_res put_route es db = Inr db' \<and> db_ok db' \<and>
    stacked db' = rev es @ stacked db \<and> db_height db' = db_height db"
  using assms
proof (induction es arbitrary: db)
  case (Cons e es)
  obtain db1 where db1: "put_route e db = Inr db1" "db_ok db1" "db_height db1 = db_height db"
    "\<forall>a. registered db1 a = registered db a"
    "stacked db1 = e # filter (\<lambda>x. re_destination x \<noteq> re_destination e) (stacked db)"
    using put_route_spec [OF Cons.prems(1), of e] Cons.prems(2) by auto
  have stacked: "stacked db1 = e # stacked db"
    using db1(5) Cons.prems(4) by (simp add: filter_id_conv)
  have "\<exists>db'. fold_res put_route es db1 = Inr db' \<and> db_ok db' \<and> stacked db' = rev es @ stacked db1 \<and>
      db_height db' = db_height db1"
    by (rule Cons.IH [OF db1(2)]) (use Cons.prems db1(4) stacked in \<open>auto simp: image_iff\<close>)
  then show ?case
    using db1(1,3) stacked by auto
qed simp

section \<open>Properties\<close>

text \<open>
  The address file follows the database. Where the file holds a height and a list of
  registrations, saving one more appends its record and moves nothing, and \<open>updateBlockHeight\<close>
  replaces the height alone, in memory and on disk.
\<close>

lemma address_file_updates:
  assumes "dk_address dk = Some (address_file h infos)"
  shows "saveAddressToFile info dk = Inr (dk\<lparr>dk_address := Some (address_file h (infos @ [info]))\<rparr>) \<and>
    updateBlockHeight h' (db, dk) =
      Inr (db\<lparr>db_height := h'\<rparr>, dk\<lparr>dk_address := Some (address_file h' infos)\<rparr>)"
  using assms by (simp add: saveAddressToFile_def updateBlockHeight_def)

text \<open>
  Restarting keeps the registry. Reading the address file of a list of registrations gives a
  well-formed database at the saved height in which exactly the saved addresses are registered
  and every public key is found at the last address it registered; with distinct addresses, each
  leads to its public key. The address file is left as it was.
\<close>

lemma restart_keeps_registry:
  assumes "dk_address dk = Some (address_file h infos)" and "dk_routing dk = None"
  shows "\<exists>db dk'. ReadDBFromDisk dataPath dk = Inr (db, dk') \<and> db_ok db \<and> getBlockHeight db = h \<and>
    dk_address dk' = dk_address dk \<and>
    (\<forall>a. IsAddressRegistered db a = Inr (a \<in> ai_address ` set infos)) \<and>
    (\<forall>pk. GetNodeAddress db pk = Inr (case map_of (map (\<lambda>i. (ai_nodePubKey i, ai_address i)) (rev infos)) pk of
        None \<Rightarrow> (0, False) | Some a \<Rightarrow> (a, True))) \<and>
    (distinct (map ai_address infos) \<longrightarrow>
      (\<forall>i \<in> set infos. GetAddressNode db (ai_address i) = Inr (ai_nodePubKey i)))"
proof -
  obtain db where db: "fold_res addAddressToDB (map stored_info infos) ((createDB dataPath)\<lparr>db_height := h\<rparr>) = Inr db"
      "db_ok db" "db_height db = h"
      "addr_map db = map_of (map (\<lambda>i. (ai_address i, stored_info i)) (rev infos))"
      "db_keyToAddressMap db = map_of (map (\<lambda>i. (ai_nodePubKey i, byteToBit (ai_address i))) (rev infos))"
    using load_stored by blast
  have read: "ReadDBFromDisk dataPath dk = Inr (db, dk\<lparr>dk_routing := Some (routing_file [])\<rparr>)"
    using db(1) assms by (simp add: ReadDBFromDisk_files)
  have found: "addr_map db (ai_address i) = Some (stored_info i)"
    if "distinct (map ai_address infos)" "i \<in> set infos" for i
    unfolding db(4) by (rule map_of_is_SomeI) (use that in \<open>auto simp: comp_def rev_map [symmetric]\<close>)
  have index: "db_keyToAddressMap db pk =
      map_option byteToBit (map_of (map (\<lambda>i. (ai_nodePubKey i, ai_address i)) (rev infos)) pk)" for pk
    unfolding db(5) by (induction infos rule: rev_induct) auto
  show ?thesis
    using read db(2,3) found registered_stored [OF db(4)]
    by (intro exI [of _ db] exI)
      (auto simp: getBlockHeight_def IsAddressRegistered_eq GetNodeAddress_eq GetAddressNode_eq index
        split: option.splits)
qed

end
