(* ===== verification/Route_Search.thy ===== *)
theory Route_Search
  imports Wire_Format Routing_Properties
begin

text \<open>
  Building a route (\<open>ldrlib/routing.go\<close>): \<open>createRoute\<close> at the sender, and \<open>addHopToRoute\<close> at
  every node the route request passes, which appends the next hop towards the destination and
  lowers the capacity of the route.
\<close>

section \<open>Operations\<close>

text \<open>The ten random bytes of the token are an argument.\<close>

definition createRoute :: "u8 list \<Rightarrow> address \<Rightarrow> Route" where
  "createRoute routeTokenBytes destination =
     \<lparr>rt_destination = destination, rt_capacity = 0, rt_hops = [], rt_token = routeTokenBytes\<rparr>"

fun hop_capacity :: "string \<Rightarrow> nat \<Rightarrow> Channel list \<Rightarrow> i64 \<Rightarrow> i64" where
  "hop_capacity hopPubKey hops [] c = c"
| "hop_capacity hopPubKey hops (ch # chs) c = hop_capacity hopPubKey hops chs
     (if ch_RemotePubkey ch = hopPubKey \<and> (hops = 0 \<or> ch_LocalBalance ch <s c)
      then ch_LocalBalance ch else c)"

definition addHopToRoute :: "Lnd \<Rightarrow> DB \<Rightarrow> Route \<Rightarrow> (go_error + address \<times> Route) res" where
  "addHopToRoute client db route =
     bind_res (getRoutingEntry db (rt_destination route)) (\<lambda>found.
     case found of
       None \<Rightarrow> Inr (Inl (''No routing information for '' @ ip_string (rt_destination route)))
     | Some r \<Rightarrow>
         let routingEntry = db_entries db r in
         bind_res (GetAddressNode db (re_nextHop routingEntry)) (\<lambda>hopPubKey.
         bind_res (GetLocalChannels client) (\<lambda>localChannels.
         Inr (Inr (re_nextHop routingEntry,
           route\<lparr>rt_capacity := hop_capacity (PubKeyArrayToString hopPubKey) (length (rt_hops route))
                   localChannels (rt_capacity route),
                 rt_hops := rt_hops route @ [re_nextHop routingEntry]\<rparr>)))))"

section \<open>Facts\<close>

lemma hop_capacity_later: "hops \<noteq> 0 \<Longrightarrow> hop_capacity key hops chs c = channel_limit key chs c"
  by (induction chs arbitrary: c) auto

lemma hop_capacity_first:
  "hop_capacity key 0 chs c =
     (case filter (\<lambda>ch. ch_RemotePubkey ch = key) chs of
        [] \<Rightarrow> c | x # xs \<Rightarrow> ch_LocalBalance (last (x # xs)))"
  by (induction chs arbitrary: c) (auto split: list.splits)

definition hop_key :: "DB \<Rightarrow> address \<Rightarrow> pubkey" where
  "hop_key db a = (case addr_map db a of None \<Rightarrow> 0 | Some info \<Rightarrow> ai_nodePubKey info)"

lemma addHopToRoute_eq:
  assumes "db_ok db" and "rpc_ListChannels client = Inr chs"
  shows "addHopToRoute client db route =
    (if \<not> registered db (rt_destination route) then Inl NilDeref
     else case route_map db (rt_destination route) of
       None \<Rightarrow> Inr (Inl (''No routing information for '' @ ip_string (rt_destination route)))
     | Some e \<Rightarrow> Inr (Inr (re_nextHop e,
         route\<lparr>rt_capacity := hop_capacity (PubKeyArrayToString (hop_key db (re_nextHop e)))
                 (length (rt_hops route)) chs (rt_capacity route),
               rt_hops := rt_hops route @ [re_nextHop e]\<rparr>)))"
  using assms(1)
  by (auto simp: addHopToRoute_def getRoutingEntry_eq GetAddressNode_eq GetLocalChannels_def assms(2)
      registered_def route_map_def hop_key_def Let_def split: option.splits)

text \<open>
  The nodes a request passes: each adds its hop to the route it received, and stops at the first
  error or fault.
\<close>

fun collect_hops :: "(Lnd \<times> DB) list \<Rightarrow> Route \<Rightarrow> (go_error + Route) res" where
  "collect_hops [] route = Inr (Inr route)"
| "collect_hops ((client, db) # nodes) route =
     bind_res (addHopToRoute client db route) (\<lambda>r. case r of
       Inl err \<Rightarrow> Inr (Inl err)
     | Inr (_, route) \<Rightarrow> collect_hops nodes route)"

section \<open>Properties\<close>

text \<open>
  Adding a hop. On a well-formed database, with lnd answering, \<open>addHopToRoute\<close> panics for an
  unregistered destination and returns an error for one without a route. Otherwise it appends the
  next hop of the route to the destination and keeps destination and token. The first hop sets the
  capacity to the balance of the last listed channel with the next hop; a later one lowers it to
  the least balance.
\<close>

lemma addHopToRoute_adds_hop:
  assumes "db_ok db" and "rpc_ListChannels client = Inr chs"
  shows "(addHopToRoute client db route = Inl NilDeref \<longleftrightarrow> \<not> registered db (rt_destination route)) \<and>
    (registered db (rt_destination route) \<longrightarrow>
      (case route_map db (rt_destination route) of
         None \<Rightarrow> \<exists>err. addHopToRoute client db route = Inr (Inl err)
       | Some e \<Rightarrow> \<exists>route'. addHopToRoute client db route = Inr (Inr (re_nextHop e, route')) \<and>
           rt_hops route' = rt_hops route @ [re_nextHop e] \<and>
           rt_destination route' = rt_destination route \<and> rt_token route' = rt_token route \<and>
           (rt_hops route = [] \<longrightarrow> rt_capacity route' =
             (case filter (\<lambda>ch. ch_RemotePubkey ch = PubKeyArrayToString (hop_key db (re_nextHop e))) chs of
                [] \<Rightarrow> rt_capacity route | x # xs \<Rightarrow> ch_LocalBalance (last (x # xs)))) \<and>
           (rt_hops route \<noteq> [] \<longrightarrow> rt_capacity route' \<le>s rt_capacity route \<and>
             (\<forall>ch \<in> set chs. ch_RemotePubkey ch = PubKeyArrayToString (hop_key db (re_nextHop e)) \<longrightarrow>
                rt_capacity route' \<le>s ch_LocalBalance ch))))"
proof (cases "route_map db (rt_destination route)")
  case None
  then show ?thesis
    by (auto simp: addHopToRoute_eq [OF assms])
next
  case (Some e)
  then have "registered db (rt_destination route)"
    by (auto simp: route_map_Some registered_def)
  with Some show ?thesis
    by (simp add: addHopToRoute_eq [OF assms] hop_capacity_later hop_capacity_first channel_limit_le
        channel_limit_balance)
qed

end
