(* ===== verification/Crypto_Seq.thy ===== *)
theory Crypto_Seq
  imports LDR_Prelude
begin

text \<open>
  The message protection of \<open>ldrlib/crypto.go\<close>: the sequence number of a connection, the nonce
  made from it, and the AES-GCM calls. The cipher itself (Go's \<open>crypto/aes\<close> and
  \<open>crypto/cipher\<close>) is an argument of the definitions that call it. The sequence number is a
  counter: the contract \<open>counter\<close> states what the uniqueness of nonces rests on.
\<close>

section \<open>Connections\<close>

text \<open>
  \<open>connInfo\<close> of \<open>ldrlib/networking.go\<close>; \<open>ci_conn\<close> names the TCP connection, \<open>ci_locked\<close> is the
  state of the mutex.
\<close>

record connInfo =
  ci_locked :: bool
  ci_conn :: nat
  ci_sessionKey :: "u8 list"
  ci_baseIV :: "u8 list"
  ci_seqNumber :: "u8 list"

definition AESKeySize :: nat where "AESKeySize = 16"

definition AESBaseIVSize :: nat where "AESBaseIVSize = 12"

definition AESStartSeqSize :: nat where "AESStartSeqSize = 12"

section \<open>Sequence number and nonce\<close>

text \<open>The loop of \<open>incrementSeqNumber\<close>: \<open>increment_from (index + 1)\<close> continues at \<open>index\<close>.\<close>

fun increment_from :: "nat \<Rightarrow> u8 list \<Rightarrow> u8 list" where
  "increment_from 0 seq = seq"
| "increment_from (Suc i) seq =
     (if seq ! i < 255 then seq[i := seq ! i + 1] else increment_from i (seq[i := 0]))"

definition incrementSeqNumber :: "connInfo \<Rightarrow> connInfo" where
  "incrementSeqNumber conn =
     conn\<lparr>ci_seqNumber := increment_from (length (ci_seqNumber conn)) (ci_seqNumber conn)\<rparr>"

definition getNonce :: "u8 list \<Rightarrow> u8 list \<Rightarrow> u8 list res" where
  "getNonce baseIV seq =
     map_res (\<lambda>i. bind_res (index baseIV i) (\<lambda>b. bind_res (index seq i) (\<lambda>s. Inr (b XOR s))))
       [0..<length baseIV]"

section \<open>AES-GCM\<close>

record aead =
  gcm_Seal :: "u8 list \<Rightarrow> u8 list \<Rightarrow> u8 list \<Rightarrow> u8 list"
  gcm_Open :: "u8 list \<Rightarrow> u8 list \<Rightarrow> u8 list \<Rightarrow> go_error + u8 list"

definition gcm_checked :: "u8 list \<Rightarrow> u8 list \<Rightarrow> 'a res \<Rightarrow> 'a res" where
  "gcm_checked key nonce m =
     (if length key \<notin> {16, 24, 32} then Inl (Fatal ''crypto/aes: invalid key size'')
      else if length nonce \<noteq> 12 then Inl (Panic ''crypto/cipher: incorrect nonce length given to GCM'')
      else m)"

definition encryptAES :: "aead \<Rightarrow> u8 list \<Rightarrow> u8 list \<Rightarrow> u8 list \<Rightarrow> u8 list res" where
  "encryptAES c key nonce message = gcm_checked key nonce (Inr (gcm_Seal c key nonce message))"

definition decryptAES :: "aead \<Rightarrow> u8 list \<Rightarrow> u8 list \<Rightarrow> u8 list \<Rightarrow> u8 list res" where
  "decryptAES c key nonce message = gcm_checked key nonce (or_fatal (gcm_Open c key nonce message))"

section \<open>Counters\<close>

locale counter =
  fixes val :: "'s \<Rightarrow> nat"
    and inc :: "'s \<Rightarrow> 's"
    and ok :: "'s \<Rightarrow> bool"
    and period :: nat
  assumes ok_inc: "ok s \<Longrightarrow> ok (inc s)"
    and val_inc: "ok s \<Longrightarrow> val (inc s) = Suc (val s) mod period"
    and val_less: "ok s \<Longrightarrow> val s < period"
    and val_inject: "ok s \<Longrightarrow> ok t \<Longrightarrow> val s = val t \<Longrightarrow> s = t"
begin

lemma ok_funpow: "ok s \<Longrightarrow> ok ((inc ^^ k) s)"
  by (induction k) (simp_all add: ok_inc)

lemma val_funpow: "ok s \<Longrightarrow> val ((inc ^^ k) s) = (val s + k) mod period"
  by (induction k) (simp_all add: val_less ok_funpow val_inc mod_Suc_eq)

lemma add_mod_le:
  assumes "(v + i) mod p = (v + j) mod p" and "i \<le> j" and "j < p"
  shows "i = (j :: nat)"
proof -
  have "p dvd (v + j) - (v + i)"
    using assms(1,2) mod_eq_dvd_iff_nat [of "v + i" "v + j" p] by simp
  then have "p dvd j - i" by simp
  then show ?thesis
    using assms(2,3) by (auto dest: dvd_imp_le)
qed

lemma add_mod_inject: "(v + i) mod p = (v + j) mod p \<Longrightarrow> i < p \<Longrightarrow> j < p \<Longrightarrow> i = (j :: nat)"
  using add_mod_le [of v i p j] add_mod_le [of v j p i] by (cases "i \<le> j") auto

text \<open>States less than one period apart are different; after a whole period the state is back.\<close>

lemma funpow_inject:
  assumes "ok s" and "i < period" and "j < period"
  shows "(inc ^^ i) s = (inc ^^ j) s \<longleftrightarrow> i = j"
  using add_mod_inject [of "val s" i period j] val_funpow [OF assms(1)] assms(2,3) by metis

lemma funpow_period: "ok s \<Longrightarrow> (inc ^^ period) s = s"
  by (rule val_inject) (simp_all add: ok_funpow val_funpow val_less)

end

section \<open>The sequence number is a counter\<close>

text \<open>The value of a sequence number, most significant byte first.\<close>

fun low_first :: "u8 list \<Rightarrow> nat" where
  "low_first [] = 0"
| "low_first (b # bs) = unat b + 256 * low_first bs"

definition seq_val :: "u8 list \<Rightarrow> nat" where
  "seq_val seq = low_first (rev seq)"

fun ripple :: "u8 list \<Rightarrow> u8 list" where
  "ripple [] = []"
| "ripple (b # bs) = (if b < 255 then (b + 1) # bs else 0 # ripple bs)"

definition inc_seq :: "u8 list \<Rightarrow> u8 list" where
  "inc_seq seq = increment_from (length seq) seq"

lemma increment_from_append: "increment_from (length xs) (xs @ ys) = rev (ripple (rev xs)) @ ys"
proof (induction xs arbitrary: ys rule: rev_induct)
  case (snoc x xs)
  then show ?case
    by (simp add: nth_append list_update_append)
qed simp

lemma inc_seq_ripple: "inc_seq seq = rev (ripple (rev seq))"
  using increment_from_append [of seq "[]"] by (simp add: inc_seq_def)

lemma length_ripple [simp]: "length (ripple bs) = length bs"
  by (induction bs) auto

lemma length_inc_seq [simp]: "length (inc_seq seq) = length seq"
  by (simp add: inc_seq_ripple)

lemma byte_255: "\<not> b < 255 \<Longrightarrow> b = (255 :: u8)"
proof -
  assume "\<not> b < 255"
  then have "255 \<le> unat b" by (simp add: word_less_nat_alt)
  moreover have "unat b < 256" using unsigned_less [of b] by simp
  ultimately have "unat b = unat (255 :: u8)" by simp
  then show ?thesis by (rule word_unat_eq_iff [THEN iffD2])
qed

lemma unat_Suc_byte: "b < 255 \<Longrightarrow> unat (b + 1 :: u8) = Suc (unat b)"
  by (simp add: unat_word_ariths(1) word_less_nat_alt)

lemma low_first_less: "low_first bs < 256 ^ length bs"
proof (induction bs)
  case (Cons b bs)
  have "unat b < 256" using unsigned_less [of b] by simp
  then show ?case using Cons by simp
qed simp

lemma low_first_ripple: "low_first (ripple bs) = Suc (low_first bs) mod 256 ^ length bs"
proof (induction bs)
  case (Cons b bs)
  show ?case
  proof (cases "b < 255")
    case True
    have "Suc (low_first (b # bs)) < 256 ^ length (b # bs)"
    proof -
      have "unat b < 255" using True by (simp add: word_less_nat_alt)
      then show ?thesis using low_first_less [of bs] by simp
    qed
    then show ?thesis
      using True by (simp add: unat_Suc_byte)
  next
    case False
    then have "Suc (low_first (b # bs)) = 256 * Suc (low_first bs)"
      using byte_255 [OF False] by simp
    then show ?thesis
      using False Cons by (simp add: mult_mod_right)
  qed
qed simp

lemma byte_digit: "a < 256 \<Longrightarrow> c < 256 \<Longrightarrow> a + 256 * x = c + 256 * y \<Longrightarrow> a = (c :: nat)"
  by (drule arg_cong [where f = "\<lambda>n. n mod 256"]) simp

lemma low_first_inject: "length bs = length cs \<Longrightarrow> low_first bs = low_first cs \<Longrightarrow> bs = cs"
proof (induction bs cs rule: list_induct2)
  case (Cons b bs c cs)
  have "unat b < 256" "unat c < 256"
    using unsigned_less [of b] unsigned_less [of c] by simp_all
  moreover have eq: "unat b + 256 * low_first bs = unat c + 256 * low_first cs"
    using Cons.prems by simp
  ultimately have "unat b = unat c"
    by (rule byte_digit)
  with eq Cons.IH show ?case
    by (simp add: word_unat_eq_iff)
qed simp

interpretation seq: counter seq_val inc_seq "\<lambda>s. length s = 12" "256 ^ 12"
proof
  fix s t :: "u8 list"
  assume s: "length s = 12"
  show "length (inc_seq s) = 12"
    using s by simp
  show "seq_val (inc_seq s) = Suc (seq_val s) mod 256 ^ 12"
    using s low_first_ripple [of "rev s"] by (simp add: seq_val_def inc_seq_ripple)
  show "seq_val s < 256 ^ 12"
    using s low_first_less [of "rev s"] by (simp add: seq_val_def)
  show "s = t" if "length t = 12" "seq_val s = seq_val t"
    using s that low_first_inject [of "rev s" "rev t"] by (simp add: seq_val_def)
qed

section \<open>Nonces\<close>

lemma getNonce_eq:
  assumes "length baseIV \<le> length seq"
  shows "getNonce baseIV seq = Inr (map2 (XOR) baseIV seq)"
proof -
  have "getNonce baseIV seq = Inr (map (\<lambda>i. baseIV ! i XOR seq ! i) [0..<length baseIV])"
    unfolding getNonce_def by (rule map_res_total) (use assms in simp)
  also have "map (\<lambda>i. baseIV ! i XOR seq ! i) [0..<length baseIV] = map2 (XOR) baseIV seq"
    using assms by (intro nth_equalityI) simp_all
  finally show ?thesis .
qed

lemma getNonce_short:
  assumes "length seq < length baseIV"
  shows "\<exists>f. getNonce baseIV seq = Inl f"
  unfolding getNonce_def map_res_fault
proof (intro bexI exI)
  show "length seq \<in> set [0..<length baseIV]"
    using assms by simp
  then show "bind_res (index baseIV (length seq)) (\<lambda>b. bind_res (index seq (length seq)) (\<lambda>s. Inr (b XOR s)))
      = Inl OutOfRange"
    by (simp add: index_def)
qed

lemma map2_xor_inject:
  "length xs = length iv \<Longrightarrow> length ys = length iv \<Longrightarrow>
   map2 (XOR) iv xs = map2 (XOR) iv (ys :: u8 list) \<longleftrightarrow> xs = ys"
proof (induction iv arbitrary: xs ys)
  case (Cons b iv)
  have cancel: "b XOR x = b XOR y \<longleftrightarrow> x = y" for x y :: u8
    by (metis xor.assoc xor.left_neutral xor_self_eq)
  from Cons show ?case
    by (cases xs; cases ys) (simp_all add: cancel)
qed simp


section \<open>Properties\<close>

lemma incrementSeqNumber_eq: "incrementSeqNumber conn = conn\<lparr>ci_seqNumber := inc_seq (ci_seqNumber conn)\<rparr>"
  by (simp add: incrementSeqNumber_def inc_seq_def)

lemma incrementSeqNumber_funpow:
  "(incrementSeqNumber ^^ k) conn = conn\<lparr>ci_seqNumber := (inc_seq ^^ k) (ci_seqNumber conn)\<rparr>"
  by (induction k) (simp_all add: incrementSeqNumber_eq)

text \<open>
  The sequence number counts. \<open>incrementSeqNumber\<close> adds one to the big-endian value of the
  sequence number, modulo 256 to its length, and changes nothing else of the connection.
\<close>

lemma incrementSeqNumber_counts:
  "low_first (rev (ci_seqNumber (incrementSeqNumber conn))) =
     Suc (low_first (rev (ci_seqNumber conn))) mod 256 ^ length (ci_seqNumber conn) \<and>
   length (ci_seqNumber (incrementSeqNumber conn)) = length (ci_seqNumber conn) \<and>
   (incrementSeqNumber conn)\<lparr>ci_seqNumber := ci_seqNumber conn\<rparr> = conn"
  using low_first_ripple [of "rev (ci_seqNumber conn)"]
  by (simp add: incrementSeqNumber_eq inc_seq_ripple)

text \<open>
  C37: nonces do not repeat. On a connection with a twelve-byte base IV and sequence number, the
  nonces of the messages \<open>i\<close> and \<open>j\<close> after the present one are twelve bytes long and, for \<open>i\<close> and \<open>j\<close> below
  256 to the twelfth, equal only for \<open>i = j\<close>; after that many messages they start again.
\<close>

theorem nonces_do_not_repeat:
  assumes "length (ci_baseIV conn) = AESBaseIVSize" and "length (ci_seqNumber conn) = AESStartSeqSize"
    and "i < 256 ^ 12" and "j < 256 ^ 12"
  shows "\<exists>n m. getNonce (ci_baseIV conn) (ci_seqNumber ((incrementSeqNumber ^^ i) conn)) = Inr n \<and>
    getNonce (ci_baseIV conn) (ci_seqNumber ((incrementSeqNumber ^^ j) conn)) = Inr m \<and>
    length n = 12 \<and> (n = m \<longleftrightarrow> i = j) \<and>
    (incrementSeqNumber ^^ (256 ^ 12)) conn = conn"
proof -
  have len: "length (ci_seqNumber conn) = 12" "length (ci_baseIV conn) = 12"
    using assms(1,2) by (simp_all add: AESBaseIVSize_def AESStartSeqSize_def)
  have ok: "length ((inc_seq ^^ k) (ci_seqNumber conn)) = 12" for k
    using seq.ok_funpow len(1) by blast
  have eq: "getNonce (ci_baseIV conn) ((inc_seq ^^ k) (ci_seqNumber conn)) =
      Inr (map2 (XOR) (ci_baseIV conn) ((inc_seq ^^ k) (ci_seqNumber conn)))" for k
    by (rule getNonce_eq) (simp add: ok len)
  have "map2 (XOR) (ci_baseIV conn) ((inc_seq ^^ i) (ci_seqNumber conn)) =
      map2 (XOR) (ci_baseIV conn) ((inc_seq ^^ j) (ci_seqNumber conn)) \<longleftrightarrow> i = j"
    using seq.funpow_inject [OF len(1) assms(3,4)] by (simp add: map2_xor_inject ok len)
  moreover have "(inc_seq ^^ (256 ^ 12)) (ci_seqNumber conn) = ci_seqNumber conn"
    by (rule seq.funpow_period [OF len(1)])
  ultimately show ?thesis
    unfolding incrementSeqNumber_funpow using eq ok len by simp
qed

definition example_conn :: connInfo where
  "example_conn = \<lparr>ci_locked = False, ci_conn = 1, ci_sessionKey = replicate 16 7,
     ci_baseIV = replicate 12 5, ci_seqNumber = replicate 10 0 @ [3, 255]\<rparr>"

theorem nonces_do_not_repeat_witness:
  "getNonce (ci_baseIV example_conn) (ci_seqNumber example_conn) \<noteq>
   getNonce (ci_baseIV example_conn) (ci_seqNumber (incrementSeqNumber example_conn))"
  using nonces_do_not_repeat [of example_conn 0 1]
  by (auto simp: example_conn_def AESBaseIVSize_def AESStartSeqSize_def)

end
