(* ===== verification/Peer_Session.thy ===== *)
theory Peer_Session
  imports Messages Persistence Route_Search Crypto_Seq
begin

text \<open>
  A node and its connections (\<open>ldrlib/networking.go\<close>): forwarding a route to a peer, returning it
  to the sender, and the handler of the messages a peer sends. The bytes a node writes are
  logged per TCP connection; a write error is only logged by the source and changes nothing, so
  it is not a branch here. Printing and logging are left out.
\<close>

section \<open>Nodes\<close>

text \<open>\<open>*connInfo\<close> objects are shared between the database and the goroutines: they live in a store.\<close>

record Node =
  nd_db :: DB
  nd_conns :: "conn_ref \<Rightarrow> connInfo"
  nd_nextConn :: conn_ref
  nd_written :: "(nat \<times> u8 list) list"
  nd_closed :: "nat list"

definition new_conn :: "connInfo \<Rightarrow> Node \<Rightarrow> conn_ref \<times> Node" where
  "new_conn conn node =
     (nd_nextConn node, node\<lparr>nd_conns := (nd_conns node)(nd_nextConn node := conn),
                             nd_nextConn := Suc (nd_nextConn node)\<rparr>)"

definition upd_conn :: "conn_ref \<Rightarrow> (connInfo \<Rightarrow> connInfo) \<Rightarrow> Node \<Rightarrow> Node" where
  "upd_conn r f node = node\<lparr>nd_conns := (nd_conns node)(r := f (nd_conns node r))\<rparr>"

definition conn_write :: "conn_ref \<Rightarrow> u8 list \<Rightarrow> Node \<Rightarrow> Node" where
  "conn_write r bs node = node\<lparr>nd_written := nd_written node @ [(ci_conn (nd_conns node r), bs)]\<rparr>"

definition mutex_lock :: "conn_ref \<Rightarrow> Node \<Rightarrow> Node" where
  "mutex_lock r = upd_conn r (\<lambda>conn. conn\<lparr>ci_locked := True\<rparr>)"

definition mutex_unlock :: "conn_ref \<Rightarrow> Node \<Rightarrow> Node" where
  "mutex_unlock r = upd_conn r (\<lambda>conn. conn\<lparr>ci_locked := False\<rparr>)"

section \<open>Sending\<close>

text \<open>Nonce, encryption and the two-byte length in front, as every sender writes them.\<close>

definition seal_message :: "aead \<Rightarrow> u8 list \<Rightarrow> connInfo \<Rightarrow> u8 list res" where
  "seal_message c message conn =
     bind_res (getNonce (ci_baseIV conn) (ci_seqNumber conn)) (\<lambda>nonce.
     bind_res (encryptAES c (ci_sessionKey conn) nonce message) (\<lambda>encrypted.
     Inr (be_bytes 2 (of_nat (length encrypted) :: u16) @ encrypted)))"

definition send_message :: "aead \<Rightarrow> conn_ref \<Rightarrow> u8 list \<Rightarrow> Node \<Rightarrow> Node res" where
  "send_message c r message node =
     bind_res (seal_message c message (nd_conns node r)) (\<lambda>encryptedMessage.
     Inr (upd_conn r incrementSeqNumber (conn_write r encryptedMessage node)))"

definition ForwardRoute :: "aead \<Rightarrow> Route \<Rightarrow> address \<Rightarrow> Node \<Rightarrow> Node res" where
  "ForwardRoute c route address node =
     bind_res (getPeerConn (nd_db node) address) (\<lambda>conn. case conn of
       None \<Rightarrow> Inl NilDeref
     | Some r \<Rightarrow> (case createForwardRouteMessage route of
         Inl _ \<Rightarrow> send_message c r [] node
       | Inr serializedRoute \<Rightarrow> send_message c r serializedRoute node))"

definition closeDestConnection :: "token \<Rightarrow> Node \<Rightarrow> Node res" where
  "closeDestConnection token node =
     (case getDestConn (nd_db node) token of
        None \<Rightarrow> Inl NilDeref
      | Some r \<Rightarrow> Inr (node\<lparr>nd_closed := ci_conn (nd_conns node r) # nd_closed node,
                            nd_db := removeDestConnFromDB token (nd_db node)\<rparr>))"

definition sendRouteToSender :: "Route \<Rightarrow> Node \<Rightarrow> Node res" where
  "sendRouteToSender route node =
     (case getDestConn (nd_db node) (rt_token route) of
        None \<Rightarrow> Inl NilDeref
      | Some r \<Rightarrow> closeDestConnection (rt_token route) (conn_write r (serializeRoute route) node))"

text \<open>
  The bytes the first \<open>Read\<close> delivers are an argument. The hop count is decoded from a fresh
  buffer that is never read into, as in the source.
\<close>

definition ReceiveRouteFromDestination :: "u8 list \<Rightarrow> token \<Rightarrow> Node \<Rightarrow> (Route \<times> Node) res" where
  "ReceiveRouteFromDestination delivered token node =
     (case getDestConn (nd_db node) token of
        None \<Rightarrow> Inl NilDeref
      | Some r \<Rightarrow>
          let headerBytes = take (4 + 10 + 8) delivered @ replicate (4 + 10 + 8 - length delivered) 0;
              numberHopsBytes = replicate 2 0
          in bind_res (le_get 2 numberHopsBytes) (\<lambda>numberHops.
             let hopsBytes = replicate (unat (numberHops * 4 :: u16)) 0
             in bind_res (closeDestConnection token node) (\<lambda>node.
                bind_res (deserializeRoute (headerBytes @ numberHopsBytes @ hopsBytes)) (\<lambda>route.
                Inr (route, node)))))"

section \<open>The message handler\<close>

text \<open>
  What an iteration of a goroutine's loop comes to: it goes on, it has returned, or it waits for a
  mutex that is locked.
\<close>

datatype outcome = Continues Node | Returns Node | Blocks Node

text \<open>The start of \<open>handlePeerConnection\<close>, before its loop.\<close>

definition open_peer_session :: "nat \<Rightarrow> u8 list \<Rightarrow> u8 list \<Rightarrow> u8 list \<Rightarrow> pubkey \<Rightarrow> Node \<Rightarrow> (conn_ref \<times> Node) res" where
  "open_peer_session conn sessionKey baseIV startSeq peerPubKey node =
     (let (peerConnInfo, node) = new_conn \<lparr>ci_locked = False, ci_conn = conn, ci_sessionKey = sessionKey,
            ci_baseIV = baseIV, ci_seqNumber = startSeq\<rparr> node
      in bind_res (GetNodeAddress (nd_db node) peerPubKey) (\<lambda>(address, _).
         bind_res (addPeerConnToDB address peerConnInfo (nd_db node)) (\<lambda>db.
         Inr (peerConnInfo, node\<lparr>nd_db := db\<rparr>))))"

text \<open>An iteration of the loop, from the encrypted message it has read.\<close>

definition handle_forward :: "aead \<Rightarrow> Lnd \<Rightarrow> u8 list \<Rightarrow> Node \<Rightarrow> Node res" where
  "handle_forward c lnClient message node =
     bind_res (processForwardRouteMessage message) (\<lambda>processed. case processed of
       Inl err \<Rightarrow> Inl NilDeref
     | Inr route \<Rightarrow>
         if rt_destination route = getLocalAddress (nd_db node) then sendRouteToSender route node
         else bind_res (addHopToRoute lnClient (nd_db node) route) (\<lambda>hop. case hop of
           Inl err \<Rightarrow> ForwardRoute c route 0 node
         | Inr (localHop, route) \<Rightarrow> ForwardRoute c route localHop node))"

definition handle_plain :: "aead \<Rightarrow> Lnd \<Rightarrow> pubkey \<Rightarrow> conn_ref \<Rightarrow> u8 list \<Rightarrow> Node \<Rightarrow> outcome res" where
  "handle_plain c lnClient peerPubKey r message node =
     bind_res (bind_res (slice 0 2 message) (be_get 2)) (\<lambda>messageType.
     if messageType = tableRequestType then
       bind_res (processTableRequest (nd_db node) message) (\<lambda>processed. case processed of
         Inl err \<Rightarrow> Inr (Returns node)
       | Inr response \<Rightarrow> bind_res (send_message c r response node) (\<lambda>node.
           Inr (Continues (mutex_unlock r node))))
     else if messageType = tableResponseType then
       bind_res (processTableResponse lnClient peerPubKey message (nd_db node)) (\<lambda>(err, db).
         case err of
           Some _ \<Rightarrow> Inr (Returns (node\<lparr>nd_db := db\<rparr>))
         | None \<Rightarrow> Inr (Continues (mutex_unlock r (node\<lparr>nd_db := db\<rparr>))))
     else if messageType = forwardRouteType then
       bind_res (handle_forward c lnClient message node) (\<lambda>node. Inr (Continues (mutex_unlock r node)))
     else Inr (Returns node))"

definition open_message :: "aead \<Rightarrow> u8 list \<Rightarrow> connInfo \<Rightarrow> u8 list res" where
  "open_message c encryptedMessage conn =
     bind_res (getNonce (ci_baseIV conn) (ci_seqNumber conn)) (\<lambda>nonce.
     decryptAES c (ci_sessionKey conn) nonce encryptedMessage)"

definition handle_message :: "aead \<Rightarrow> Lnd \<Rightarrow> pubkey \<Rightarrow> conn_ref \<Rightarrow> u8 list \<Rightarrow> Node \<Rightarrow> outcome res" where
  "handle_message c lnClient peerPubKey r encryptedMessage node =
     (if ci_locked (nd_conns node r) then Inr (Blocks node)
      else let node = mutex_lock r node in
        bind_res (open_message c encryptedMessage (nd_conns node r)) (\<lambda>message.
        handle_plain c lnClient peerPubKey r message (upd_conn r incrementSeqNumber node)))"

text \<open>
  \<open>conn.Read\<close> fills a buffer from what TCP has delivered: at most the bytes that are there, so a call
  may return fewer than the buffer has room for. The incoming bytes are therefore a list of segments, of
  which a \<open>Read\<close> takes at most the first; any way the bytes can become available is such a list.
  The source ignores the count \<open>Read\<close> returns: what is missing stays zero. An empty buffer is filled
  at once, and at the end of the stream \<open>Read\<close> fails.
\<close>

definition conn_read :: "nat \<Rightarrow> u8 list list \<Rightarrow> (u8 list \<times> u8 list list) option" where
  "conn_read n segments =
     (if n = 0 then Some ([], segments)
      else case dropWhile (\<lambda>s. s = []) segments of
        [] \<Rightarrow> None
      | s # rest \<Rightarrow> Some (take n s @ replicate (n - length s) 0,
                     (if length s \<le> n then rest else drop n s # rest)))"

text \<open>The two reads of the loop: the length, and a buffer of that length.\<close>

definition read_frame :: "u8 list list \<Rightarrow> (u8 list \<times> u8 list list) option" where
  "read_frame segments =
     (case conn_read 2 segments of
        None \<Rightarrow> None
      | Some (encryptedMessageLengthBytes, segments) \<Rightarrow>
          conn_read (unat (be_val encryptedMessageLengthBytes :: u16)) segments)"

lemma length_concat_dropWhile: "length (concat (dropWhile (\<lambda>s. s = []) segments)) = length (concat segments)"
  by (induction segments) simp_all

lemma dropWhile_empty_Cons: "dropWhile (\<lambda>s. s = []) segments = s # rest \<Longrightarrow> s \<noteq> []"
  by (induction segments) (auto split: if_splits)

lemma conn_read_shorter:
  assumes "conn_read n segments = Some (bs, rest)"
  shows "length (concat rest) \<le> length (concat segments)" "n \<noteq> 0 \<Longrightarrow> length (concat rest) < length (concat segments)"
proof -
  have less: "length (concat rest) < length (concat segments)" if n: "n \<noteq> 0"
  proof -
    obtain s more where s: "dropWhile (\<lambda>s. s = []) segments = s # more"
        "rest = (if length s \<le> n then more else drop n s # more)"
      using assms n by (auto simp: conn_read_def split: list.split_asm if_split_asm)
    have "length (concat segments) = length s + length (concat more)"
      using length_concat_dropWhile [of segments] s(1) by simp
    then show ?thesis
      using s(2) n dropWhile_empty_Cons [OF s(1)] by (cases "length s \<le> n") simp_all
  qed
  then show "n \<noteq> 0 \<Longrightarrow> length (concat rest) < length (concat segments)" .
  show "length (concat rest) \<le> length (concat segments)"
    using assms less by (cases "n = 0") (simp_all add: conn_read_def less_imp_le)
qed

lemma read_frame_shorter:
  assumes "read_frame segments = Some (bs, rest)"
  shows "length (concat rest) < length (concat segments)"
proof -
  obtain len more where *: "conn_read 2 segments = Some (len, more)" "conn_read (unat (be_val len :: u16)) more = Some (bs, rest)"
    using assms by (auto simp: read_frame_def split: option.split_asm)
  then show ?thesis
    using conn_read_shorter(2) [OF *(1)] conn_read_shorter(1) [OF *(2)] by simp
qed

function handlePeerConnection :: "aead \<Rightarrow> Lnd \<Rightarrow> pubkey \<Rightarrow> conn_ref \<Rightarrow> u8 list list \<Rightarrow> Node \<Rightarrow> outcome res" where
  "handlePeerConnection c lnClient peerPubKey r segments node =
     (case read_frame segments of
        None \<Rightarrow> Inr (Returns node)
      | Some (encryptedMessage, rest) \<Rightarrow>
          bind_res (handle_message c lnClient peerPubKey r encryptedMessage node) (\<lambda>out. case out of
            Continues node \<Rightarrow> handlePeerConnection c lnClient peerPubKey r rest node
          | _ \<Rightarrow> Inr out))"
  by pat_completeness auto
termination
  by (relation "measure (\<lambda>(_, _, _, _, segments, _). length (concat segments))") (auto dest: read_frame_shorter)

declare handlePeerConnection.simps [simp del]

text \<open>
  An iteration of \<open>sendTableRequestPeriodically\<close> on the connection it has looked up, in two parts: the
  request is sealed under the mutex, then written and counted. Other goroutines can run in between.
\<close>

definition request_sealed :: "aead \<Rightarrow> conn_ref \<Rightarrow> u8 list \<Rightarrow> Node \<Rightarrow> (u8 list \<times> Node) res" where
  "request_sealed c r request node =
     (let node = mutex_lock r node in
      bind_res (seal_message c request (nd_conns node r)) (\<lambda>encryptedMessage. Inr (encryptedMessage, node)))"

definition request_sent :: "conn_ref \<Rightarrow> u8 list \<Rightarrow> Node \<Rightarrow> Node" where
  "request_sent r encryptedMessage node =
     mutex_unlock r (upd_conn r incrementSeqNumber (conn_write r encryptedMessage node))"

definition send_table_request :: "aead \<Rightarrow> conn_ref \<Rightarrow> Node \<Rightarrow> outcome res" where
  "send_table_request c r node =
     (case createTableRequest genesisBlock of
        Inl err \<Rightarrow> Inr (Returns node)
      | Inr request \<Rightarrow>
          if ci_locked (nd_conns node r) then Inr (Blocks node)
          else bind_res (request_sealed c r request node) (\<lambda>(encryptedMessage, node).
               Inr (Continues (request_sent r encryptedMessage node))))"

definition sendTableRequestPeriodically :: "aead \<Rightarrow> address \<Rightarrow> Node \<Rightarrow> outcome res" where
  "sendTableRequestPeriodically c address node =
     bind_res (getPeerConn (nd_db node) address) (\<lambda>conn. case conn of
       None \<Rightarrow> Inl NilDeref
     | Some r \<Rightarrow> send_table_request c r node)"

section \<open>Facts\<close>

lemma upd_conn_simps [simp]:
  "nd_db (upd_conn r f node) = nd_db node"
  "nd_written (upd_conn r f node) = nd_written node"
  "nd_conns (upd_conn r f node) = (nd_conns node)(r := f (nd_conns node r))"
  "nd_closed (upd_conn r f node) = nd_closed node"
  by (simp_all add: upd_conn_def)

lemma conn_write_simps [simp]:
  "nd_db (conn_write r bs node) = nd_db node"
  "nd_conns (conn_write r bs node) = nd_conns node"
  "nd_written (conn_write r bs node) = nd_written node @ [(ci_conn (nd_conns node r), bs)]"
  "nd_closed (conn_write r bs node) = nd_closed node"
  by (simp_all add: conn_write_def)

lemma mutex_simps [simp]:
  "nd_db (mutex_lock r node) = nd_db node" "nd_db (mutex_unlock r node) = nd_db node"
  "nd_written (mutex_lock r node) = nd_written node" "nd_written (mutex_unlock r node) = nd_written node"
  "nd_conns (mutex_lock r node) = (nd_conns node)(r := (nd_conns node r)\<lparr>ci_locked := True\<rparr>)"
  "nd_conns (mutex_unlock r node) = (nd_conns node)(r := (nd_conns node r)\<lparr>ci_locked := False\<rparr>)"
  by (simp_all add: mutex_lock_def mutex_unlock_def)

lemma incrementSeqNumber_simps [simp]:
  "ci_locked (incrementSeqNumber conn) = ci_locked conn"
  "ci_conn (incrementSeqNumber conn) = ci_conn conn"
  "ci_sessionKey (incrementSeqNumber conn) = ci_sessionKey conn"
  "ci_baseIV (incrementSeqNumber conn) = ci_baseIV conn"
  "ci_seqNumber (incrementSeqNumber conn) = inc_seq (ci_seqNumber conn)"
  by (simp_all add: incrementSeqNumber_eq)

text \<open>A connection after the handshake: a valid key, IV and sequence number.\<close>

definition session_ok :: "connInfo \<Rightarrow> bool" where
  "session_ok conn \<longleftrightarrow> length (ci_sessionKey conn) = AESKeySize \<and>
     length (ci_baseIV conn) = AESBaseIVSize \<and> length (ci_seqNumber conn) = AESStartSeqSize"

text \<open>The two ends of a connection agree on key, IV and sequence number.\<close>

definition in_step :: "connInfo \<Rightarrow> connInfo \<Rightarrow> bool" where
  "in_step a b \<longleftrightarrow> ci_sessionKey a = ci_sessionKey b \<and> ci_baseIV a = ci_baseIV b \<and>
     ci_seqNumber a = ci_seqNumber b"

definition nonce_of :: "connInfo \<Rightarrow> u8 list" where
  "nonce_of conn = map2 (XOR) (ci_baseIV conn) (ci_seqNumber conn)"

lemmas aes_sizes = AESKeySize_def AESBaseIVSize_def AESStartSeqSize_def

lemma session_ok_increment [simp]: "session_ok (incrementSeqNumber conn) = session_ok conn"
  by (simp add: session_ok_def)

lemma session_ok_locked [simp]: "session_ok (conn\<lparr>ci_locked := b\<rparr>) = session_ok conn"
  by (simp add: session_ok_def)

lemma seal_message_eq:
  assumes "session_ok conn"
  shows "seal_message c message conn =
    (let encrypted = gcm_Seal c (ci_sessionKey conn) (nonce_of conn) message
     in Inr (be_bytes 2 (of_nat (length encrypted) :: u16) @ encrypted))"
  using assms
  by (simp add: seal_message_def session_ok_def aes_sizes getNonce_eq encryptAES_def gcm_checked_def
      nonce_of_def Let_def)

lemma open_message_eq:
  assumes "session_ok conn"
  shows "open_message c encrypted conn = or_fatal (gcm_Open c (ci_sessionKey conn) (nonce_of conn) encrypted)"
  using assms
  by (simp add: open_message_def session_ok_def aes_sizes getNonce_eq decryptAES_def gcm_checked_def
      nonce_of_def)

lemma nonce_of_locked [simp]: "nonce_of (conn\<lparr>ci_locked := b\<rparr>) = nonce_of conn"
  by (simp add: nonce_of_def)

lemma in_step_nonce: "in_step a b \<Longrightarrow> nonce_of a = nonce_of b"
  by (simp add: in_step_def nonce_of_def)

lemma in_step_increment: "in_step a b \<Longrightarrow> in_step (incrementSeqNumber a) (incrementSeqNumber b)"
  by (simp add: in_step_def)

lemma seal_message_in_step: "in_step a b \<Longrightarrow> seal_message c m a = seal_message c m b"
  by (simp add: seal_message_def in_step_def)

lemma next_nonce_differs:
  assumes "session_ok conn"
  shows "nonce_of (incrementSeqNumber conn) \<noteq> nonce_of conn"
proof -
  have len: "length (ci_seqNumber conn) = 12" "length (ci_baseIV conn) = 12"
    using assms by (simp_all add: session_ok_def aes_sizes)
  then have "inc_seq (ci_seqNumber conn) \<noteq> ci_seqNumber conn"
    using seq.funpow_inject [of "ci_seqNumber conn" 1 0] by simp
  then show ?thesis
    using len by (simp add: nonce_of_def map2_xor_inject)
qed

end
