(* ===== verification/Session_Properties.thy ===== *)
theory Session_Properties
  imports Peer_Session
begin

text \<open>
  The properties of the peer protocol: a message sent is the message received while the two ends are
  in step, relaying a route, and the ways the protocol stops: messages that cross, messages
  longer than the length field, errors that keep the mutex locked, and inputs that crash the node.
\<close>

section \<open>One message\<close>

lemma be_val_be_bytes [simp]: "be_val (be_bytes 2 (w :: u16)) = w"
  using be_get_2 [of w] by (simp add: be_get_def)

text \<open>
  How the frames of a peer arrive. A segment may hold parts of one frame or several frames at
  once. \<open>intact\<close> says that nothing the loop reads at once is cut: the two bytes of a length and the
  body that follows each lie within one segment.
\<close>

inductive uncut :: "u8 list list \<Rightarrow> u8 list list \<Rightarrow> bool" where
  nothing: "uncut [] []"
| alone: "uncut pieces segments \<Longrightarrow> uncut (p # pieces) (p # segments)"
| joined: "uncut pieces (s # segments) \<Longrightarrow> s \<noteq> [] \<Longrightarrow> uncut (p # pieces) ((p @ s) # segments)"

inductive_cases uncut_ConsE: "uncut (p # pieces) segments"
inductive_cases uncut_NilE: "uncut [] segments"

definition intact :: "u8 list list \<Rightarrow> u8 list list \<Rightarrow> bool" where
  "intact frames = uncut (concat (map (\<lambda>frame. [take 2 frame, drop 2 frame]) frames))"

lemma conn_read_uncut:
  assumes "uncut (p # pieces) segments" and "p \<noteq> []"
  shows "\<exists>rest. conn_read (length p) segments = Some (p, rest) \<and> uncut pieces rest"
  using assms by (auto elim!: uncut_ConsE simp: conn_read_def)

text \<open>The segment boundaries may fall exactly between frames, or nowhere.\<close>

lemma intact_frames: "\<forall>frame \<in> set frames. 2 < length frame \<Longrightarrow> intact frames frames"
proof (induction frames)
  case (Cons frame frames)
  then have "uncut (drop 2 frame # concat (map (\<lambda>frame. [take 2 frame, drop 2 frame]) frames)) (drop 2 frame # frames)"
    by (intro uncut.alone) (simp add: intact_def)
  then have "uncut (take 2 frame # drop 2 frame # concat (map (\<lambda>frame. [take 2 frame, drop 2 frame]) frames))
      ((take 2 frame @ drop 2 frame) # frames)"
    using Cons.prems by (intro uncut.joined) simp_all
  then show ?case by (simp add: intact_def)
qed (simp add: intact_def uncut.nothing)

text \<open>What the loop takes of a frame: the body, cut to the length that fits into 16 bits.\<close>

lemma take_append_2: "take 2 (be_bytes 2 (w :: u16) @ body) = be_bytes 2 w" "drop 2 (be_bytes 2 (w :: u16) @ body) = body"
  by simp_all

lemma read_frame_header:
  assumes "intact ((be_bytes 2 (of_nat (length body) :: u16) @ body) # frames) segments"
  shows "\<exists>rest. read_frame segments = conn_read (length body mod 65536) rest \<and>
    uncut (body # concat (map (\<lambda>frame. [take 2 frame, drop 2 frame]) frames)) rest"
proof -
  let ?header = "be_bytes 2 (of_nat (length body) :: u16)"
  have header: "?header \<noteq> []"
    by (metis length_be_bytes list.size(3) zero_neq_numeral)
  have "uncut (?header # body # concat (map (\<lambda>frame. [take 2 frame, drop 2 frame]) frames)) segments"
    using assms by (simp only: intact_def list.map concat.simps take_append_2 append_Cons append_Nil)
  from conn_read_uncut [OF this header] show ?thesis
    by (auto simp: read_frame_def unat_of_nat)
qed

lemma read_frame_intact:
  assumes "intact ((be_bytes 2 (of_nat (length body) :: u16) @ body) # frames) segments"
    and "body \<noteq> []" and "length body < 65536"
  shows "\<exists>rest. read_frame segments = Some (body, rest) \<and> intact frames rest"
  using read_frame_header [OF assms(1)] conn_read_uncut [of body] assms(2,3) by (fastforce simp: intact_def)

lemma read_frame_cut:
  assumes "intact [be_bytes 2 (of_nat (length body) :: u16) @ body] segments" and "body \<noteq> []"
  shows "\<exists>rest. read_frame segments = Some (take (length body mod 65536) body, rest) \<and>
    concat rest = drop (length body mod 65536) body"
proof -
  obtain rest where rest: "read_frame segments = conn_read (length body mod 65536) rest" "uncut [body] rest"
    using read_frame_header [OF assms(1)] by auto
  then have "rest = [body]"
    by (auto elim!: uncut_ConsE uncut_NilE)
  moreover have "length body mod 65536 \<le> length body"
    by simp
  ultimately show ?thesis
    using rest(1) assms(2) by (auto simp: conn_read_def)
qed

text \<open>
  A message arrives. Let the two ends of a session be in step and the cipher open what it sealed
  under the same key and nonce. Then sealing succeeds; if the ciphertext is shorter than 65536
  bytes and arrives uncut, the receiver's read loop takes exactly it, opens it to the message, and both
  ends are in step again.
\<close>

lemma session_transfer:
  assumes "session_ok a" and "in_step a b"
    and "\<forall>m. gcm_Open c (ci_sessionKey a) (nonce_of a) (gcm_Seal c (ci_sessionKey a) (nonce_of a) m) = Inr m"
    and "length (gcm_Seal c (ci_sessionKey a) (nonce_of a) message) < 65536"
    and "gcm_Seal c (ci_sessionKey a) (nonce_of a) message \<noteq> []"
  shows "\<exists>bytes encrypted. seal_message c message a = Inr bytes \<and>
    (\<forall>frames segments. intact (bytes # frames) segments \<longrightarrow>
       (\<exists>rest. read_frame segments = Some (encrypted, rest) \<and> intact frames rest)) \<and>
    open_message c encrypted b = Inr message \<and> in_step (incrementSeqNumber a) (incrementSeqNumber b)"
proof -
  let ?enc = "gcm_Seal c (ci_sessionKey a) (nonce_of a) message"
  have "session_ok b" "nonce_of b = nonce_of a" "ci_sessionKey b = ci_sessionKey a"
    using assms(1,2) by (auto simp: session_ok_def in_step_def nonce_of_def)
  then have "open_message c ?enc b = Inr message"
    using assms(3) by (simp add: open_message_eq)
  then show ?thesis
    using assms(1,4,5) in_step_increment [OF assms(2)] read_frame_intact [of ?enc]
    by (auto simp: seal_message_eq Let_def)
qed

text \<open>A cipher for the examples: the nonce and a tag in front of the text.\<close>

definition example_aead :: aead where
  "example_aead =
     \<lparr>gcm_Seal = (\<lambda>k n m. n @ [17, 18, 19, 20] @ m),
      gcm_Open = (\<lambda>k n e. if take 16 e = n @ [17, 18, 19, 20] then Inr (drop 16 e)
        else Inl ''cipher: message authentication failed'')\<rparr>"

lemma example_conn_ok: "session_ok example_conn"
  by (simp add: session_ok_def aes_sizes example_conn_def)

lemma length_nonce_of [simp]: "session_ok conn \<Longrightarrow> length (nonce_of conn) = 12"
  by (simp add: nonce_of_def session_ok_def aes_sizes)

lemma example_aead_opens:
  "length n = 12 \<Longrightarrow> gcm_Open example_aead k n (gcm_Seal example_aead k n m) = Inr m"
  by (simp add: example_aead_def)

lemma example_aead_rejects:
  "length n = 12 \<Longrightarrow> length n' = 12 \<Longrightarrow> n' \<noteq> n \<Longrightarrow>
   gcm_Open example_aead k n' (gcm_Seal example_aead k n m) = Inl ''cipher: message authentication failed''"
  by (simp add: example_aead_def)

section \<open>Messages that cross\<close>

text \<open>
  C17: messages that cross stop both nodes. Both directions share one sequence number. When the two
  ends, in step, each send before reading, they use the same key and nonce for two messages; and if
  the cipher rejects a text sealed under another nonce, each ends with a fatal error on the
  other's message.
\<close>

theorem crossing_messages_are_fatal:
  assumes "session_ok a" and "in_step a b"
    and "\<forall>m n'. length n' = 12 \<longrightarrow> n' \<noteq> nonce_of a \<longrightarrow>
      (\<exists>err. gcm_Open c (ci_sessionKey a) n' (gcm_Seal c (ci_sessionKey a) (nonce_of a) m) = Inl err)"
  shows "nonce_of a = nonce_of b \<and>
    (\<exists>errA errB. open_message c (gcm_Seal c (ci_sessionKey b) (nonce_of b) fromB) (incrementSeqNumber a) = Inl (Fatal errA) \<and>
       open_message c (gcm_Seal c (ci_sessionKey a) (nonce_of a) fromA) (incrementSeqNumber b) = Inl (Fatal errB))"
proof -
  have b: "session_ok b" "nonce_of b = nonce_of a" "ci_sessionKey b = ci_sessionKey a"
    using assms(1,2) by (auto simp: session_ok_def in_step_def nonce_of_def)
  have rejected: "\<exists>err. open_message c (gcm_Seal c (ci_sessionKey a) (nonce_of a) m) (incrementSeqNumber x) = Inl (Fatal err)"
    if "session_ok x" "nonce_of x = nonce_of a" "ci_sessionKey x = ci_sessionKey a" for x m
  proof -
    have "length (nonce_of (incrementSeqNumber x)) = 12" "nonce_of (incrementSeqNumber x) \<noteq> nonce_of a"
      using that next_nonce_differs [OF that(1)] by simp_all
    then obtain err where "gcm_Open c (ci_sessionKey a) (nonce_of (incrementSeqNumber x))
        (gcm_Seal c (ci_sessionKey a) (nonce_of a) m) = Inl err"
      using assms(3) by blast
    then show ?thesis
      using that by (simp add: open_message_eq)
  qed
  show ?thesis
    using rejected [of a] rejected [of b] assms(1) b by simp
qed

theorem crossing_messages_are_fatal_witness:
  "\<exists>err. open_message example_aead (gcm_Seal example_aead (ci_sessionKey example_conn) (nonce_of example_conn) [0, 0])
     (incrementSeqNumber example_conn) = Inl (Fatal err)"
proof -
  have "\<forall>m n'. length n' = 12 \<longrightarrow> n' \<noteq> nonce_of example_conn \<longrightarrow>
      (\<exists>err. gcm_Open example_aead (ci_sessionKey example_conn) n'
        (gcm_Seal example_aead (ci_sessionKey example_conn) (nonce_of example_conn) m) = Inl err)"
    by (simp add: example_aead_rejects example_conn_ok)
  then show ?thesis
    using crossing_messages_are_fatal [OF example_conn_ok, of example_conn example_aead "[0, 0]" "[0, 0]"]
    by (auto simp: in_step_def)
qed

section \<open>Messages that are too long\<close>

text \<open>
  A large table cannot be sent. With the 16 bytes AES-GCM adds, the response for a table of \<open>n\<close>
  entries is \<open>20 + 12 * n\<close> bytes long, but its length is written in 16 bits: the receiver takes the whole
  message only below 5460 entries; from there on it takes fewer bytes than were sent and reads the next
  length from the middle of the message.
\<close>

lemma large_table_truncated:
  assumes "session_ok conn"
    and "\<forall>m. length (gcm_Seal c (ci_sessionKey conn) (nonce_of conn) m) = length m + 16"
    and "createTableRequest b = Inr request"
    and "processTableRequest db request = Inr (Inr response)"
    and "length (getLastRoutingEntries db b) = n"
  shows "\<exists>bytes encrypted rest. seal_message c response conn = Inr bytes \<and>
    length bytes = 2 + (20 + 12 * n) \<and> read_frame [bytes] = Some (encrypted, rest) \<and>
    length encrypted = (20 + 12 * n) mod 65536 \<and> (concat rest = [] \<longleftrightarrow> n < 5460)"
proof -
  let ?body = "gcm_Seal c (ci_sessionKey conn) (nonce_of conn) response"
  have "response = be_bytes 2 tableResponseType @ be_bytes 2 (of_nat n :: u16) @
      concat (map serializeDestination
        (map (\<lambda>r. routingEntryToDestination (db_entries db r)) (getLastRoutingEntries db b)))"
    using assms(4,5) processTableRequest_eq [OF assms(3), of db] by simp
  then have "length response = 4 + 12 * n"
    using assms(5) destination_codec.length_concat_enc
        [of "map (\<lambda>r. routingEntryToDestination (db_entries db r)) (getLastRoutingEntries db b)"]
    by (simp only: length_append length_be_bytes length_map)
  then have len: "length ?body = 20 + 12 * n"
    using assms(2) by simp
  let ?k = "(20 + 12 * n) mod 65536"
  have k: "?k \<le> length ?body" "?k = length ?body \<longleftrightarrow> n < 5460"
  proof -
    have "?k = 20 + 12 * n" if "n < 5460"
      using that by simp
    moreover have "?k \<noteq> 20 + 12 * n" if "\<not> n < 5460"
    proof -
      have "?k < 65536" by simp
      then show ?thesis using that by linarith
    qed
    ultimately show "?k \<le> length ?body" "?k = length ?body \<longleftrightarrow> n < 5460"
      unfolding len by auto
  qed
  have "?body \<noteq> []" using len by auto
  then have "intact [be_bytes 2 (of_nat (length ?body) :: u16) @ ?body] [be_bytes 2 (of_nat (length ?body) :: u16) @ ?body]"
    by (intro intact_frames) simp
  then obtain rest where "read_frame [be_bytes 2 (of_nat (length ?body) :: u16) @ ?body] = Some (take ?k ?body, rest)"
      "concat rest = drop ?k ?body"
    using read_frame_cut [OF _ \<open>?body \<noteq> []\<close>] len by metis
  moreover have "length (take ?k ?body) = ?k" "concat rest = [] \<longleftrightarrow> n < 5460"
    unfolding calculation(2) using k by auto
  moreover have "seal_message c response conn = Inr (be_bytes 2 (of_nat (length ?body) :: u16) @ ?body)"
    using seal_message_eq [OF assms(1), of c response] by (simp add: Let_def)
  moreover have "length (be_bytes 2 (of_nat (length ?body) :: u16) @ ?body) = 2 + (20 + 12 * n)"
    using len by simp
  ultimately show ?thesis
    by blast
qed

text \<open>A database with as many routes as wanted.\<close>

definition nth_address :: "nat \<Rightarrow> address" where
  "nth_address i = arr_copy 0 (le_bytes 4 (of_nat i :: u32))"

lemma nth_address_inject: "i < 2 ^ 32 \<Longrightarrow> j < 2 ^ 32 \<Longrightarrow> nth_address i = nth_address j \<longleftrightarrow> i = j"
proof
  assume "i < 2 ^ 32" "j < 2 ^ 32" "nth_address i = nth_address j"
  then have "(of_nat i :: u32) = of_nat j"
    by (simp add: nth_address_def arr_copy_inject le_bytes_inject)
  then have "unat (of_nat i :: u32) = unat (of_nat j :: u32)"
    by simp
  then show "i = j"
    using \<open>i < 2 ^ 32\<close> \<open>j < 2 ^ 32\<close> by (simp add: unat_of_nat)
qed simp

lemma large_table:
  assumes "n < 2 ^ 32"
  shows "\<exists>db. db_ok db \<and> length (getLastRoutingEntries db 0) = n"
proof -
  let ?info = "\<lambda>i. (example_info [] [])\<lparr>ai_address := nth_address i\<rparr>"
  let ?entry = "\<lambda>i. (example_route 1 1 5 7)\<lparr>re_destination := nth_address i\<rparr>"
  obtain db where db: "db_ok db" "db_routingEntriesStack db = []"
    "addr_map db = map_of (map (\<lambda>i. (ai_address i, stored_info i)) (rev (map ?info [0..<n])))"
    using load_stored [of "map ?info [0..<n]" 0 "''data''"] by auto
  have "registered db (nth_address i)" if "i < n" for i
    using that by (auto simp: registered_stored [OF db(3)] image_image)
  moreover have "distinct (map re_destination (map ?entry [0..<n]))"
    using assms by (auto simp: distinct_map inj_on_def nth_address_inject comp_def)
  ultimately obtain db' where "db_ok db'" "stacked db' = rev (map ?entry [0..<n])"
    using put_routes [OF db(1), of "map ?entry [0..<n]"] db(2) by (auto simp: stacked_def)
  then have "db_ok db' \<and> length (db_routingEntriesStack db') = n"
    by (metis length_map length_rev length_upt minus_nat.diff_0 stacked_def)
  then show ?thesis
    by (auto simp: getLastRoutingEntries_def)
qed

end
