(* ===== verification/Session_Handler.thy ===== *)
theory Session_Handler
  imports Session_Properties
begin

text \<open>
  The properties of the message handler of \<open>ldrlib/networking.go\<close>: the state of the mutex after
  every message, relaying a route request to the next hop, the requests a node cannot relay, and the
  way back of a route to its sender.
\<close>

section \<open>The mutex\<close>

lemma handle_plain_outcome:
  assumes "handle_plain c lnClient pk r message node = Inr out" and "ci_locked (nd_conns node r)"
  shows "(\<exists>node'. out = Continues node' \<and> \<not> ci_locked (nd_conns node' r)) \<or>
    (\<exists>node'. out = Returns node' \<and> ci_locked (nd_conns node' r))"
  using assms unfolding handle_plain_def
  by (auto simp: bind_res_def split: if_split_asm sum.split_asm option.split_asm prod.split_asm)

text \<open>
  C26: an error leaves the connection locked. After a message the loop goes on with, the mutex is
  free. After a message it returns on, the mutex stays locked: no later message of the peer is
  handled and the periodic table requests on the connection wait for ever.
\<close>

theorem error_keeps_mutex_locked:
  assumes "handle_message c lnClient pk r encrypted node = Inr out"
  shows "case out of
      Continues node' \<Rightarrow> \<not> ci_locked (nd_conns node' r)
    | Returns node' \<Rightarrow> ci_locked (nd_conns node' r) \<and>
        handle_message c lnClient pk r next node' = Inr (Blocks node') \<and>
        send_table_request c r node' = Inr (Blocks node')
    | Blocks node' \<Rightarrow> node' = node \<and> ci_locked (nd_conns node r)"
proof (cases "ci_locked (nd_conns node r)")
  case True
  then show ?thesis
    using assms by (auto simp: handle_message_def)
next
  case False
  then obtain message where
    "handle_plain c lnClient pk r message (upd_conn r incrementSeqNumber (mutex_lock r node)) = Inr out"
    using assms by (auto simp: handle_message_def Let_def bind_res_eq_Inr)
  from handle_plain_outcome [OF this] show ?thesis
    by (auto simp: handle_message_def send_table_request_def)
qed

text \<open>Nodes for the examples: peer 2 on connection 0, in step with \<open>example_conn\<close>.\<close>

definition example_node :: "DB \<Rightarrow> Node" where
  "example_node db = \<lparr>nd_db = db, nd_conns = (\<lambda>_. example_conn), nd_nextConn = 1, nd_written = [], nd_closed = []\<rparr>"

definition example_sealed :: "u8 list \<Rightarrow> u8 list" where
  "example_sealed m = gcm_Seal example_aead (ci_sessionKey example_conn) (nonce_of example_conn) m"

lemma open_example_sealed:
  "open_message example_aead (example_sealed m) (example_conn\<lparr>ci_locked := b\<rparr>) = Inr m"
proof -
  have "ci_sessionKey (example_conn\<lparr>ci_locked := b\<rparr>) = ci_sessionKey example_conn"
    by simp
  then show ?thesis
    using open_message_eq [of "example_conn\<lparr>ci_locked := b\<rparr>"] example_conn_ok
    by (simp add: example_sealed_def example_aead_opens)
qed

lemma ci_locked_example [simp]: "\<not> ci_locked example_conn"
  by (simp add: example_conn_def)

theorem error_keeps_mutex_locked_witness:
  "\<exists>node'. handle_message example_aead (example_lnd []) 0 0 (example_sealed [0, 9]) (example_node (createDB ''data''))
      = Inr (Returns node') \<and>
    send_table_request example_aead 0 node' = Inr (Blocks node')"
proof -
  have "slice 0 2 [0, 9] = Inr [0, 9 :: u8]" "be_get 2 [0, 9 :: u8] = Inr (9 :: u16)"
    by (simp add: slice_def) code_simp
  then obtain node' where
    "handle_message example_aead (example_lnd []) 0 0 (example_sealed [0, 9]) (example_node (createDB ''data''))
      = Inr (Returns node')"
    by (simp add: handle_message_def handle_plain_def example_node_def open_example_sealed message_types Let_def)
  with error_keeps_mutex_locked [OF this] show ?thesis
    by auto
qed

section \<open>Relaying a request\<close>

definition no_peer_conn :: "DB \<Rightarrow> address \<Rightarrow> bool" where
  "no_peer_conn db a \<longleftrightarrow> (\<forall>r. getPeerConn db a \<noteq> Inr (Some r))"

lemma getPeerConn_cases:
  assumes "db_ok db"
  obtains (conn) r where "getPeerConn db a = Inr (Some r)"
  | (none) "no_peer_conn db a" "getPeerConn db a = Inl NilDeref \<or> getPeerConn db a = Inr None"
proof (cases "addr_map db a")
  case None
  then show ?thesis
    using none assms by (simp add: no_peer_conn_def getPeerConn_eq)
next
  case (Some info)
  then have "getPeerConn db a = Inr (ai_peerConn info)"
    using assms by (simp add: getPeerConn_eq)
  then show ?thesis
    using conn none by (cases "ai_peerConn info") (auto simp: no_peer_conn_def)
qed

lemma send_message_eq:
  assumes "session_ok (nd_conns node r)"
  shows "\<exists>frame. seal_message c m (nd_conns node r) = Inr frame \<and>
      send_message c r m node = Inr (upd_conn r incrementSeqNumber (conn_write r frame node))"
  using seal_message_eq [OF assms] by (simp add: send_message_def Let_def)

lemma ForwardRoute_eq:
  assumes "db_ok (nd_db node)"
  shows "ForwardRoute c route a node =
    (if no_peer_conn (nd_db node) a then Inl NilDeref
     else case getPeerConn (nd_db node) a of
       Inr (Some r) \<Rightarrow> send_message c r (be_bytes 2 forwardRouteType @ serializeRoute route) node
     | _ \<Rightarrow> Inl NilDeref)"
  by (rule getPeerConn_cases [OF assms, of a])
    (auto simp: ForwardRoute_def createForwardRouteMessage_def no_peer_conn_def)

lemma short_request_fails:
  assumes "length message < 26"
  shows "handle_forward c lnClient message node = Inl NilDeref"
  using truncated_route_panics [of message] assms by (simp add: handle_forward_def)

lemma truncated_request_fails:
  assumes "26 \<le> length message" and "(be_val (take 2 message) :: u16) = forwardRouteType"
    and "length message < 26 + 4 * claimed_hops (drop 2 message)"
  shows "handle_forward c lnClient message node = Inl OutOfRange"
proof -
  have "processForwardRouteMessage message = Inl OutOfRange"
    using truncated_route_panics [of message] assms by blast
  then show ?thesis by (simp add: handle_forward_def)
qed

text \<open>What becomes of a well-formed request.\<close>

definition cannot_relay :: "DB \<Rightarrow> Route \<Rightarrow> bool" where
  "cannot_relay db route \<longleftrightarrow>
     (if rt_destination route = getLocalAddress db then getDestConn db (rt_token route) = None
      else \<not> registered db (rt_destination route) \<or>
        no_peer_conn db (case route_map db (rt_destination route) of None \<Rightarrow> 0 | Some e \<Rightarrow> re_nextHop e))"

lemma well_formed_request:
  assumes "db_ok (nd_db node)" and "\<forall>a r. getPeerConn (nd_db node) a = Inr (Some r) \<longrightarrow> session_ok (nd_conns node r)"
    and "rpc_ListChannels lnClient = Inr chs" and "processForwardRouteMessage message = Inr (Inr route)"
  shows "if cannot_relay (nd_db node) route then handle_forward c lnClient message node = Inl NilDeref
    else \<exists>node'. handle_forward c lnClient message node = Inr node'"
proof -
  have forwarded: "if no_peer_conn (nd_db node) a then ForwardRoute c rt a node = Inl NilDeref
      else \<exists>node'. ForwardRoute c rt a node = Inr node'" for rt a
    using getPeerConn_cases [OF assms(1), of a] assms(2) send_message_eq [of node]
    by (fastforce simp: ForwardRoute_eq [OF assms(1)] no_peer_conn_def)
  have returned: "if getDestConn (nd_db node) (rt_token route) = None then sendRouteToSender route node = Inl NilDeref
      else \<exists>node'. sendRouteToSender route node = Inr node'"
    by (auto simp: sendRouteToSender_def closeDestConnection_def)
  show ?thesis
    using forwarded returned assms(4)
    by (auto simp: handle_forward_def cannot_relay_def addHopToRoute_eq [OF assms(1,3)] split: option.splits)
qed

text \<open>
  C25: requests that crash the node, exactly. The handler of a forward request panics with a nil
  dereference when the request is shorter than its header, and with an index out of range when it is
  shorter than its hop count promises. A complete request panics with a nil dereference when it is for this
  node and nobody has announced its token, and when it is for another node whose address is not
  registered here, or to whose next hop there is no connection; without any route the next hop is
  taken to be 0.0.0.0. Every other request is handled without a fault. The connections of peers are the
  keyed sessions they are in every reachable node, and lnd lists its channels.
\<close>

theorem forward_request_panics:
  assumes "db_ok (nd_db node)" and "\<forall>a r. getPeerConn (nd_db node) a = Inr (Some r) \<longrightarrow> session_ok (nd_conns node r)"
    and "rpc_ListChannels lnClient = Inr chs" and "(be_val (take 2 message) :: u16) = forwardRouteType"
  shows "if length message < 26 then handle_forward c lnClient message node = Inl NilDeref
    else if length message < 26 + 4 * claimed_hops (drop 2 message) then handle_forward c lnClient message node = Inl OutOfRange
    else \<exists>route. processForwardRouteMessage message = Inr (Inr route) \<and>
      (if cannot_relay (nd_db node) route then handle_forward c lnClient message node = Inl NilDeref
       else \<exists>node'. handle_forward c lnClient message node = Inr node')"
proof -
  consider "length message < 26" | "26 \<le> length message" "length message < 26 + 4 * claimed_hops (drop 2 message)"
    | route where "26 + 4 * claimed_hops (drop 2 message) \<le> length message" "processForwardRouteMessage message = Inr (Inr route)"
    using truncated_route_panics [of message] assms(4) by (meson not_less order_trans le_add1)
  then show ?thesis
  proof cases
    case 1
    then show ?thesis by (simp add: short_request_fails)
  next
    case 2
    then show ?thesis using assms(4) by (simp add: truncated_request_fails)
  next
    case 3
    then show ?thesis using well_formed_request [OF assms(1-3)] by simp
  qed
qed

theorem forward_request_panics_witness:
  "handle_forward example_aead (example_lnd []) [0, 2] (example_node (createDB ''data'')) = Inl NilDeref \<and>
   handle_forward example_aead (example_lnd []) ([0, 2] @ replicate 22 0 @ [1, 0]) (example_node (createDB ''data'')) =
     Inl OutOfRange"
proof -
  have type: "(be_val (take 2 [0, 2]) :: u16) = forwardRouteType"
    "(be_val (take 2 ([0, 2] @ replicate 22 0 @ [1, 0])) :: u16) = forwardRouteType"
    "claimed_hops (drop 2 ([0, 2] @ replicate 22 0 @ [1, 0])) = 1"
    by code_simp+
  have node: "db_ok (nd_db (example_node (createDB ''data'')))"
    "\<forall>a r. getPeerConn (nd_db (example_node (createDB ''data''))) a = Inr (Some r) \<longrightarrow>
      session_ok (nd_conns (example_node (createDB ''data'')) r)"
    "rpc_ListChannels (example_lnd []) = Inr []"
    by (simp_all add: example_node_def db_ok_createDB example_conn_ok example_lnd_def)
  show ?thesis
    using forward_request_panics [OF node type(1), of example_aead]
      forward_request_panics [OF node type(2), of example_aead] type(3) by simp
qed

section \<open>Messages that are cut\<close>

lemma conn_read_short:
  "s \<noteq> [] \<Longrightarrow> length s \<le> n \<Longrightarrow> conn_read n (s # rest) = Some (s @ replicate (n - length s) 0, rest)"
  by (cases n) (auto simp: conn_read_def)

lemma cut_frame_read:
  assumes "0 < k" and "k < length body" and "length body < 65536"
  shows "read_frame ((be_bytes 2 (of_nat (length body) :: u16) @ take k body) # drop k body # later) =
    Some (take k body @ replicate (length body - k) 0, drop k body # later)"
proof -
  let ?header = "be_bytes 2 (of_nat (length body) :: u16)"
  have "take k body \<noteq> []"
    using assms by auto
  then have "conn_read 2 ((?header @ take k body) # drop k body # later) = Some (?header, take k body # drop k body # later)"
    by (simp add: conn_read_def)
  moreover have "conn_read (length body) (take k body # drop k body # later) =
      Some (take k body @ replicate (length body - k) 0, drop k body # later)"
    using \<open>take k body \<noteq> []\<close> assms(2) conn_read_short [of "take k body" "length body"] by (simp add: min_def)
  ultimately show ?thesis
    using assms(3) by (simp add: read_frame_def unat_of_nat)
qed

text \<open>
  C22: a message that is cut on the way stops the node. Let the sender of a session seal a message
  whose ciphertext fits into 16 bits, and TCP deliver its frame in two parts, the cut anywhere inside
  the ciphertext. The loop takes the first part for all of it and fills up with zeros; if the cipher
  rejects that text, as AES-GCM does with a text that has been altered, the whole node ends with a fatal
  error, although nobody has tampered with anything.
\<close>

theorem short_read_is_fatal:
  assumes "session_ok a" and "in_step a (nd_conns node r)" and "\<not> ci_locked (nd_conns node r)"
    and "encrypted = gcm_Seal c (ci_sessionKey a) (nonce_of a) message" and "length encrypted < 65536"
    and "0 < k" and "k < length encrypted"
    and "gcm_Open c (ci_sessionKey a) (nonce_of a) (take k encrypted @ replicate (length encrypted - k) 0) = Inl err"
  shows "\<exists>frame. seal_message c message a = Inr frame \<and>
    handlePeerConnection c lnClient pk r (take (2 + k) frame # drop (2 + k) frame # later) node = Inl (Fatal err)"
proof -
  let ?header = "be_bytes 2 (of_nat (length encrypted) :: u16)"
  let ?read = "take k encrypted @ replicate (length encrypted - k) 0"
  have sealed: "seal_message c message a = Inr (?header @ encrypted)"
    using seal_message_eq [OF assms(1), of c message] assms(4) by (simp add: Let_def)
  let ?conn = "(nd_conns node r)\<lparr>ci_locked := True\<rparr>"
  have conn: "session_ok ?conn" "nonce_of ?conn = nonce_of a" "ci_sessionKey ?conn = ci_sessionKey a"
    using assms(1,2) by (auto simp: session_ok_def in_step_def nonce_of_def)
  have "open_message c ?read ?conn = Inl (Fatal err)"
    using open_message_eq [OF conn(1)] conn(2,3) assms(8) by simp
  then have "handle_message c lnClient pk r ?read node = Inl (Fatal err)"
    using assms(3) by (simp add: handle_message_def Let_def)
  then have "handlePeerConnection c lnClient pk r
      (take (2 + k) (?header @ encrypted) # drop (2 + k) (?header @ encrypted) # later) node = Inl (Fatal err)"
    using cut_frame_read [OF assms(6,7,5)] by (simp add: handlePeerConnection.simps)
  then show ?thesis
    using sealed by blast
qed

theorem short_read_is_fatal_witness:
  "\<exists>frame err. seal_message example_aead [0, 2] example_conn = Inr frame \<and>
     handlePeerConnection example_aead (example_lnd []) 0 0 [take 15 frame, drop 15 frame] (example_node (createDB ''data'')) =
       Inl (Fatal err)"
proof -
  let ?e = "gcm_Seal example_aead (ci_sessionKey example_conn) (nonce_of example_conn) [0, 2]"
  have e: "length ?e = 18" "?e = nonce_of example_conn @ [17, 18, 19, 20, 0, 2]"
    using length_nonce_of [OF example_conn_ok] by (simp_all add: example_aead_def)
  have "take 13 ?e @ replicate (length ?e - 13) 0 = nonce_of example_conn @ [17, 0, 0, 0, 0, 0]"
    using length_nonce_of [OF example_conn_ok] e by (simp add: numeral_eq_Suc)
  then have rejected: "gcm_Open example_aead (ci_sessionKey example_conn) (nonce_of example_conn)
      (take 13 ?e @ replicate (length ?e - 13) 0) = Inl ''cipher: message authentication failed''"
    using length_nonce_of [OF example_conn_ok] by (simp only:) (simp add: example_aead_def)
  have node: "in_step example_conn (nd_conns (example_node (createDB ''data'')) 0)"
      "\<not> ci_locked (nd_conns (example_node (createDB ''data'')) 0)"
    by (simp_all add: in_step_def example_node_def example_conn_def)
  have sizes: "length ?e < 65536" "0 < (13 :: nat)" "13 < length ?e"
    unfolding e(1) by simp_all
  obtain frame where "seal_message example_aead [0, 2] example_conn = Inr frame"
      "handlePeerConnection example_aead (example_lnd []) 0 0 [take (2 + 13) frame, drop (2 + 13) frame]
        (example_node (createDB ''data'')) = Inl (Fatal ''cipher: message authentication failed'')"
    using short_read_is_fatal [OF example_conn_ok node refl sizes rejected] by blast
  then show ?thesis
    by auto
qed

section \<open>A request on its way\<close>

text \<open>With a route and a connection, the handler sends the request with the hop appended.\<close>

lemma relayed_request:
  assumes "db_ok (nd_db node)" and "rpc_ListChannels lnClient = Inr chs"
    and "processForwardRouteMessage message = Inr (Inr route)"
    and "rt_destination route \<noteq> getLocalAddress (nd_db node)"
    and "route_map (nd_db node) (rt_destination route) = Some e"
    and "getPeerConn (nd_db node) (re_nextHop e) = Inr (Some r)"
  obtains route' where "addHopToRoute lnClient (nd_db node) route = Inr (Inr (re_nextHop e, route'))"
    and "handle_forward c lnClient message node =
        send_message c r (be_bytes 2 forwardRouteType @ serializeRoute route') node"
    and "rt_hops route' = rt_hops route @ [re_nextHop e]" and "rt_destination route' = rt_destination route"
    and "rt_token route' = rt_token route"
proof -
  have "registered (nd_db node) (rt_destination route)"
    using assms(5) by (auto simp: route_map_Some registered_def)
  then obtain route' where hop: "addHopToRoute lnClient (nd_db node) route = Inr (Inr (re_nextHop e, route'))"
      "rt_hops route' = rt_hops route @ [re_nextHop e]" "rt_destination route' = rt_destination route"
      "rt_token route' = rt_token route"
    using assms(5) by (simp add: addHopToRoute_eq [OF assms(1,2)])
  have "handle_forward c lnClient message node = send_message c r (be_bytes 2 forwardRouteType @ serializeRoute route') node"
    using assms(3,4,6) hop(1) by (simp add: handle_forward_def ForwardRoute_def createForwardRouteMessage_def)
  then show thesis
    using that hop by blast
qed

text \<open>A database with a route to \<open>d\<close> through peer 1, which is on connection 0.\<close>

lemma example_routed:
  assumes "d \<in> {1, 2}"
  obtains db where "db_ok db" "route_map db (example_address d) = Some (example_route d 1 50 7)"
    "getPeerConn db (example_address 1) = Inr (Some 0)" "db_localAddress db = 0"
proof -
  obtain db where db: "fresh_db [1, 2] db"
    using example_db_fresh by blast
  obtain db1 where db1: "db_ok db1" "registered db1 (example_address d)"
      "getPeerConn db1 (example_address 1) = Inr (Some 0)" "db_localAddress db1 = 0"
    using addPeerConnToDB_spec [OF fresh_db_facts(1) [OF db], of "example_address 1" 0]
      fresh_db_facts(2,5) [OF db] assms by auto
  then obtain db2 where "db_ok db2" "route_map db2 (example_address d) = Some (example_route d 1 50 7)"
      "getPeerConn db2 (example_address 1) = Inr (Some 0)" "db_localAddress db2 = 0"
    using put_route_keeps_conns [OF db1(1), of "example_route d 1 50 7"] by (auto simp: example_route_def)
  then show ?thesis
    using that by blast
qed

section \<open>The way back\<close>

text \<open>
  The route that comes back has no hops. The destination writes the whole route on the
  connection announced under its token and closes it, but the sender decodes the number of hops from
  two bytes it never reads: whatever the route, the sender gets its destination, token and
  capacity with an empty list of hops.
\<close>

lemma returned_route_loses_hops:
  assumes "getDestConn (nd_db destination) (rt_token route) = Some r"
    and "getDestConn (nd_db sender) token = Some s" and "length (rt_token route) = 10"
  shows "\<exists>destination' sender'. sendRouteToSender route destination = Inr destination' \<and>
    nd_written destination' = nd_written destination @ [(ci_conn (nd_conns destination r), serializeRoute route)] \<and>
    getDestConn (nd_db destination') (rt_token route) = None \<and>
    ReceiveRouteFromDestination (serializeRoute route) token sender = Inr (route\<lparr>rt_hops := []\<rparr>, sender') \<and>
    getDestConn (nd_db sender') token = None"
proof -
  let ?bare = "route\<lparr>rt_hops := []\<rparr>"
  have zero: "le_get 2 (replicate 2 0 :: u8 list) = Inr (0 :: u16)"
    "le_bytes 2 (0 :: u16) = replicate 2 0"
    by code_simp+
  have len: "22 \<le> length (serializeRoute route)"
    using assms(3) by (simp add: serializeRoute_def)
  have "take 22 (serializeRoute route) @ replicate 2 0 = serializeRoute ?bare"
    using assms(3) by (simp add: serializeRoute_def zero)
  moreover have "deserializeRoute (serializeRoute ?bare) = Inr ?bare"
    using deserializeRoute_serializeRoute [of ?bare] assms(3) by simp
  ultimately have "deserializeRoute (take 22 (serializeRoute route) @ replicate 2 0) = Inr ?bare"
    by simp
  then show ?thesis
    using assms(1,2) len zero(1)
    by (auto simp: sendRouteToSender_def closeDestConnection_def ReceiveRouteFromDestination_def Let_def
        getDestConn_def removeDestConnFromDB_def)
qed

end
