(* ===== verification/RSA_Keys.thy ===== *)
theory RSA_Keys
  imports Crypto_Seq
begin

text \<open>
  The RSA side of \<open>ldrlib/crypto.go\<close>: key pairs as PEM text, and RSA-OAEP under such keys. Go's
  \<open>crypto/rsa\<close>, \<open>crypto/x509\<close> and \<open>encoding/pem\<close> are the fields of the record \<open>rsa\<close>; the
  randomness a call draws is an argument. \<open>rsa_lib_ok\<close> states the documented behaviour of the
  three packages that the round trip relies on.
\<close>

section \<open>The packages\<close>

record PublicKey =
  rsa_N :: nat
  rsa_E :: nat

record PrivateKey =
  rsa_PublicKey :: PublicKey
  rsa_D :: nat
  rsa_Primes :: "nat list"

text \<open>\<open>pb_DEKInfo\<close> tells whether the block has the header that \<open>IsEncryptedPEMBlock\<close> looks for.\<close>

record pem_block =
  pb_Type :: string
  pb_DEKInfo :: bool
  pb_Bytes :: "u8 list"

record rsa =
  rsa_GenerateKey :: "nat \<Rightarrow> nat \<Rightarrow> go_error + PrivateKey"
  rsa_EncryptOAEP :: "nat \<Rightarrow> PublicKey \<Rightarrow> u8 list \<Rightarrow> go_error + u8 list"
  rsa_DecryptOAEP :: "PrivateKey \<Rightarrow> u8 list \<Rightarrow> go_error + u8 list"
  pem_EncodeToMemory :: "pem_block \<Rightarrow> u8 list"
  pem_Decode :: "u8 list \<Rightarrow> pem_block option"
  x509_DecryptPEMBlock :: "pem_block \<Rightarrow> go_error + u8 list"
  x509_MarshalPKIXPublicKey :: "PublicKey \<Rightarrow> go_error + u8 list"
  x509_MarshalPKCS1PrivateKey :: "PrivateKey \<Rightarrow> u8 list"
  x509_ParsePKIXPublicKey :: "u8 list \<Rightarrow> go_error + PublicKey option"
  x509_ParsePKCS1PrivateKey :: "u8 list \<Rightarrow> go_error + PrivateKey"

section \<open>Operations\<close>

definition publicRSAKeyToBytes :: "rsa \<Rightarrow> PublicKey \<Rightarrow> u8 list res" where
  "publicRSAKeyToBytes rs pub =
     bind_res (or_fatal (x509_MarshalPKIXPublicKey rs pub)) (\<lambda>pubASN1.
     Inr (pem_EncodeToMemory rs \<lparr>pb_Type = ''RSA PUBLIC KEY'', pb_DEKInfo = False, pb_Bytes = pubASN1\<rparr>))"

definition privateRSAKeyToBytes :: "rsa \<Rightarrow> PrivateKey \<Rightarrow> u8 list" where
  "privateRSAKeyToBytes rs priv =
     pem_EncodeToMemory rs \<lparr>pb_Type = ''RSA PRIVATE KEY'', pb_DEKInfo = False,
       pb_Bytes = x509_MarshalPKCS1PrivateKey rs priv\<rparr>"

text \<open>The pair is private key first, public key second.\<close>

definition generateRSAKeyPair :: "rsa \<Rightarrow> nat \<Rightarrow> (u8 list \<times> u8 list) res" where
  "generateRSAKeyPair rs rng =
     bind_res (or_fatal (rsa_GenerateKey rs rng 2048)) (\<lambda>privkey.
     bind_res (publicRSAKeyToBytes rs (rsa_PublicKey privkey)) (\<lambda>pub.
     Inr (privateRSAKeyToBytes rs privkey, pub)))"

text \<open>
  \<open>pem.Decode\<close> gives a nil block when it finds no PEM text; \<open>IsEncryptedPEMBlock\<close> then reads the
  headers of nil.
\<close>

definition block_bytes :: "rsa \<Rightarrow> pem_block option \<Rightarrow> u8 list res" where
  "block_bytes rs block = (case block of
      None \<Rightarrow> Inl NilDeref
    | Some b \<Rightarrow> if pb_DEKInfo b then or_fatal (x509_DecryptPEMBlock rs b) else Inr (pb_Bytes b))"

definition bytesToPrivateRSAKey :: "rsa \<Rightarrow> u8 list \<Rightarrow> PrivateKey res" where
  "bytesToPrivateRSAKey rs priv =
     bind_res (block_bytes rs (pem_Decode rs priv)) (\<lambda>b. or_fatal (x509_ParsePKCS1PrivateKey rs b))"

definition bytesToPublicRSAKey :: "rsa \<Rightarrow> u8 list \<Rightarrow> PublicKey res" where
  "bytesToPublicRSAKey rs pub =
     bind_res (block_bytes rs (pem_Decode rs pub)) (\<lambda>b.
     bind_res (or_fatal (x509_ParsePKIXPublicKey rs b)) (\<lambda>key. case key of
       None \<Rightarrow> Inl (Fatal ''Not Ok'')
     | Some key \<Rightarrow> Inr key))"

definition encryptRSA :: "rsa \<Rightarrow> nat \<Rightarrow> u8 list \<Rightarrow> u8 list \<Rightarrow> u8 list res" where
  "encryptRSA rs rng pubkey message =
     bind_res (bytesToPublicRSAKey rs pubkey) (\<lambda>rsaPubKey.
     or_fatal (rsa_EncryptOAEP rs rng rsaPubKey message))"

definition decryptRSA :: "rsa \<Rightarrow> u8 list \<Rightarrow> u8 list \<Rightarrow> u8 list res" where
  "decryptRSA rs privkey message =
     bind_res (bytesToPrivateRSAKey rs privkey) (\<lambda>rsaPrivKey.
     or_fatal (rsa_DecryptOAEP rs rsaPrivKey message))"

section \<open>The round trip\<close>

definition rsa_lib_ok :: "rsa \<Rightarrow> bool" where
  "rsa_lib_ok rs \<longleftrightarrow>
     (\<forall>b. pb_Type b \<in> {''RSA PUBLIC KEY'', ''RSA PRIVATE KEY''} \<longrightarrow> \<not> pb_DEKInfo b \<longrightarrow>
        pem_Decode rs (pem_EncodeToMemory rs b) = Some b) \<and>
     (\<forall>pub der. x509_MarshalPKIXPublicKey rs pub = Inr der \<longrightarrow> x509_ParsePKIXPublicKey rs der = Inr (Some pub)) \<and>
     (\<forall>rng priv. rsa_GenerateKey rs rng 2048 = Inr priv \<longrightarrow>
        x509_ParsePKCS1PrivateKey rs (x509_MarshalPKCS1PrivateKey rs priv) = Inr priv) \<and>
     (\<forall>rng rng' priv m e. rsa_GenerateKey rs rng 2048 = Inr priv \<longrightarrow>
        rsa_EncryptOAEP rs rng' (rsa_PublicKey priv) m = Inr e \<longrightarrow> length e = 256 \<and> rsa_DecryptOAEP rs priv e = Inr m)"

lemma rsa_pem:
  "rsa_lib_ok rs \<Longrightarrow> pb_Type b \<in> {''RSA PUBLIC KEY'', ''RSA PRIVATE KEY''} \<Longrightarrow> \<not> pb_DEKInfo b \<Longrightarrow>
   pem_Decode rs (pem_EncodeToMemory rs b) = Some b"
  unfolding rsa_lib_ok_def by blast

lemma rsa_pkix:
  "rsa_lib_ok rs \<Longrightarrow> x509_MarshalPKIXPublicKey rs pub = Inr der \<Longrightarrow> x509_ParsePKIXPublicKey rs der = Inr (Some pub)"
  unfolding rsa_lib_ok_def by blast

lemma rsa_pkcs1:
  "rsa_lib_ok rs \<Longrightarrow> rsa_GenerateKey rs rng 2048 = Inr priv \<Longrightarrow>
   x509_ParsePKCS1PrivateKey rs (x509_MarshalPKCS1PrivateKey rs priv) = Inr priv"
  unfolding rsa_lib_ok_def by blast

lemma rsa_oaep:
  "rsa_lib_ok rs \<Longrightarrow> rsa_GenerateKey rs rng 2048 = Inr priv \<Longrightarrow>
   rsa_EncryptOAEP rs rng' (rsa_PublicKey priv) m = Inr e \<Longrightarrow> length e = 256 \<and> rsa_DecryptOAEP rs priv e = Inr m"
  unfolding rsa_lib_ok_def by blast

lemma generated_key:
  assumes "rsa_lib_ok rs" and "generateRSAKeyPair rs rng = Inr (priv, pub)"
  obtains key where "rsa_GenerateKey rs rng 2048 = Inr key"
    "bytesToPublicRSAKey rs pub = Inr (rsa_PublicKey key)" "bytesToPrivateRSAKey rs priv = Inr key"
proof -
  obtain key der where key: "rsa_GenerateKey rs rng 2048 = Inr key"
      "x509_MarshalPKIXPublicKey rs (rsa_PublicKey key) = Inr der" "priv = privateRSAKeyToBytes rs key"
      "pub = pem_EncodeToMemory rs \<lparr>pb_Type = ''RSA PUBLIC KEY'', pb_DEKInfo = False, pb_Bytes = der\<rparr>"
    using assms(2) by (auto simp: generateRSAKeyPair_def publicRSAKeyToBytes_def bind_res_eq_Inr or_fatal_eq_Inr)
  have "bytesToPublicRSAKey rs pub = Inr (rsa_PublicKey key)"
    using rsa_pem [OF assms(1)] rsa_pkix [OF assms(1) key(2)] key(4)
    by (simp add: bytesToPublicRSAKey_def block_bytes_def)
  moreover have "bytesToPrivateRSAKey rs priv = Inr key"
    using rsa_pem [OF assms(1)] rsa_pkcs1 [OF assms(1) key(1)] key(3)
    by (simp add: bytesToPrivateRSAKey_def privateRSAKeyToBytes_def block_bytes_def)
  ultimately show ?thesis
    using that key(1) by blast
qed

lemma encrypt_decrypt:
  assumes "rsa_lib_ok rs" and "generateRSAKeyPair rs rng = Inr (priv, pub)"
    and "encryptRSA rs rng' pub m = Inr e"
  shows "length e = 256 \<and> decryptRSA rs priv e = Inr m"
proof (rule generated_key [OF assms(1,2)])
  fix key
  assume key: "rsa_GenerateKey rs rng 2048 = Inr key" "bytesToPublicRSAKey rs pub = Inr (rsa_PublicKey key)"
    "bytesToPrivateRSAKey rs priv = Inr key"
  then have "rsa_EncryptOAEP rs rng' (rsa_PublicKey key) m = Inr e"
    using assms(3) by (simp add: encryptRSA_def or_fatal_eq_Inr)
  then show ?thesis
    using rsa_oaep [OF assms(1) key(1)] key(3) by (simp add: decryptRSA_def)
qed

section \<open>An example\<close>

text \<open>
  There is one key; the cipher writes the length of the text in front of it, and the PEM text of
  a block is one byte for its type followed by its bytes.
\<close>

definition example_rsa_key :: PrivateKey where
  "example_rsa_key = \<lparr>rsa_PublicKey = \<lparr>rsa_N = 15, rsa_E = 3\<rparr>, rsa_D = 3, rsa_Primes = [3, 5]\<rparr>"

definition example_rsa :: rsa where
  "example_rsa =
     \<lparr>rsa_GenerateKey = (\<lambda>rng bits. Inr example_rsa_key),
      rsa_EncryptOAEP = (\<lambda>rng k m. if length m \<le> 190 then Inr (of_nat (length m) # m @ replicate (255 - length m) 0)
        else Inl ''crypto/rsa: message too long for RSA public key size''),
      rsa_DecryptOAEP = (\<lambda>k e. case e of [] \<Rightarrow> Inl ''crypto/rsa: decryption error'' | n # m \<Rightarrow> Inr (take (unat n) m)),
      pem_EncodeToMemory = (\<lambda>b. (if pb_Type b = ''RSA PUBLIC KEY'' then 1 else 2) # pb_Bytes b),
      pem_Decode = (\<lambda>bs. case bs of [] \<Rightarrow> None
        | t # bs \<Rightarrow> Some \<lparr>pb_Type = if t = 1 then ''RSA PUBLIC KEY'' else ''RSA PRIVATE KEY'',
                         pb_DEKInfo = False, pb_Bytes = bs\<rparr>),
      x509_DecryptPEMBlock = (\<lambda>b. Inl ''x509: no DEK-Info header in block''),
      x509_MarshalPKIXPublicKey = (\<lambda>k. if k = rsa_PublicKey example_rsa_key then Inr (replicate 458 1) else Inl ''x509: only RSA''),
      x509_MarshalPKCS1PrivateKey = (\<lambda>k. [3]),
      x509_ParsePKIXPublicKey = (\<lambda>bs. Inr (Some (rsa_PublicKey example_rsa_key))),
      x509_ParsePKCS1PrivateKey = (\<lambda>bs. Inr example_rsa_key)\<rparr>"

lemma example_rsa_ok: "rsa_lib_ok example_rsa"
proof -
  have "pem_Decode example_rsa (pem_EncodeToMemory example_rsa b) = Some b"
    if "pb_Type b \<in> {''RSA PUBLIC KEY'', ''RSA PRIVATE KEY''}" "\<not> pb_DEKInfo b" for b
    using that by (cases b) (auto simp: example_rsa_def)
  moreover have "length e = 256 \<and> rsa_DecryptOAEP example_rsa priv e = Inr m"
    if "rsa_EncryptOAEP example_rsa rng pub m = Inr e" for rng pub priv m e
  proof -
    have m: "length m \<le> 190" "e = of_nat (length m) # m @ replicate (255 - length m) 0"
      using that by (auto simp: example_rsa_def split: if_split_asm)
    then have "unat (of_nat (length m) :: u8) = length m"
      by (simp add: unat_of_nat)
    then show ?thesis
      using m by (simp add: example_rsa_def)
  qed
  moreover have "x509_ParsePKIXPublicKey example_rsa der = Inr (Some pub)"
    if "x509_MarshalPKIXPublicKey example_rsa pub = Inr der" for pub der
    using that by (simp add: example_rsa_def split: if_split_asm)
  moreover have "x509_ParsePKCS1PrivateKey example_rsa bs = Inr priv"
    if "rsa_GenerateKey example_rsa rng 2048 = Inr priv" for rng priv bs
    using that by (simp add: example_rsa_def)
  ultimately show ?thesis
    unfolding rsa_lib_ok_def by blast
qed

lemma example_key_pair: "generateRSAKeyPair example_rsa rng = Inr ([2, 3], replicate 459 1)"
proof -
  have "replicate 459 (1 :: u8) = 1 # replicate 458 1"
    by (simp flip: replicate_Suc)
  then show ?thesis
    by (simp add: generateRSAKeyPair_def publicRSAKeyToBytes_def privateRSAKeyToBytes_def example_rsa_def)
qed

end
