(* ===== verification/Handshake.thy ===== *)
theory Handshake
  imports Session_Handler RSA_Keys
begin

text \<open>
  The peer handshake of \<open>ldrlib/networking.go\<close>. The random source is an argument, as are the bytes
  every \<open>Read\<close> delivers; what is written is a result. The two sides do not fit together: the accepting side
  acknowledges with the session key alone, the offering side compares with key, IV and start
  sequence number.
\<close>

section \<open>Randomness and buffers\<close>

definition RSAKeySize :: nat where "RSAKeySize = 459"

definition RSAEncryptionSize :: nat where "RSAEncryptionSize = 256"

definition SignatureSize :: nat where "SignatureSize = 65"

text \<open>\<open>rand n\<close> is what the random source answers when asked for \<open>n\<close> bytes.\<close>

definition generateNRandomBytes :: "(nat \<Rightarrow> go_error + u8 list) \<Rightarrow> nat \<Rightarrow> go_error + u8 list" where
  "generateNRandomBytes rand n = (case rand n of Inl err \<Rightarrow> Inl err | Inr b \<Rightarrow> Inr b)"

definition createAESKey :: "(nat \<Rightarrow> go_error + u8 list) \<Rightarrow> go_error + u8 list" where
  "createAESKey rand = generateNRandomBytes rand AESKeySize"

text \<open>An error is only logged, and the nil slice is used.\<close>

definition or_nil :: "go_error + u8 list \<Rightarrow> u8 list" where
  "or_nil r = (case r of Inl err \<Rightarrow> [] | Inr b \<Rightarrow> b)"

text \<open>\<open>Read\<close> into a fresh buffer of \<open>n\<close> bytes; what is not delivered stays zero.\<close>

definition read_buffer :: "nat \<Rightarrow> u8 list \<Rightarrow> u8 list" where
  "read_buffer n delivered = take n delivered @ replicate (n - length delivered) 0"

section \<open>The handshake\<close>

fun shares_channel :: "pubkey \<Rightarrow> pubkey list \<Rightarrow> bool" where
  "shares_channel peer [] = False"
| "shares_channel peer (neighbor # rest) = (if neighbor = peer then True else shares_channel peer rest)"

text \<open>The checks both sides make on the public key and signature they read.\<close>

definition check_peer :: "Lnd \<Rightarrow> DB \<Rightarrow> string \<Rightarrow> u8 list \<Rightarrow> (u8 list \<times> pubkey) res" where
  "check_peer client db notRegistered peerPubKeyAndSignature =
     bind_res (slice 0 RSAKeySize peerPubKeyAndSignature) (\<lambda>peerPubKey.
     bind_res (slice RSAKeySize (length peerPubKeyAndSignature) peerPubKeyAndSignature) (\<lambda>peerPubKeySignature.
     bind_res (VerifyMessage client peerPubKey peerPubKeySignature) (\<lambda>(verified, peerLightningPubKey).
     if \<not> verified then Inl (Fatal ''Failed when verifying peer's signature.'')
     else bind_res (GetLocalNodeNeighboursPubKeys client) (\<lambda>neighbors.
       if \<not> shares_channel peerLightningPubKey neighbors
       then Inl (Fatal ''Peer does not share a channel with the local node.'')
       else if \<not> IsNodeRegistered db peerLightningPubKey then Inl (Fatal notRegistered)
       else Inr (peerPubKey, peerLightningPubKey)))))"

record session =
  ss_key :: "u8 list"
  ss_baseIV :: "u8 list"
  ss_startSeq :: "u8 list"
  ss_peer :: pubkey

definition offerPeerHandshake :: "rsa \<Rightarrow> Lnd \<Rightarrow> DB \<Rightarrow> nat \<Rightarrow> nat \<Rightarrow>
    (nat \<Rightarrow> go_error + u8 list) \<Rightarrow> (nat \<Rightarrow> go_error + u8 list) \<Rightarrow> (nat \<Rightarrow> go_error + u8 list) \<Rightarrow>
    u8 list \<Rightarrow> u8 list \<Rightarrow> (u8 list list \<times> session) res" where
  "offerPeerHandshake rs client addressDB rngPair rng randKey randIV randSeq read1 read2 =
     bind_res (generateRSAKeyPair rs rngPair) (\<lambda>(privKey, pubKey).
     bind_res (SignMessage client pubKey) (\<lambda>pubKeySignature.
     bind_res (check_peer client addressDB ''Peer is not registered in the routing protocol.''
       (read_buffer (RSAKeySize + SignatureSize) read1)) (\<lambda>(peerPubKey, peerLightningPubKey).
     let aesKey = or_nil (createAESKey randKey);
         baseIV = or_nil (generateNRandomBytes randIV AESBaseIVSize);
         startSeq = or_nil (generateNRandomBytes randSeq AESStartSeqSize);
         aesInfo = aesKey @ baseIV @ startSeq
     in bind_res (encryptRSA rs rng peerPubKey aesInfo) (\<lambda>encryptedAESInfo.
     bind_res (decryptRSA rs privKey (read_buffer RSAEncryptionSize read2)) (\<lambda>aesInfoMessage.
     if aesInfo \<noteq> aesInfoMessage then Inl (Fatal ''Error reading AES ACK from peer'')
     else Inr ([pubKey @ pubKeySignature, encryptedAESInfo],
       \<lparr>ss_key = aesKey, ss_baseIV = baseIV, ss_startSeq = startSeq, ss_peer = peerLightningPubKey\<rparr>))))))"

definition acceptPeerHandshake :: "rsa \<Rightarrow> Lnd \<Rightarrow> DB \<Rightarrow> nat \<Rightarrow> nat \<Rightarrow>
    u8 list \<Rightarrow> u8 list \<Rightarrow> (u8 list list \<times> session) res" where
  "acceptPeerHandshake rs client db rngPair rng read1 read2 =
     bind_res (check_peer client db ''Peer's is not registered in the routing protocol.''
       (read_buffer (RSAKeySize + SignatureSize) read1)) (\<lambda>(peerPubKey, peerLightningPubKey).
     bind_res (generateRSAKeyPair rs rngPair) (\<lambda>(privKey, pubKey).
     bind_res (SignMessage client pubKey) (\<lambda>pubKeySignature.
     bind_res (decryptRSA rs privKey (read_buffer 256 read2)) (\<lambda>aesInfo.
     bind_res (slice 0 AESKeySize aesInfo) (\<lambda>aesKey.
     bind_res (slice AESKeySize (AESKeySize + AESBaseIVSize) aesInfo) (\<lambda>baseIV.
     bind_res (slice (AESKeySize + AESBaseIVSize) (AESKeySize + AESBaseIVSize + AESStartSeqSize) aesInfo) (\<lambda>startSeq.
     bind_res (encryptRSA rs rng peerPubKey aesKey) (\<lambda>encryptedAESKey.
     Inr ([pubKey @ pubKeySignature, encryptedAESKey],
       \<lparr>ss_key = aesKey, ss_baseIV = baseIV, ss_startSeq = startSeq, ss_peer = peerLightningPubKey\<rparr>)))))))))"

section \<open>Facts\<close>

lemma shares_channel_iff: "shares_channel peer ns \<longleftrightarrow> peer \<in> set ns"
  by (induction ns) auto

lemma read_buffer_exact [simp]: "length bs = n \<Longrightarrow> read_buffer n bs = bs"
  by (simp add: read_buffer_def)

lemma check_peer_Inr:
  assumes "check_peer client db msg buf = Inr (key, peer)"
  shows "key = take RSAKeySize buf \<and>
    VerifyMessage client (take RSAKeySize buf) (drop RSAKeySize buf) = Inr (True, peer) \<and>
    (\<exists>ns. GetLocalNodeNeighboursPubKeys client = Inr ns \<and> peer \<in> set ns) \<and> IsNodeRegistered db peer"
  using assms
  by (auto simp: check_peer_def bind_res_eq_Inr slice_eq_Inr shares_channel_iff split: if_split_asm)

lemma accept_parts:
  assumes "acceptPeerHandshake rs client db rngPair rng read1 read2 = Inr ([m1, ack], s)"
  shows "check_peer client db ''Peer's is not registered in the routing protocol.''
      (read_buffer (RSAKeySize + SignatureSize) read1) =
      Inr (take RSAKeySize (read_buffer (RSAKeySize + SignatureSize) read1), ss_peer s) \<and>
    encryptRSA rs rng (take RSAKeySize (read_buffer (RSAKeySize + SignatureSize) read1)) (ss_key s) = Inr ack \<and>
    length (ss_key s) = AESKeySize \<and> length (ss_baseIV s) = AESBaseIVSize \<and> length (ss_startSeq s) = AESStartSeqSize"
proof -
  obtain key peer where c: "check_peer client db ''Peer's is not registered in the routing protocol.''
      (read_buffer (RSAKeySize + SignatureSize) read1) = Inr (key, peer)"
    using assms by (auto simp: acceptPeerHandshake_def bind_res_eq_Inr)
  then have "key = take RSAKeySize (read_buffer (RSAKeySize + SignatureSize) read1)"
    using check_peer_Inr by blast
  with assms c show ?thesis
    by (auto simp: acceptPeerHandshake_def bind_res_eq_Inr slice_eq_Inr aes_sizes)
qed

section \<open>Properties\<close>

text \<open>
  C40: who can be a peer. The accepting side of the handshake succeeds only with a node whose
  signature over the RSA key lnd confirms, that shares a channel with the local node and is
  registered; the session then has a 16-byte key, a 12-byte IV and a 12-byte start sequence
  number, and is acknowledged with the key encrypted for the peer.
\<close>

theorem accepted_peer_is_authentic:
  assumes "acceptPeerHandshake rs client db rngPair rng read1 read2 = Inr ([m1, ack], s)"
    and "length read1 = RSAKeySize + SignatureSize"
  shows "VerifyMessage client (take RSAKeySize read1) (drop RSAKeySize read1) = Inr (True, ss_peer s) \<and>
    (\<exists>ns. GetLocalNodeNeighboursPubKeys client = Inr ns \<and> ss_peer s \<in> set ns) \<and>
    IsNodeRegistered db (ss_peer s) \<and>
    encryptRSA rs rng (take RSAKeySize read1) (ss_key s) = Inr ack \<and>
    session_ok \<lparr>ci_locked = False, ci_conn = n, ci_sessionKey = ss_key s, ci_baseIV = ss_baseIV s,
      ci_seqNumber = ss_startSeq s\<rparr>"
proof -
  have buffer: "read_buffer (RSAKeySize + SignatureSize) read1 = read1"
    by (rule read_buffer_exact [OF assms(2)])
  note parts = accept_parts [OF assms(1), unfolded buffer]
  show ?thesis
    using check_peer_Inr [OF parts [THEN conjunct1]] parts by (simp add: session_ok_def)
qed

text \<open>
  C18: no handshake completes. Let the accepting side have finished, for the RSA key of the offering
  side, and let decryption undo encryption for that key. Then the offering side, reading the
  acknowledgement, never succeeds: it compares the 16-byte key it gets with the 40 bytes of key, IV
  and start sequence number.
\<close>

theorem handshake_never_completes:
  assumes "acceptPeerHandshake rs clientA dbA rngPairA rngA readA1 readA2 = Inr ([m1, ack], s)"
    and "generateRSAKeyPair rs rngPairO = Inr (privO, pubO)" and "rsa_lib_ok rs"
    and "take RSAKeySize (read_buffer (RSAKeySize + SignatureSize) readA1) = pubO"
    and "\<forall>n. \<exists>b. randIV n = Inr b \<and> length b = n"
    and "\<forall>n b. randKey n = Inr b \<longrightarrow> length b = n" and "\<forall>n b. randSeq n = Inr b \<longrightarrow> length b = n"
  shows "\<exists>f. offerPeerHandshake rs clientO dbO rngPairO rngO randKey randIV randSeq readO ack = Inl f"
proof (rule ccontr)
  assume "\<not> ?thesis"
  then obtain r where r: "offerPeerHandshake rs clientO dbO rngPairO rngO randKey randIV randSeq readO ack = Inr r"
    by (cases "offerPeerHandshake rs clientO dbO rngPairO rngO randKey randIV randSeq readO ack") auto
  have "encryptRSA rs rngA pubO (ss_key s) = Inr ack" and len: "length (ss_key s) = AESKeySize"
    using accept_parts [OF assms(1)] assms(4) by auto
  then have ack: "length ack = RSAEncryptionSize" "decryptRSA rs privO ack = Inr (ss_key s)"
    using encrypt_decrypt [OF assms(3,2)] by (simp_all add: RSAEncryptionSize_def)
  let ?key = "or_nil (createAESKey randKey)" and ?iv = "or_nil (generateNRandomBytes randIV AESBaseIVSize)"
    and ?seq = "or_nil (generateNRandomBytes randSeq AESStartSeqSize)"
  have sent: "?key @ ?iv @ ?seq = ss_key s"
    using r ack assms(2)
    by (auto simp: offerPeerHandshake_def bind_res_eq_Inr Let_def split: if_split_asm)
  have iv: "length ?iv = 12"
    using assms(5) [rule_format, of 12] by (auto simp: generateNRandomBytes_def or_nil_def aes_sizes)
  have key: "length ?key = 0 \<or> length ?key = 16"
    using assms(6) by (auto simp: createAESKey_def generateNRandomBytes_def or_nil_def aes_sizes split: sum.splits)
  have seq: "length ?seq = 0 \<or> length ?seq = 12"
    using assms(7) by (auto simp: generateNRandomBytes_def or_nil_def aes_sizes split: sum.splits)
  have "length ?key + (length ?iv + length ?seq) = 16"
    using arg_cong [OF sent, of length] len by (simp add: aes_sizes)
  with iv key seq show False
    by auto
qed

text \<open>An example: peer 1, whose key is all ones.\<close>

definition example_key_message :: "u8 list" where
  "example_key_message = replicate 459 1 @ replicate 65 1"

lemma example_accept:
  assumes "IsNodeRegistered db (example_key 1)"
  shows "\<exists>m1 ack s. acceptPeerHandshake example_rsa (example_lnd [example_channel 1 10]) db 0 0
       example_key_message (40 # replicate 40 7 @ replicate 215 0) = Inr ([m1, ack], s) \<and> ss_peer s = example_key 1"
proof -
  let ?ln = "example_lnd [example_channel 1 10]"
  have buffer: "read_buffer (RSAKeySize + SignatureSize) example_key_message = example_key_message"
    by (rule read_buffer_exact) (simp add: example_key_message_def RSAKeySize_def SignatureSize_def)
  have parts: "slice 0 RSAKeySize example_key_message = Inr (replicate 459 1)"
    "slice RSAKeySize (length example_key_message) example_key_message = Inr (replicate 65 1)"
    by (simp_all add: example_key_message_def RSAKeySize_def slice_def)
  have pubkey: "PubKeyStringToArray (PubKeyArrayToString (arr_copy 0 [2, 1])) = Inr (example_key 1)"
    by (simp add: example_key_def)
  have verified: "VerifyMessage ?ln (replicate 459 1) (replicate 65 1) = Inr (True, example_key 1)"
    using pubkey by (simp add: VerifyMessage_def example_lnd_def)
  have neighbours: "GetLocalNodeNeighboursPubKeys ?ln = Inr [example_key 1]"
    by (simp add: GetLocalNodeNeighboursPubKeys_def example_lnd_def)
  have checked: "check_peer ?ln db ''Peer's is not registered in the routing protocol.'' example_key_message =
      Inr (replicate 459 1, example_key 1)"
    by (simp add: check_peer_def parts verified neighbours assms)
  have signed: "SignMessage ?ln (replicate 459 1) = Inr (replicate 65 1)"
    by (simp add: SignMessage_def example_lnd_def)
  have decrypted: "decryptRSA example_rsa [2, 3] (40 # replicate 40 7 @ replicate 215 0)
      = Inr (replicate 40 7)"
    by (simp add: decryptRSA_def bytesToPrivateRSAKey_def block_bytes_def example_rsa_def)
  have "replicate 459 (1 :: u8) = 1 # replicate 458 1"
    by (simp flip: replicate_Suc)
  then obtain e where encrypted: "encryptRSA example_rsa 0 (replicate 459 1) (replicate 16 7) = Inr e"
    by (simp add: encryptRSA_def bytesToPublicRSAKey_def block_bytes_def example_rsa_def)
  show ?thesis
    by (simp add: acceptPeerHandshake_def example_key_pair buffer checked signed decrypted slice_def aes_sizes encrypted)
qed

lemma example_handshake:
  "\<exists>db m1 ack s. example_db [1] = Inr db \<and> fresh_db [1] db \<and>
     acceptPeerHandshake example_rsa (example_lnd [example_channel 1 10]) db 0 0
       example_key_message (40 # replicate 40 7 @ replicate 215 0) = Inr ([m1, ack], s)"
proof -
  obtain db where db: "example_db [1] = Inr db" "fresh_db [1] db"
    using example_db_fresh by blast
  then have "IsNodeRegistered db (example_key 1)"
    using fresh_db_facts(3) [OF db(2), of 1] by (simp add: IsNodeRegistered_eq)
  then show ?thesis
    using db example_accept by blast
qed

theorem accepted_peer_is_authentic_witness:
  "\<exists>db m1 ack s. acceptPeerHandshake example_rsa (example_lnd [example_channel 1 10]) db 0 0
       example_key_message (40 # replicate 40 7 @ replicate 215 0) = Inr ([m1, ack], s) \<and>
     IsNodeRegistered db (ss_peer s)"
proof -
  have "length example_key_message = RSAKeySize + SignatureSize"
    by (simp add: example_key_message_def RSAKeySize_def SignatureSize_def)
  then show ?thesis
    using example_handshake accepted_peer_is_authentic by blast
qed

theorem handshake_never_completes_witness:
  "\<exists>db m1 ack s f. acceptPeerHandshake example_rsa (example_lnd [example_channel 1 10]) db 0 0
       example_key_message (40 # replicate 40 7 @ replicate 215 0) = Inr ([m1, ack], s) \<and>
     offerPeerHandshake example_rsa (example_lnd [example_channel 1 10]) db 0 0
       (\<lambda>n. Inr (replicate n 7)) (\<lambda>n. Inr (replicate n 7)) (\<lambda>n. Inr (replicate n 7)) example_key_message ack = Inl f"
proof -
  obtain db m1 ack s where *: "acceptPeerHandshake example_rsa (example_lnd [example_channel 1 10]) db
      0 0 example_key_message (40 # replicate 40 7 @ replicate 215 0) = Inr ([m1, ack], s)"
    using example_handshake by blast
  have key: "take RSAKeySize (read_buffer (RSAKeySize + SignatureSize) example_key_message) = replicate 459 1"
    by (simp add: read_buffer_def example_key_message_def RSAKeySize_def SignatureSize_def)
  then show ?thesis
    using * handshake_never_completes [OF * example_key_pair example_rsa_ok key,
        where randIV = "\<lambda>n. Inr (replicate n 7)" and randKey = "\<lambda>n. Inr (replicate n 7)"
          and randSeq = "\<lambda>n. Inr (replicate n 7)" and clientO = "example_lnd [example_channel 1 10]"
          and dbO = db and rngO = 0 and readO = example_key_message]
    by fastforce
qed

end
