(* ===== verification/Connections.thy ===== *)
theory Connections
  imports Handshake
begin

text \<open>
  Opening and accepting connections (\<open>ldrlib/networking.go\<close>): dialing peers and destinations, the
  byte that tells the kind of a connection, and the accepting loop. What the network and the random
  sources do is the record \<open>Env\<close>; TCP connections are numbers. A goroutine started with
  \<open>go handlePeerConnection\<close> runs its beginning, which enters the connection into the database; its
  message loop is \<open>handlePeerConnection\<close>.
\<close>

section \<open>The environment\<close>

text \<open>
  \<open>env_Dial k\<close> answers the \<open>k\<close>-th dialing of a call; \<open>env_reads conn k\<close> is what the \<open>k\<close>-th \<open>Read\<close> on
  a connection delivers, nothing when the connection is closed; \<open>env_Write\<close> is the error of
  writing the token. The other fields are the random choices of a handshake.
\<close>

record Env =
  env_rsa :: rsa
  env_Dial :: "nat \<Rightarrow> string \<Rightarrow> go_error + nat"
  env_reads :: "nat \<Rightarrow> nat \<Rightarrow> u8 list"
  env_Write :: "nat \<Rightarrow> u8 list \<Rightarrow> go_error option"
  env_rngPair :: "nat \<Rightarrow> nat"
  env_rng :: "nat \<Rightarrow> nat"
  env_randKey :: "nat \<Rightarrow> nat \<Rightarrow> go_error + u8 list"
  env_randIV :: "nat \<Rightarrow> nat \<Rightarrow> go_error + u8 list"
  env_randSeq :: "nat \<Rightarrow> nat \<Rightarrow> go_error + u8 list"

definition DefaultPort :: string where "DefaultPort = ''8695''"

definition peerConn :: "8 word" where "peerConn = 0"

definition destinationConn :: "8 word" where "destinationConn = 1"

definition tcp_write :: "nat \<Rightarrow> u8 list \<Rightarrow> Node \<Rightarrow> Node" where
  "tcp_write conn bs node = node\<lparr>nd_written := nd_written node @ [(conn, bs)]\<rparr>"

section \<open>The kind of a connection\<close>

definition writeConnectionType :: "nat \<Rightarrow> 8 word \<Rightarrow> Node \<Rightarrow> Node" where
  "writeConnectionType conn connType node = tcp_write conn [connType] node"

text \<open>A failed read is logged and leaves the zero value.\<close>

definition readConnectionType :: "u8 list \<Rightarrow> 8 word" where
  "readConnectionType delivered = (case delivered of [] \<Rightarrow> 0 | b # _ \<Rightarrow> b)"

section \<open>Dialing\<close>

text \<open>After the handshake: its messages have been written, and the goroutine starts.\<close>

definition start_session :: "nat \<Rightarrow> u8 list list \<times> session \<Rightarrow> Node \<Rightarrow> Node res" where
  "start_session conn = (\<lambda>(messages, s) node.
     bind_res (open_peer_session conn (ss_key s) (ss_baseIV s) (ss_startSeq s) (ss_peer s)
       (foldl (\<lambda>node m. tcp_write conn m node) node messages)) (\<lambda>(_, node). Inr node))"

definition ConnectToPeer :: "Env \<Rightarrow> Lnd \<Rightarrow> nat \<Rightarrow> string \<Rightarrow> Node \<Rightarrow> (go_error option \<times> Node) res" where
  "ConnectToPeer env client k ipAddress node =
     (case env_Dial env k ipAddress of
        Inl err \<Rightarrow> Inr (Some err, node)
      | Inr conn \<Rightarrow>
          let node = writeConnectionType conn peerConn node in
          bind_res (offerPeerHandshake (env_rsa env) client (nd_db node) (env_rngPair env conn)
              (env_rng env conn) (env_randKey env conn) (env_randIV env conn) (env_randSeq env conn)
              (env_reads env conn 0) (env_reads env conn 1)) (\<lambda>result.
          bind_res (start_session conn result node) (\<lambda>node. Inr (None, node))))"

text \<open>The addresses of one neighbour, until one of them answers.\<close>

fun try_addresses :: "Env \<Rightarrow> Lnd \<Rightarrow> string list \<Rightarrow> nat \<times> Node \<Rightarrow> (nat \<times> Node) res" where
  "try_addresses env client [] st = Inr st"
| "try_addresses env client (ipAddress # rest) (k, node) =
     bind_res (ConnectToPeer env client k (ipAddress @ '':'' @ DefaultPort) node) (\<lambda>(err, node).
     case err of
       None \<Rightarrow> Inr (Suc k, node)
     | Some _ \<Rightarrow> try_addresses env client rest (Suc k, node))"

definition ConnectToPeersAuto :: "Env \<Rightarrow> Lnd \<Rightarrow> Node \<Rightarrow> Node res" where
  "ConnectToPeersAuto env client node =
     bind_res (GetLocalNodeNeighboursPubKeys client) (\<lambda>neighbors.
     bind_res (fold_res (\<lambda>neighbor (k, node).
         if IsNodeRegistered (nd_db node) neighbor then
           bind_res (GetNodeIPs client neighbor) (\<lambda>neighborIPs. try_addresses env client neighborIPs (k, node))
         else Inr (k, node)) neighbors (0, node)) (\<lambda>(_, node).
     Inr node))"

definition ConnectToDestination :: "Env \<Rightarrow> nat \<Rightarrow> string \<Rightarrow> token \<Rightarrow> Node \<Rightarrow> go_error option \<times> Node" where
  "ConnectToDestination env k ipAddress routeToken node =
     (case env_Dial env k ipAddress of
        Inl err \<Rightarrow> (Some err, node)
      | Inr conn \<Rightarrow>
          let node = writeConnectionType conn destinationConn node in
          (case env_Write env conn routeToken of
             Some err \<Rightarrow> (Some err, node)
           | None \<Rightarrow>
               let node = tcp_write conn routeToken node;
                   (r, node) = new_conn \<lparr>ci_locked = False, ci_conn = conn, ci_sessionKey = [],
                     ci_baseIV = [], ci_seqNumber = []\<rparr> node
               in (None, node\<lparr>nd_db := addDestConnToDB routeToken r (nd_db node)\<rparr>)))"

fun try_destination :: "Env \<Rightarrow> token \<Rightarrow> string list \<Rightarrow> nat \<Rightarrow> Node \<Rightarrow> Node" where
  "try_destination env routeToken [] k node = node"
| "try_destination env routeToken (ipAddress # rest) k node =
     (case ConnectToDestination env k (ipAddress @ '':'' @ DefaultPort) routeToken node of
        (None, node) \<Rightarrow> node
      | (Some _, node) \<Rightarrow> try_destination env routeToken rest (Suc k) node)"

definition ConnectToDestinationAuto :: "Env \<Rightarrow> Lnd \<Rightarrow> address \<Rightarrow> token \<Rightarrow> Node \<Rightarrow> Node res" where
  "ConnectToDestinationAuto env client address routeToken node =
     bind_res (IsAddressRegistered (nd_db node) address) (\<lambda>registered.
     if \<not> registered then Inr node
     else bind_res (GetAddressNode (nd_db node) address) (\<lambda>destinationPubKey.
          bind_res (GetNodeIPs client destinationPubKey) (\<lambda>neighborIPs.
          Inr (try_destination env routeToken neighborIPs 0 node))))"

section \<open>Accepting\<close>

text \<open>One round of the accepting loop. The first \<open>Read\<close> is that of the kind of the connection.\<close>

definition accept_connection :: "Env \<Rightarrow> Lnd \<Rightarrow> nat \<Rightarrow> Node \<Rightarrow> Node res" where
  "accept_connection env lnClient conn node =
     (let connType = readConnectionType (env_reads env conn 0) in
      if connType = peerConn then
        bind_res (acceptPeerHandshake (env_rsa env) lnClient (nd_db node) (env_rngPair env conn)
          (env_rng env conn) (env_reads env conn 1) (env_reads env conn 2)) (\<lambda>result.
        start_session conn result node)
      else if connType = destinationConn then
        let routeToken = read_buffer 10 (env_reads env conn 1);
            (r, node) = new_conn \<lparr>ci_locked = False, ci_conn = conn, ci_sessionKey = [],
              ci_baseIV = [], ci_seqNumber = []\<rparr> node
        in Inr (node\<lparr>nd_db := addDestConnToDB routeToken r (nd_db node)\<rparr>)
      else Inr node)"

text \<open>
  The endless loop, over the answers of \<open>Accept\<close>. When \<open>Listen\<close> fails the error is only logged, and
  \<open>Accept\<close> is called on a nil listener.
\<close>

definition ListenForConnections :: "Env \<Rightarrow> Lnd \<Rightarrow> go_error option \<Rightarrow> (go_error + nat) list \<Rightarrow> Node \<Rightarrow> Node res" where
  "ListenForConnections env lnClient listenError accepts node =
     (case listenError of
        Some err \<Rightarrow> Inl NilDeref
      | None \<Rightarrow> fold_res (\<lambda>accepted node. case accepted of
            Inl err \<Rightarrow> Inr node
          | Inr conn \<Rightarrow> accept_connection env lnClient conn node) accepts node)"

section \<open>Facts\<close>

lemma tcp_write_simps [simp]:
  "nd_db (tcp_write conn bs node) = nd_db node"
  "nd_conns (tcp_write conn bs node) = nd_conns node"
  "nd_nextConn (tcp_write conn bs node) = nd_nextConn node"
  "nd_written (tcp_write conn bs node) = nd_written node @ [(conn, bs)]"
  "nd_closed (tcp_write conn bs node) = nd_closed node"
  by (simp_all add: tcp_write_def)

text \<open>A connection for a token, entered into the table of the node.\<close>

definition dest_conn :: "nat \<Rightarrow> connInfo" where
  "dest_conn conn = \<lparr>ci_locked = False, ci_conn = conn, ci_sessionKey = [], ci_baseIV = [], ci_seqNumber = []\<rparr>"

definition announced :: "nat \<Rightarrow> token \<Rightarrow> Node \<Rightarrow> Node" where
  "announced conn routeToken node = node\<lparr>
     nd_conns := (nd_conns node)(nd_nextConn node := dest_conn conn), nd_nextConn := Suc (nd_nextConn node),
     nd_db := addDestConnToDB routeToken (nd_nextConn node) (nd_db node)\<rparr>"

lemma announced_simps [simp]:
  "nd_db (announced conn t node) = addDestConnToDB t (nd_nextConn node) (nd_db node)"
  "nd_conns (announced conn t node) = (nd_conns node)(nd_nextConn node := dest_conn conn)"
  "nd_written (announced conn t node) = nd_written node"
  "nd_nextConn (announced conn t node) = Suc (nd_nextConn node)"
  by (simp_all add: announced_def)

lemma ci_conn_dest_conn [simp]: "ci_conn (dest_conn conn) = conn"
  by (simp add: dest_conn_def)

lemma ConnectToDestination_eq:
  "ConnectToDestination env k ipAddress routeToken node =
     (case env_Dial env k ipAddress of
        Inl err \<Rightarrow> (Some err, node)
      | Inr conn \<Rightarrow>
          (case env_Write env conn routeToken of
             Some err \<Rightarrow> (Some err, tcp_write conn [destinationConn] node)
           | None \<Rightarrow> (None, announced conn routeToken
               (tcp_write conn routeToken (tcp_write conn [destinationConn] node)))))"
  by (simp add: ConnectToDestination_def writeConnectionType_def new_conn_def announced_def dest_conn_def
      Let_def split: sum.split option.split)

lemma accept_destination_eq:
  "readConnectionType (env_reads env conn 0) = destinationConn \<Longrightarrow>
   accept_connection env lnClient conn node = Inr (announced conn (read_buffer 10 (env_reads env conn 1)) node)"
  by (simp add: accept_connection_def peerConn_def destinationConn_def new_conn_def announced_def
      dest_conn_def Let_def)

text \<open>Looking up a token after one has been announced.\<close>

lemma addr_map_addDestConn [simp]: "addr_map (addDestConnToDB t r db) = addr_map db"
  by (simp add: addDestConnToDB_def)

lemma getDestConn_add [simp]:
  "getDestConn (addDestConnToDB t r db) t' = (if t' = t then Some r else getDestConn db t')"
  by (simp add: getDestConn_def addDestConnToDB_def)

lemma unverified_peer:
  assumes "VerifyMessage client (take RSAKeySize buf) (drop RSAKeySize buf) = Inr (False, pk)"
    and "length buf = RSAKeySize + SignatureSize"
  shows "check_peer client db msg buf = Inl (Fatal ''Failed when verifying peer's signature.'')"
  using assms by (simp add: check_peer_def slice_def)

lemma length_read_buffer [simp]: "length (read_buffer n bs) = n"
  by (simp add: read_buffer_def)

section \<open>Properties\<close>

text \<open>
  C27: anyone can stop the node. A connection that is closed before it sends anything counts as a
  peer connection, like one that sends the byte 0. When lnd finds no valid signature in what the
  handshake then reads, zeros for a closed connection, the accepting loop ends the whole program,
  however many connections it has served before.
\<close>

theorem closed_connection_stops_listener:
  assumes "ListenForConnections env client None served node = Inr node'"
    and "env_reads env conn 0 = [] \<or> hd (env_reads env conn 0) = 0"
    and "buf = read_buffer (RSAKeySize + SignatureSize) (env_reads env conn 1)"
    and "VerifyMessage client (take RSAKeySize buf) (drop RSAKeySize buf) = Inr (False, pk)"
  shows "ListenForConnections env client None (served @ Inr conn # later) node =
      Inl (Fatal ''Failed when verifying peer's signature.'')"
proof -
  have peer: "readConnectionType (env_reads env conn 0) = peerConn"
    using assms(2) by (auto simp: readConnectionType_def peerConn_def split: list.split)
  have "accept_connection env client conn node' = Inl (Fatal ''Failed when verifying peer's signature.'')"
    using peer unverified_peer [OF assms(4)] assms(3)
    by (simp add: accept_connection_def acceptPeerHandshake_def)
  then show ?thesis
    using assms(1) by (simp add: ListenForConnections_def fold_res_append)
qed

text \<open>
  Announcing a route. Let A dial B, the token of ten bytes be written without an error, and B
  accept the connection and read what A has written on it. Then both nodes find the connection
  under the token, and no other token, peer or address changes at either of them.
\<close>

lemma destination_announced:
  assumes "ConnectToDestination env k ipAddress routeToken A = (None, A')"
    and "env_Dial env k ipAddress = Inr conn" and "length routeToken = 10"
    and "nd_written A' = nd_written A @ [(conn, env_reads envB connB 0), (conn, env_reads envB connB 1)]"
  shows "\<exists>B' rA rB. accept_connection envB client connB B = Inr B' \<and>
    getDestConn (nd_db A') routeToken = Some rA \<and> ci_conn (nd_conns A' rA) = conn \<and>
    getDestConn (nd_db B') routeToken = Some rB \<and> ci_conn (nd_conns B' rB) = connB \<and>
    (\<forall>t. t \<noteq> routeToken \<longrightarrow> getDestConn (nd_db A') t = getDestConn (nd_db A) t \<and>
       getDestConn (nd_db B') t = getDestConn (nd_db B) t) \<and>
    addr_map (nd_db A') = addr_map (nd_db A) \<and> addr_map (nd_db B') = addr_map (nd_db B)"
proof -
  have A': "A' = announced conn routeToken (tcp_write conn routeToken (tcp_write conn [destinationConn] A))"
    using assms(1,2) by (simp add: ConnectToDestination_eq split: option.splits)
  then have reads: "env_reads envB connB 0 = [destinationConn]" "env_reads envB connB 1 = routeToken"
    using assms(4) by simp_all
  then have "accept_connection envB client connB B = Inr (announced connB routeToken B)"
    using assms(3) by (simp add: accept_destination_eq readConnectionType_def)
  then show ?thesis
    using A' by (intro exI [of _ "announced connB routeToken B"] exI [of _ "nd_nextConn A"] exI [of _ "nd_nextConn B"]) simp
qed

section \<open>Examples\<close>

definition example_env :: Env where
  "example_env =
     \<lparr>env_rsa = example_rsa, env_Dial = (\<lambda>k ip. if ip = ''10.0.0.2:8695'' then Inr 5 else Inl ''connection refused''),
      env_reads = (\<lambda>conn k. if conn = 9 then [[1], replicate 10 65] ! k else []), env_Write = (\<lambda>conn bs. None),
      env_rngPair = (\<lambda>_. 0), env_rng = (\<lambda>_. 0), env_randKey = (\<lambda>_ n. Inr (replicate n 7)),
      env_randIV = (\<lambda>_ n. Inr (replicate n 7)), env_randSeq = (\<lambda>_ n. Inr (replicate n 7))\<rparr>"

theorem closed_connection_stops_listener_witness:
  "ListenForConnections example_env ((example_lnd [])\<lparr>rpc_VerifyMessage := (\<lambda>m s. Inr (False, []))\<rparr>) None
     [Inr 9, Inr 3, Inr 4] (example_node (createDB ''data'')) =
   Inl (Fatal ''Failed when verifying peer's signature.'')"
proof -
  let ?ln = "(example_lnd [])\<lparr>rpc_VerifyMessage := (\<lambda>m s. Inr (False, []))\<rparr>"
  let ?node = "example_node (createDB ''data'')"
  have "accept_connection example_env ?ln 9 ?node = Inr (announced 9 (replicate 10 65) ?node)"
    by (simp add: accept_destination_eq readConnectionType_def example_env_def destinationConn_def)
  then have "ListenForConnections example_env ?ln None [Inr 9] ?node = Inr (announced 9 (replicate 10 65) ?node)"
    by (simp add: ListenForConnections_def)
  moreover have "env_reads example_env 3 0 = []"
    by (simp add: example_env_def)
  moreover have "VerifyMessage ?ln m s = Inr (False, arr_copy 0 [])" for m s
    by (simp add: VerifyMessage_def PubKeyStringToArray_def)
  ultimately show ?thesis
    using closed_connection_stops_listener [of example_env ?ln "[Inr 9]" ?node _ 3 _ "arr_copy 0 []" "[Inr 4]"]
    by simp
qed

end
