(* ===== verification/Route_Probe.thy ===== *)
theory Route_Probe
  imports Connections
begin

text \<open>
  Finding a route (\<open>GetRouteAuto\<close> and \<open>GetRouteManual\<close> of \<open>ldrlib/routing.go\<close>): the sender announces
  a token at the destination, sends the request along its own routing table and reads the route
  from the announced connection. The result is a Go pair of a route and an error, with the node left
  behind; what the destination writes is among the reads of the environment.
\<close>

section \<open>Operations\<close>

text \<open>The common end of the two: the request is sent and the answer read.\<close>

definition probe_route :: "Env \<Rightarrow> aead \<Rightarrow> Lnd \<Rightarrow> Route \<Rightarrow> Node \<Rightarrow> ((go_error + Route) \<times> Node) res" where
  "probe_route env c client route node =
     bind_res (addHopToRoute client (nd_db node) route) (\<lambda>hop. case hop of
       Inl err \<Rightarrow> Inr (Inl err, node)
     | Inr (localHop, route) \<Rightarrow>
         bind_res (ForwardRoute c route localHop node) (\<lambda>node.
         let delivered = (case getDestConn (nd_db node) (rt_token route) of
               None \<Rightarrow> [] | Some r \<Rightarrow> env_reads env (ci_conn (nd_conns node r)) 0)
         in bind_res (ReceiveRouteFromDestination delivered (rt_token route) node) (\<lambda>(routeResponse, node).
            Inr (Inr routeResponse, node))))"

definition not_registered :: go_error where
  "not_registered = ''Destination is not a registered address''"

text \<open>The error of \<open>ConnectToDestination\<close> is dropped, as in the source.\<close>

definition GetRouteManual :: "Env \<Rightarrow> aead \<Rightarrow> Lnd \<Rightarrow> u8 list \<Rightarrow> address \<Rightarrow> string \<Rightarrow> Node \<Rightarrow>
    ((go_error + Route) \<times> Node) res" where
  "GetRouteManual env c client routeTokenBytes destination ipAddress node =
     (let route = createRoute routeTokenBytes destination in
      bind_res (IsAddressRegistered (nd_db node) destination) (\<lambda>registered.
      if \<not> registered then Inr (Inl not_registered, node)
      else let (_, node) = ConnectToDestination env 0 ipAddress (rt_token route) node
           in probe_route env c client route node))"

definition GetRouteAuto :: "Env \<Rightarrow> aead \<Rightarrow> Lnd \<Rightarrow> u8 list \<Rightarrow> address \<Rightarrow> Node \<Rightarrow>
    ((go_error + Route) \<times> Node) res" where
  "GetRouteAuto env c client routeTokenBytes destination node =
     (let route = createRoute routeTokenBytes destination in
      bind_res (IsAddressRegistered (nd_db node) destination) (\<lambda>registered.
      if \<not> registered then Inr (Inl not_registered, node)
      else bind_res (GetAddressNode (nd_db node) destination) (\<lambda>nodePubKey.
           bind_res (GetNodeIPs client nodePubKey) (\<lambda>ipAddresses.
           bind_res (index ipAddresses 0) (\<lambda>_.
           bind_res (ConnectToDestinationAuto env client destination (rt_token route) node)
             (probe_route env c client route))))))"

section \<open>Facts\<close>

lemma createRoute_simps [simp]:
  "rt_destination (createRoute t d) = d" "rt_token (createRoute t d) = t"
  "rt_hops (createRoute t d) = []" "rt_capacity (createRoute t d) = 0"
  by (simp_all add: createRoute_def)

text \<open>The answer read from an announced connection, when it is an encoded route.\<close>

lemma take_serialized_header:
  assumes "length (rt_token route) = 10"
  shows "take 22 (serializeRoute route) @ replicate 2 0 = serializeRoute (route\<lparr>rt_hops := []\<rparr>)"
    and "22 \<le> length (serializeRoute route)"
proof -
  have "le_bytes 2 (0 :: u16) = replicate 2 0"
    by code_simp
  then show "take 22 (serializeRoute route) @ replicate 2 0 = serializeRoute (route\<lparr>rt_hops := []\<rparr>)"
    using assms by (simp add: serializeRoute_def)
  show "22 \<le> length (serializeRoute route)"
    using assms by (simp add: serializeRoute_def)
qed

lemma ReceiveRoute_eq:
  assumes "getDestConn (nd_db node) t = Some r" and "length (rt_token route) = 10"
  shows "ReceiveRouteFromDestination (serializeRoute route) t node =
    Inr (route\<lparr>rt_hops := []\<rparr>, node\<lparr>nd_closed := ci_conn (nd_conns node r) # nd_closed node,
      nd_db := removeDestConnFromDB t (nd_db node)\<rparr>)"
proof -
  have zero: "le_get 2 (replicate 2 0 :: u8 list) = Inr (0 :: u16)"
    by code_simp
  have "deserializeRoute (take 22 (serializeRoute route) @ replicate 2 0) = Inr (route\<lparr>rt_hops := []\<rparr>)"
    using deserializeRoute_serializeRoute [of "route\<lparr>rt_hops := []\<rparr>"] take_serialized_header [OF assms(2)] assms(2)
    by simp
  then show ?thesis
    using assms(1) take_serialized_header(2) [OF assms(2)] zero
    by (simp add: ReceiveRouteFromDestination_def closeDestConnection_def Let_def)
qed

lemma ReceiveRoute_unannounced:
  "getDestConn (nd_db node) t = None \<Longrightarrow> ReceiveRouteFromDestination bs t node = Inl NilDeref"
  by (simp add: ReceiveRouteFromDestination_def)

text \<open>The route after the first hop of the sender.\<close>

definition first_hop :: "DB \<Rightarrow> Channel list \<Rightarrow> routingEntry \<Rightarrow> Route \<Rightarrow> Route" where
  "first_hop db chs e route = route\<lparr>
     rt_capacity := hop_capacity (PubKeyArrayToString (hop_key db (re_nextHop e))) (length (rt_hops route)) chs
       (rt_capacity route),
     rt_hops := rt_hops route @ [re_nextHop e]\<rparr>"

lemma first_hop_simps [simp]:
  "rt_destination (first_hop db chs e route) = rt_destination route"
  "rt_token (first_hop db chs e route) = rt_token route"
  "rt_hops (first_hop db chs e route) = rt_hops route @ [re_nextHop e]"
  by (simp_all add: first_hop_def)

lemma probe_route_eq:
  assumes "db_ok (nd_db node)" and "rpc_ListChannels client = Inr chs"
    and "route_map (nd_db node) (rt_destination route) = Some e"
  shows "probe_route env c client route node =
    bind_res (ForwardRoute c (first_hop (nd_db node) chs e route) (re_nextHop e) node) (\<lambda>node.
      let delivered = (case getDestConn (nd_db node) (rt_token route) of
            None \<Rightarrow> [] | Some r \<Rightarrow> env_reads env (ci_conn (nd_conns node r)) 0)
      in bind_res (ReceiveRouteFromDestination delivered (rt_token route) node) (\<lambda>(routeResponse, node).
         Inr (Inr routeResponse, node)))"
proof -
  have "registered (nd_db node) (rt_destination route)"
    using assms(3) by (auto simp: route_map_Some registered_def)
  then have "addHopToRoute client (nd_db node) route =
      Inr (Inr (re_nextHop e, first_hop (nd_db node) chs e route))"
    using addHopToRoute_eq [OF assms(1,2)] assms(3) by (simp add: first_hop_def)
  then show ?thesis
    by (simp add: probe_route_def)
qed

text \<open>What a dialled destination connection leaves alone.\<close>

lemma addDestConn_frame [simp]:
  "db_ok (addDestConnToDB t r db) = db_ok db"
  "route_map (addDestConnToDB t r db) = route_map db"
  "registered (addDestConnToDB t r db) = registered db"
  "hop_key (addDestConnToDB t r db) = hop_key db"
  "db_addressTreeHead (addDestConnToDB t r db) = db_addressTreeHead db"
  "getPeerConn (addDestConnToDB t r db) = getPeerConn db"
  "first_hop (addDestConnToDB t r db) chs e route = first_hop db chs e route"
  by (simp_all add: addDestConnToDB_def registered_def hop_key_def fun_eq_iff getPeerConn_def first_hop_def)

lemma ConnectToDestination_frame:
  assumes "ConnectToDestination env k ip t node = (err, node')"
  shows "db_ok (nd_db node') = db_ok (nd_db node)" "route_map (nd_db node') = route_map (nd_db node)"
    "registered (nd_db node') = registered (nd_db node)" "getPeerConn (nd_db node') = getPeerConn (nd_db node)"
    "first_hop (nd_db node') chs e route = first_hop (nd_db node) chs e route"
    "r < nd_nextConn node \<Longrightarrow> nd_conns node' r = nd_conns node r"
    "err \<noteq> None \<Longrightarrow> getDestConn (nd_db node') = getDestConn (nd_db node)"
  using assms by (auto simp: ConnectToDestination_eq split: sum.splits option.splits)

lemma ForwardRoute_conn:
  assumes "getPeerConn (nd_db node) a = Inr (Some r)" and "session_ok (nd_conns node r)"
  shows "\<exists>frame. seal_message c (be_bytes 2 forwardRouteType @ serializeRoute route) (nd_conns node r) = Inr frame \<and>
    ForwardRoute c route a node = Inr (upd_conn r incrementSeqNumber (conn_write r frame node))"
  using send_message_eq [OF assms(2)] assms(1) by (simp add: ForwardRoute_def createForwardRouteMessage_def)

lemma probe_route_no_route:
  assumes "db_ok (nd_db node)" and "rpc_ListChannels client = Inr chs"
    and "registered (nd_db node) (rt_destination route)" and "route_map (nd_db node) (rt_destination route) = None"
  shows "\<exists>err. probe_route env c client route node = Inr (Inl err, node)"
  using assms by (simp add: probe_route_def addHopToRoute_eq [OF assms(1,2)])

lemma probe_route_panics:
  assumes "db_ok (nd_db node)" and "rpc_ListChannels client = Inr chs"
    and "route_map (nd_db node) (rt_destination route) = Some e"
    and "no_peer_conn (nd_db node) (re_nextHop e) \<or>
      getDestConn (nd_db node) (rt_token route) = None \<and>
      (\<exists>r. getPeerConn (nd_db node) (re_nextHop e) = Inr (Some r) \<and> session_ok (nd_conns node r))"
  shows "probe_route env c client route node = Inl NilDeref"
  using assms(4)
proof
  assume "no_peer_conn (nd_db node) (re_nextHop e)"
  then show ?thesis
    by (simp add: probe_route_eq [OF assms(1-3)] ForwardRoute_eq [OF assms(1)])
next
  assume none: "getDestConn (nd_db node) (rt_token route) = None \<and>
    (\<exists>r. getPeerConn (nd_db node) (re_nextHop e) = Inr (Some r) \<and> session_ok (nd_conns node r))"
  then obtain node' where "ForwardRoute c (first_hop (nd_db node) chs e route) (re_nextHop e) node = Inr node'"
      "nd_db node' = nd_db node"
    using ForwardRoute_conn [of node "re_nextHop e"] by fastforce
  then show ?thesis
    using none by (simp add: probe_route_eq [OF assms(1-3)] ReceiveRoute_unannounced)
qed

section \<open>Properties\<close>

text \<open>
  C29: searches that fail. For an address that is not registered, and for one without a route,
  \<open>GetRouteManual\<close> returns an error. But when there is a route, and there is no connection to its
  next hop or the destination cannot be reached, it panics with a nil dereference: the error of
  dialing is dropped and the answer awaited on a connection that was never made.
\<close>

theorem GetRouteManual_failures:
  assumes "db_ok (nd_db node)" and "rpc_ListChannels client = Inr chs"
    and "\<forall>r. getPeerConn (nd_db node) a = Inr (Some r) \<longrightarrow> r < nd_nextConn node \<and> session_ok (nd_conns node r)"
    and "getDestConn (nd_db node) t = None"
  shows "(\<not> registered (nd_db node) d \<longrightarrow>
      GetRouteManual env c client t d ip node = Inr (Inl not_registered, node)) \<and>
    (registered (nd_db node) d \<longrightarrow> route_map (nd_db node) d = None \<longrightarrow>
      (\<exists>err node'. GetRouteManual env c client t d ip node = Inr (Inl err, node'))) \<and>
    (route_map (nd_db node) d = Some e \<longrightarrow> re_nextHop e = a \<longrightarrow>
      no_peer_conn (nd_db node) a \<or> fst (ConnectToDestination env 0 ip t node) \<noteq> None \<longrightarrow>
      GetRouteManual env c client t d ip node = Inl NilDeref)"
proof -
  obtain err node1 where dialled: "ConnectToDestination env 0 ip t node = (err, node1)"
    by fastforce
  note frame = ConnectToDestination_frame [OF dialled]
  have run: "GetRouteManual env c client t d ip node =
      (if registered (nd_db node) d then probe_route env c client (createRoute t d) node1
       else Inr (Inl not_registered, node))"
    using dialled by (simp add: GetRouteManual_def IsAddressRegistered_eq [OF assms(1)])
  have no_route: "\<exists>err node'. GetRouteManual env c client t d ip node = Inr (Inl err, node')"
    if "registered (nd_db node) d" "route_map (nd_db node) d = None"
    using probe_route_no_route [of node1 client chs "createRoute t d"] that assms(1,2) frame run by fastforce
  have panic: "GetRouteManual env c client t d ip node = Inl NilDeref"
    if e: "route_map (nd_db node) d = Some e" "re_nextHop e = a"
      and bad: "no_peer_conn (nd_db node) a \<or> err \<noteq> None"
  proof -
    have reg: "registered (nd_db node) d"
      using e by (auto simp: route_map_Some registered_def)
    have "no_peer_conn (nd_db node1) a \<or> getDestConn (nd_db node1) t = None \<and>
        (\<exists>r. getPeerConn (nd_db node1) a = Inr (Some r) \<and> session_ok (nd_conns node1 r))"
    proof (cases "no_peer_conn (nd_db node) a")
      case True
      then show ?thesis using frame(4) by (simp add: no_peer_conn_def)
    next
      case False
      then obtain r where "getPeerConn (nd_db node) a = Inr (Some r)"
        by (auto simp: no_peer_conn_def)
      then show ?thesis
        using False bad assms(3,4) frame by auto
    qed
    then show ?thesis
      using probe_route_panics [of node1 client chs "createRoute t d" e] run reg e assms(1,2) frame by simp
  qed
  show ?thesis
    using run no_route panic dialled by simp
qed

text \<open>
  C28: finding a direct route. Let the destination be a neighbour B of A, in step with it on their
  connection, with the token announced at B. Then \<open>GetRouteManual\<close> at A writes the kind of the
  connection, the token and one frame; B opens the frame to a request that makes it write
  the route on the announced connection; and reading that, A returns the route with the capacity of
  its channel, without hops. Afterwards the token is forgotten at both nodes.
\<close>

theorem direct_route_found:
  assumes "db_ok (nd_db A)" and "rpc_ListChannels client = Inr chs"
    and "route_map (nd_db A) d = Some e" and "re_nextHop e = d"
    and "getPeerConn (nd_db A) d = Inr (Some r)" and "r < nd_nextConn A" and "session_ok (nd_conns A r)"
    and "env_Dial env 0 ip = Inr conn" and "env_Write env conn t = None" and "length t = 10"
    and "getLocalAddress (nd_db B) = d" and "getDestConn (nd_db B) t = Some rB"
    and "in_step (nd_conns A r) b"
    and "\<forall>m. gcm_Open c (ci_sessionKey b) (nonce_of b) (gcm_Seal c (ci_sessionKey b) (nonce_of b) m) = Inr m"
    and "route = first_hop (nd_db A) chs e (createRoute t d)" and "env_reads env conn 0 = serializeRoute route"
  shows "\<exists>A' encrypted request B'.
    GetRouteManual env c client t d ip A = Inr (Inr (route\<lparr>rt_hops := []\<rparr>), A') \<and>
    nd_written A' = nd_written A @ [(conn, [destinationConn]), (conn, t),
      (ci_conn (nd_conns A r), be_bytes 2 (of_nat (length encrypted) :: u16) @ encrypted)] \<and>
    open_message c encrypted b = Inr request \<and> handle_forward c clientB request B = Inr B' \<and>
    nd_written B' = nd_written B @ [(ci_conn (nd_conns B rB), env_reads env conn 0)] \<and>
    getDestConn (nd_db A') t = None \<and> getDestConn (nd_db B') t = None"
proof -
  let ?A1 = "announced conn t (tcp_write conn t (tcp_write conn [destinationConn] A))"
  let ?request = "be_bytes 2 forwardRouteType @ serializeRoute route"
  let ?enc = "gcm_Seal c (ci_sessionKey b) (nonce_of b) ?request"
  let ?frame = "be_bytes 2 (of_nat (length ?enc) :: u16) @ ?enc"
  have rt: "rt_token route = t" "rt_destination route = d" "length (rt_hops route) = 1"
    using assms(15) by simp_all
  have b: "session_ok b" "ci_sessionKey (nd_conns A r) = ci_sessionKey b" "nonce_of (nd_conns A r) = nonce_of b"
    using assms(7,13) by (simp_all add: session_ok_def in_step_def nonce_of_def)
  have conn: "nd_conns ?A1 r = nd_conns A r" "getPeerConn (nd_db ?A1) d = Inr (Some r)"
    using assms(5,6) by simp_all
  let ?A2 = "upd_conn r incrementSeqNumber (conn_write r ?frame ?A1)"
  have "seal_message c ?request (nd_conns ?A1 r) = Inr ?frame"
    using seal_message_eq [OF assms(7), of c ?request] b(2,3) conn(1) by (simp add: Let_def)
  then have sent: "ForwardRoute c route d ?A1 = Inr ?A2"
    using ForwardRoute_conn [OF conn(2), of c route] assms(7) conn(1) by auto
  have dest: "getDestConn (nd_db ?A2) t = Some (nd_nextConn A)" "ci_conn (nd_conns ?A2 (nd_nextConn A)) = conn"
    using assms(6) by simp_all
  obtain A' where A': "ReceiveRouteFromDestination (env_reads env conn 0) t ?A2 = Inr (route\<lparr>rt_hops := []\<rparr>, A')"
      "nd_written A' = nd_written ?A2" "getDestConn (nd_db A') t = None"
    using ReceiveRoute_eq [OF dest(1), of route] rt(1) assms(10,16)
    by (simp add: getDestConn_def removeDestConnFromDB_def)
  have "registered (nd_db A) d"
    using assms(3) by (auto simp: route_map_Some registered_def)
  then have "GetRouteManual env c client t d ip A = probe_route env c client (createRoute t d) ?A1"
    using assms(8,9) by (simp add: GetRouteManual_def IsAddressRegistered_eq [OF assms(1)] ConnectToDestination_eq)
  also have "\<dots> = Inr (Inr (route\<lparr>rt_hops := []\<rparr>), A')"
    using probe_route_eq [of ?A1 client chs "createRoute t d" e env c] assms(1-4,15) sent dest A'(1) by simp
  finally have found: "GetRouteManual env c client t d ip A = Inr (Inr (route\<lparr>rt_hops := []\<rparr>), A')" .
  have opened: "open_message c ?enc b = Inr ?request"
    using assms(14) b(1) by (simp add: open_message_eq)
  have "processForwardRouteMessage ?request = Inr (Inr route)"
    using processForward_serialized [of route] rt assms(10) by simp
  then obtain B' where "handle_forward c clientB ?request B = Inr B'"
      "nd_written B' = nd_written B @ [(ci_conn (nd_conns B rB), serializeRoute route)]" "getDestConn (nd_db B') t = None"
    using rt assms(11,12)
    by (simp add: handle_forward_def sendRouteToSender_def closeDestConnection_def getDestConn_def removeDestConnFromDB_def)
  then show ?thesis
    using found opened A'(2,3) assms(6,16)
    by - (rule exI [of _ A'], rule exI [of _ ?enc], rule exI [of _ ?request], rule exI [of _ B'], simp)
qed

section \<open>Examples\<close>

text \<open>A node with a route to \<open>d\<close> through peer 1 and no announced token.\<close>

definition example_sender :: "DB \<Rightarrow> Node" where
  "example_sender db = example_node (db\<lparr>db_destConns := (\<lambda>_. None)\<rparr>)"

lemma example_sender_simps [simp]:
  "nd_db (example_sender db) = db\<lparr>db_destConns := (\<lambda>_. None)\<rparr>"
  "nd_conns (example_sender db) = (\<lambda>_. example_conn)" "nd_nextConn (example_sender db) = 1"
  by (simp_all add: example_sender_def example_node_def)

lemma getPeerConn_destConns [simp]:
  "getPeerConn (db_destConns_update f db) = getPeerConn db"
  by (simp add: getPeerConn_def fun_eq_iff)

theorem GetRouteManual_failures_witness:
  "\<exists>db. route_map db (example_address 2) \<noteq> None \<and>
     GetRouteManual example_env example_aead (example_lnd []) (replicate 10 65) (example_address 2) ''10.0.0.9:8695''
       (example_sender db) = Inl NilDeref"
proof -
  let ?t = "replicate 10 65 :: token"
  obtain db where db: "db_ok db" "route_map db (example_address 2) = Some (example_route 2 1 50 7)"
      "getPeerConn db (example_address 1) = Inr (Some 0)"
    using example_routed [of 2] by auto
  let ?node = "example_sender db"
  have hop: "re_nextHop (example_route 2 1 50 7) = example_address 1"
    by (simp add: example_route_def)
  have chs: "rpc_ListChannels (example_lnd []) = Inr []"
    by (simp add: example_lnd_def)
  have conns: "\<forall>r. getPeerConn (nd_db ?node) (example_address 1) = Inr (Some r) \<longrightarrow>
      r < nd_nextConn ?node \<and> session_ok (nd_conns ?node r)"
    using db(3) by (simp add: example_conn_ok)
  have "getDestConn (nd_db ?node) ?t = None"
    by (simp add: getDestConn_def)
  moreover have "fst (ConnectToDestination example_env 0 ''10.0.0.9:8695'' ?t ?node) \<noteq> None"
    by (simp add: ConnectToDestination_eq example_env_def)
  ultimately show ?thesis
    using GetRouteManual_failures [OF _ chs conns, of ?t "example_address 2" example_env example_aead
        "''10.0.0.9:8695''" "example_route 2 1 50 7"] db hop by auto
qed

theorem direct_route_found_witness:
  "\<exists>A route A'. GetRouteManual
       (example_env\<lparr>env_reads := (\<lambda>_ _. serializeRoute route)\<rparr>) example_aead (example_lnd [example_channel 1 30])
       (replicate 10 65) (example_address 1) ''10.0.0.2:8695'' A = Inr (Inr (route\<lparr>rt_hops := []\<rparr>), A') \<and>
     rt_hops route = [example_address 1]"
proof -
  let ?t = "replicate 10 65 :: token" and ?d = "example_address 1" and ?ln = "example_lnd [example_channel 1 30]"
  obtain db where db: "db_ok db" "route_map db ?d = Some (example_route 1 1 50 7)"
      "getPeerConn db ?d = Inr (Some 0)"
    using example_routed [of 1] by auto
  let ?A = "example_sender db"
  let ?route = "first_hop (nd_db ?A) [example_channel 1 30] (example_route 1 1 50 7) (createRoute ?t ?d)"
  let ?env = "example_env\<lparr>env_reads := (\<lambda>_ _. serializeRoute ?route)\<rparr>"
  let ?B = "example_node (addDestConnToDB ?t 0 ((createDB ''data'')\<lparr>db_localAddress := ?d\<rparr>))"
  have hop: "re_nextHop (example_route 1 1 50 7) = ?d"
    by (simp add: example_route_def)
  have chs: "rpc_ListChannels ?ln = Inr [example_channel 1 30]"
    by (simp add: example_lnd_def)
  have dial: "env_Dial ?env 0 ''10.0.0.2:8695'' = Inr 5" "env_Write ?env 5 ?t = None"
    by (simp_all add: example_env_def)
  have B: "getLocalAddress (nd_db ?B) = ?d" "getDestConn (nd_db ?B) ?t = Some 0"
    by (simp_all add: example_node_def getLocalAddress_def) (simp add: addDestConnToDB_def)
  have cipher: "\<forall>m. gcm_Open example_aead (ci_sessionKey example_conn) (nonce_of example_conn)
      (gcm_Seal example_aead (ci_sessionKey example_conn) (nonce_of example_conn) m) = Inr m"
    by (simp add: example_aead_opens example_conn_ok)
  have A: "db_ok (nd_db ?A)" "route_map (nd_db ?A) ?d = Some (example_route 1 1 50 7)"
    "getPeerConn (nd_db ?A) ?d = Inr (Some 0)" "(0 :: conn_ref) < nd_nextConn ?A" "session_ok (nd_conns ?A 0)"
    "in_step (nd_conns ?A 0) example_conn"
    using db by (simp_all add: example_conn_ok in_step_def)
  have "rt_hops ?route = [?d]"
    using hop by simp
  then show ?thesis
    using direct_route_found [OF A(1) chs A(2) hop A(3,4,5) dial _ B A(6) cipher refl] by fastforce
qed

end
