(* ===== verification/Amounts.thy ===== *)
theory Amounts
  imports LDR_Prelude
begin

text \<open>
  The amounts of unspent outputs (\<open>ldrlib/bitcoin.go\<close>, \<open>BroadcastNewAddressTx\<close>). The daemon gives an
  amount in bitcoin, a \<open>float64\<close>; the source multiplies it by \<open>math.Pow(10, 8)\<close> and cuts the fraction
  off. A \<open>float64\<close> is a sign, a significand and the number of its fractional bits. The
  product is rounded to 53 bits, half to even; amounts in the subnormal range or large enough to
  overflow are outside this model. A conversion to \<open>int64\<close> out of range gives the least integer, as it
  does on amd64.
\<close>

section \<open>Floating-point numbers\<close>

record float64 =
  fl_negative :: bool
  fl_significand :: nat
  fl_fraction_bits :: nat

text \<open>The number of binary digits, and rounding to 53 of them.\<close>

fun bit_length :: "nat \<Rightarrow> nat" where
  "bit_length n = (if n = 0 then 0 else Suc (bit_length (n div 2)))"

declare bit_length.simps [simp del]

definition round_half_even :: "nat \<Rightarrow> nat \<Rightarrow> nat" where
  "round_half_even n d =
     (if 2 * (n mod d) > d \<or> (2 * (n mod d) = d \<and> odd (n div d)) then n div d + 1 else n div d)"

definition round53 :: "nat \<Rightarrow> nat" where
  "round53 n = (let ulp = 2 ^ (bit_length n - 53) in round_half_even n ulp * ulp)"

definition mul_pow8 :: "float64 \<Rightarrow> float64" where
  "mul_pow8 x = x\<lparr>fl_significand := round53 (fl_significand x * 10 ^ 8)\<rparr>"

definition to_int64 :: "float64 \<Rightarrow> i64" where
  "to_int64 x =
     (let n = fl_significand x div 2 ^ fl_fraction_bits x;
          v = (if fl_negative x then - int n else int n)
      in if v < - (2 ^ 63) \<or> 2 ^ 63 \<le> v then - (2 ^ 63) else word_of_int v)"

text \<open>\<open>int64(unsOutAmmount * math.Pow(10, 8))\<close>\<close>

definition to_satoshis :: "float64 \<Rightarrow> i64" where
  "to_satoshis amount = to_int64 (mul_pow8 amount)"

section \<open>Facts\<close>

lemma bit_length_bounds: "n < 2 ^ bit_length n" "0 < n \<Longrightarrow> 2 ^ (bit_length n - 1) \<le> n"
proof -
  have "n < 2 ^ bit_length n \<and> (0 < n \<longrightarrow> 2 ^ (bit_length n - 1) \<le> n)"
  proof (induction n rule: bit_length.induct)
    case (1 n)
    show ?case
    proof (cases "n = 0")
      case False
      have half: "n div 2 < 2 ^ bit_length (n div 2)"
        "0 < n div 2 \<Longrightarrow> 2 ^ (bit_length (n div 2) - 1) \<le> n div 2"
        using 1 False by auto
      have len: "bit_length n = Suc (bit_length (n div 2))"
        using False by (simp add: bit_length.simps [of n])
      have "0 < n div 2 \<Longrightarrow> 2 * 2 ^ (bit_length (n div 2) - 1) = (2 :: nat) ^ bit_length (n div 2)"
        by (cases "bit_length (n div 2)") (auto simp: bit_length.simps [of "n div 2"])
      then show ?thesis
        using half False by (cases "n div 2 = 0") (auto simp: len bit_length.simps [of 0])
    qed (simp add: bit_length.simps)
  qed
  then show "n < 2 ^ bit_length n" "0 < n \<Longrightarrow> 2 ^ (bit_length n - 1) \<le> n"
    by auto
qed

lemma bit_length_le: "n < 2 ^ k \<Longrightarrow> bit_length n \<le> k"
proof (rule ccontr)
  assume *: "n < 2 ^ k" "\<not> bit_length n \<le> k"
  then have "0 < n"
    by (cases n) (auto simp: bit_length.simps)
  moreover have "(2 :: nat) ^ k \<le> 2 ^ (bit_length n - 1)"
    using *(2) by (intro power_increasing) auto
  ultimately show False
    using bit_length_bounds(2) [of n] *(1) by linarith
qed

lemma round_half_even_close:
  assumes "0 < d"
  shows "2 * (round_half_even n d * d) \<le> 2 * n + d" "2 * n \<le> 2 * (round_half_even n d * d) + d"
proof -
  define q r where "q = n div d" and "r = n mod d"
  have "n = q * d + r" "r < d"
    using assms by (simp_all add: q_def r_def div_mult_mod_eq)
  moreover have "round_half_even n d * d = (if 2 * r > d \<or> (2 * r = d \<and> odd q) then q * d + d else q * d)"
    by (simp add: round_half_even_def q_def r_def)
  ultimately show "2 * (round_half_even n d * d) \<le> 2 * n + d" "2 * n \<le> 2 * (round_half_even n d * d) + d"
    by (auto split: if_split)
qed

lemma round53_close:
  assumes "n < 2 ^ (53 + k)"
  shows "2 * round53 n \<le> 2 * n + 2 ^ k" "2 * n \<le> 2 * round53 n + 2 ^ k"
proof -
  define ulp :: nat where "ulp = 2 ^ (bit_length n - 53)"
  have "ulp \<le> 2 ^ k" and "0 < ulp"
    using bit_length_le [OF assms] unfolding ulp_def by (auto intro: power_increasing)
  moreover have "round53 n = round_half_even n ulp * ulp"
    by (simp add: round53_def ulp_def Let_def)
  ultimately show "2 * round53 n \<le> 2 * n + 2 ^ k" "2 * n \<le> 2 * round53 n + 2 ^ k"
    using round_half_even_close [of ulp n] by auto
qed

text \<open>
  The \<open>float64\<close> of an amount of \<open>n\<close> satoshis: the nearest one to \<open>n / 10^8\<close>, with 53 significant bits.
\<close>

definition float_of_satoshis :: "float64 \<Rightarrow> nat \<Rightarrow> bool" where
  "float_of_satoshis x n \<longleftrightarrow> \<not> fl_negative x \<and> 2 ^ 52 \<le> fl_significand x \<and> fl_significand x \<le> 2 ^ 53 \<and>
     2 * (fl_significand x * 10 ^ 8) \<le> 2 * (n * 2 ^ fl_fraction_bits x) + 10 ^ 8 \<and>
     2 * (n * 2 ^ fl_fraction_bits x) \<le> 2 * (fl_significand x * 10 ^ 8) + 10 ^ 8"

lemma to_satoshis_close:
  assumes "float_of_satoshis x n" and "n \<le> 2100000000000000"
  shows "to_satoshis x = of_nat n \<or> (0 < n \<and> to_satoshis x = of_nat (n - 1))"
proof -
  define m s where "m = fl_significand x" and "s = fl_fraction_bits x"
  have x: "\<not> fl_negative x" "2 ^ 52 \<le> m" "m \<le> 2 ^ 53"
    "2 * (m * 10 ^ 8) \<le> 2 * (n * 2 ^ s) + 10 ^ 8" "2 * (n * 2 ^ s) \<le> 2 * (m * 10 ^ 8) + 10 ^ 8"
    using assms(1) by (simp_all add: float_of_satoshis_def m_def s_def)
  have "m * 10 ^ 8 < 2 ^ (53 + 27)"
    using x(3) by (simp add: algebra_simps)
  note round = round53_close [OF this]
  let ?p = "round53 (m * 10 ^ 8)"
  have "2 ^ 52 * 10 ^ 8 \<le> m * 10 ^ 8"
    using x(2) by simp
  then have lower: "2 ^ 52 * 10 ^ 8 - 10 ^ 8 \<le> n * 2 ^ s"
    using x(4) by simp
  have big: "(2 :: nat) ^ 27 < 2 ^ s"
  proof (rule ccontr)
    assume "\<not> (2 :: nat) ^ 27 < 2 ^ s"
    then have "n * 2 ^ s \<le> 2100000000000000 * 2 ^ 27"
      using assms(2) by (intro mult_mono) auto
    then show False
      using lower by simp
  qed
  then have "27 < s"
    by (rule power_less_imp_less_exp [rotated]) simp
  then have unit: "(2 :: nat) ^ 28 \<le> 2 ^ s"
    by (intro power_increasing) auto
  have up: "?p < (n + 1) * 2 ^ s" and down: "n * 2 ^ s \<le> ?p + 2 ^ s"
    using round x(4,5) unit by (simp_all add: algebra_simps)
  have "?p div 2 ^ s \<le> n"
    using up by (simp add: less_mult_imp_div_less less_Suc_eq_le [symmetric])
  moreover have "n - 1 \<le> ?p div 2 ^ s"
    using down by (simp add: less_eq_div_iff_mult_less_eq diff_mult_distrib)
  ultimately have "?p div 2 ^ s = n \<or> (0 < n \<and> ?p div 2 ^ s = n - 1)"
    by auto
  moreover have "to_satoshis x = of_nat (?p div 2 ^ s)"
    using \<open>?p div 2 ^ s \<le> n\<close> assms(2) x(1)
    by (simp add: to_satoshis_def to_int64_def mul_pow8_def m_def s_def Let_def)
  ultimately show ?thesis by auto
qed

end
