(* ===== verification/Bitcoin_Scan.thy ===== *)
theory Bitcoin_Scan
  imports Lightning Endian Amounts
begin

text \<open>
  The blockchain side of the registration protocol (\<open>ldrlib/bitcoin.go\<close>): the registration
  transaction a node broadcasts and the scan of the blocks for such transactions. The bitcoin
  daemon and the btcd packages are not part of the repository: \<open>Bitcoind\<close> and \<open>TxLib\<close> hold what
  they answer; a block may be a nil pointer. The floating-point amounts of unspent outputs are those of theory \<open>Amounts\<close>.
\<close>

section \<open>What the daemon and the libraries answer\<close>

record Vout =
  vo_Hex :: string

record Transaction =
  tx_Txid :: string
  tx_Vout :: "Vout list"

record Unspent =
  un_TxID :: string
  un_Vout :: u32
  un_Address :: string
  un_Amount :: float64

record Bitcoind =
  btc_GetBlockCount :: "go_error + u64"
  btc_GetBlockHash :: "u64 \<Rightarrow> go_error + string"
  btc_GetBlock :: "string \<Rightarrow> go_error + Transaction list option"
  btc_ListUnspent :: "go_error + Unspent list"
  btc_SignRawTransactionWithWallet :: "string \<Rightarrow> go_error + string"
  btc_SendRawTransaction :: "string \<Rightarrow> go_error + string"

record MsgTx =
  mt_TxOut :: "(i64 \<times> u8 list) list"
  mt_TxIn :: "(u8 list \<times> u32 \<times> u8 list) list"

record TxLib =
  lib_DecodeAddress :: "string \<Rightarrow> go_error + u8 list"
  lib_PayToAddrScript :: "u8 list \<Rightarrow> go_error + u8 list"
  lib_NewHashFromStr :: "string \<Rightarrow> go_error + u8 list"
  lib_Serialize :: "MsgTx \<Rightarrow> go_error + u8 list"

section \<open>Constants\<close>

definition registerOpRetOutAmount :: i64 where "registerOpRetOutAmount = 100"

definition registerTxFeeAmount :: i64 where "registerTxFeeAmount = 1000"

definition versionHex :: string where "versionHex = ''00000000''"

definition opReturnHex :: string where "opReturnHex = ''6a''"

definition pushDataHex :: string where "pushDataHex = ''4c4c''"

definition protocolIDHex :: string where "protocolIDHex = ''6c6172''"

record addressRegistration =
  ar_address :: address
  ar_blockHeight :: u64
  ar_txID :: hash256
  ar_sig :: "(u8, 65) arr"
  ar_version :: u32

section \<open>Broadcasting a registration\<close>

text \<open>A Go error is returned at once, as a value.\<close>

definition or_return :: "go_error + 'a \<Rightarrow> ('a \<Rightarrow> (go_error + 'b) res) \<Rightarrow> (go_error + 'b) res" where
  "or_return r f = (case r of Inl err \<Rightarrow> Inr (Inl err) | Inr x \<Rightarrow> f x)"

lemma or_return_simps [simp, res_simps]:
  "or_return (Inl err) f = Inr (Inl err)"
  "or_return (Inr x) f = f x"
  by (simp_all add: or_return_def)

text \<open>
  The loop over the unspent outputs: \<open>n\<close> is the index, \<open>count\<close> the number of outputs. It gives the
  chosen output and the change.
\<close>

fun select_unspent :: "nat \<Rightarrow> nat \<Rightarrow> Unspent list \<Rightarrow> Unspent \<Rightarrow> go_error + Unspent \<times> i64" where
  "select_unspent count n [] chosen = Inr (chosen, 0)"
| "select_unspent count n (unsOut # rest) chosen =
     (if registerOpRetOutAmount + registerTxFeeAmount <s to_satoshis (un_Amount unsOut)
      then Inr (unsOut, to_satoshis (un_Amount unsOut) - (registerOpRetOutAmount + registerTxFeeAmount))
      else if n = count then Inl ''No outputs with enough BTC to create registration tx''
      else select_unspent count (Suc n) rest unsOut)"

definition registration_script :: "address \<Rightarrow> u8 list \<Rightarrow> go_error + u8 list" where
  "registration_script address signedAddress =
     (case DecodeString (opReturnHex @ pushDataHex @ protocolIDHex @ versionHex) of
        Inl err \<Rightarrow> Inl err
      | Inr opReturnScript \<Rightarrow> Inr (opReturnScript @ list_of address @ signedAddress))"

definition no_unspent :: Unspent where
  "no_unspent = \<lparr>un_TxID = [], un_Vout = 0, un_Address = [], un_Amount = \<lparr>fl_negative = False, fl_significand = 0, fl_fraction_bits = 0\<rparr>\<rparr>"

definition BroadcastNewAddressTx :: "TxLib \<Rightarrow> Bitcoind \<Rightarrow> Lnd \<Rightarrow> address \<Rightarrow> (go_error + string) res" where
  "BroadcastNewAddressTx lib bitcoind lnClient address =
     or_return (btc_GetBlockCount bitcoind) (\<lambda>_.
     bind_res (or_fatal (btc_ListUnspent bitcoind)) (\<lambda>unsOuts.
     if unsOuts = [] then Inr (Inl ''No spendable outputs to create registration tx'')
     else or_return (select_unspent (length unsOuts) 0 unsOuts no_unspent) (\<lambda>(unsOut, changeAmount).
       bind_res (SignMessage lnClient (list_of address)) (\<lambda>signedAddress.
       or_return (registration_script address signedAddress) (\<lambda>opReturnScript.
       or_return (lib_DecodeAddress lib (un_Address unsOut)) (\<lambda>p2pkhAddress.
       or_return (lib_PayToAddrScript lib p2pkhAddress) (\<lambda>p2pkhScript.
       or_return (lib_NewHashFromStr lib (un_TxID unsOut)) (\<lambda>txHash.
       or_return (lib_Serialize lib
           \<lparr>mt_TxOut = [(registerOpRetOutAmount, opReturnScript), (changeAmount, p2pkhScript)],
            mt_TxIn = [(txHash, un_Vout unsOut, [0, 0])]\<rparr>) (\<lambda>buffer.
       or_return (btc_SignRawTransactionWithWallet bitcoind (EncodeToString buffer)) (\<lambda>signedHex.
       or_return (btc_SendRawTransaction bitcoind signedHex) (\<lambda>hash. Inr (Inr hash))))))))))))"

definition GetBlockCount :: "Bitcoind \<Rightarrow> go_error + u64" where
  "GetBlockCount bitcoind = btc_GetBlockCount bitcoind"

section \<open>Scanning blocks\<close>

text \<open>
  The buffers \<open>txID\<close>, \<open>newAddress\<close> and \<open>sig\<close> are declared outside the loops and filled with \<open>copy\<close>:
  they are part of the state, next to the registrations found.
\<close>

record scan =
  sc_txID :: hash256
  sc_newAddress :: address
  sc_sig :: "(u8, 65) arr"
  sc_found :: "addressRegistration list"

definition scan_start :: scan where
  "scan_start = \<lparr>sc_txID = 0, sc_newAddress = 0, sc_sig = 0, sc_found = []\<rparr>"

definition is_registration :: "Transaction \<Rightarrow> bool" where
  "is_registration tx \<longleftrightarrow> length (tx_Vout tx) = 2 \<and> length (vo_Hex (tx_Vout tx ! 0)) = 158 \<and>
     take 12 (vo_Hex (tx_Vout tx ! 0)) = ''6a4c4c6c6172''"

definition scan_tx :: "u64 \<Rightarrow> Transaction \<Rightarrow> scan \<Rightarrow> scan res" where
  "scan_tx blockIndex tx st =
     (if \<not> is_registration tx then Inr st
      else let hex = vo_Hex (tx_Vout tx ! 0) in
        bind_res (or_fatal (DecodeString (tx_Txid tx))) (\<lambda>txIDBytes.
        bind_res (bind_res (slice 12 20 hex) (\<lambda>s. or_fatal (DecodeString s))) (\<lambda>versionBytes.
        bind_res (be_get 4 versionBytes) (\<lambda>version.
        bind_res (bind_res (slice 20 28 hex) (\<lambda>s. or_fatal (DecodeString s))) (\<lambda>newAddressBytes.
        bind_res (bind_res (slice 28 (length hex) hex) (\<lambda>s. or_fatal (DecodeString s))) (\<lambda>signatureBytes.
        let txID = arr_copy (sc_txID st) txIDBytes;
            newAddress = arr_copy (sc_newAddress st) newAddressBytes;
            sig = arr_copy (sc_sig st) signatureBytes
        in Inr \<lparr>sc_txID = txID, sc_newAddress = newAddress, sc_sig = sig,
             sc_found = sc_found st @ [\<lparr>ar_address = newAddress, ar_blockHeight = blockIndex,
               ar_txID = txID, ar_sig = sig, ar_version = version\<rparr>]\<rparr>))))))"

definition scan_block :: "Bitcoind \<Rightarrow> u64 \<Rightarrow> scan \<Rightarrow> scan res" where
  "scan_block bitcoind blockIndex st =
     bind_res (or_fatal (btc_GetBlockHash bitcoind blockIndex)) (\<lambda>blockHash.
     bind_res (or_fatal (btc_GetBlock bitcoind blockHash)) (\<lambda>block. case block of
       None \<Rightarrow> Inl NilDeref
     | Some txs \<Rightarrow> fold_res (scan_tx blockIndex) txs st))"

text \<open>
  \<open>for blockIndex = fromBlock; blockIndex <= toBlock; blockIndex++\<close> over \<open>uint64\<close>: the index wraps,
  so the loop need not end; not ending is \<open>None\<close>.
\<close>

partial_function (option) scan_blocks :: "Bitcoind \<Rightarrow> u64 \<Rightarrow> u64 \<Rightarrow> scan \<Rightarrow> scan res option" where
  "scan_blocks bitcoind toBlock blockIndex st =
     (if toBlock < blockIndex then Some (Inr st)
      else case scan_block bitcoind blockIndex st of
        Inl f \<Rightarrow> Some (Inl f)
      | Inr st \<Rightarrow> scan_blocks bitcoind toBlock (blockIndex + 1) st)"

definition getNewAddressRegistrations :: "Bitcoind \<Rightarrow> u64 \<Rightarrow> u64 \<Rightarrow> addressRegistration list res option" where
  "getNewAddressRegistrations bitcoind fromBlock toBlock =
     map_option (\<lambda>r. bind_res r (\<lambda>st. Inr (sc_found st))) (scan_blocks bitcoind toBlock fromBlock scan_start)"

section \<open>Facts\<close>

lemma scan_blocks_ends:
  assumes "toBlock < 18446744073709551615"
  shows "\<exists>r. scan_blocks bitcoind toBlock blockIndex st = Some r"
proof (induction "unat toBlock + 1 - unat blockIndex" arbitrary: blockIndex st rule: less_induct)
  case less
  show ?case
  proof (cases "toBlock < blockIndex")
    case True
    then show ?thesis by (simp add: scan_blocks.simps)
  next
    case False
    then have le: "unat blockIndex \<le> unat toBlock"
      by (simp add: word_less_nat_alt)
    have "unat toBlock < 2 ^ 64 - 1"
      using assms by (simp add: word_less_nat_alt)
    then have "unat (blockIndex + 1) = Suc (unat blockIndex)"
      using le by (simp add: unat_word_ariths(1))
    then have "unat toBlock + 1 - unat (blockIndex + 1) < unat toBlock + 1 - unat blockIndex"
      using le by simp
    then show ?thesis
      using less False by (subst scan_blocks.simps) (auto split: sum.split)
  qed
qed

lemma script_prefix:
  "DecodeString (opReturnHex @ pushDataHex @ protocolIDHex @ versionHex) =
    Inr [0x6a, 0x4c, 0x4c, 0x6c, 0x61, 0x72, 0, 0, 0, 0]"
  by code_simp

lemma prefix_hex: "EncodeToString [0x6a, 0x4c, 0x4c, 0x6c, 0x61, 0x72] = ''6a4c4c6c6172''"
  by code_simp

definition registration_bytes :: "address \<Rightarrow> u8 list \<Rightarrow> u8 list" where
  "registration_bytes address sig = [0x6a, 0x4c, 0x4c, 0x6c, 0x61, 0x72, 0, 0, 0, 0] @ list_of address @ sig"

lemma registration_script_eq: "registration_script address sig = Inr (registration_bytes address sig)"
  by (simp add: registration_script_def script_prefix registration_bytes_def)

definition registration_tx :: "string \<Rightarrow> u8 list \<Rightarrow> Vout \<Rightarrow> Transaction" where
  "registration_tx txid script change = \<lparr>tx_Txid = txid, tx_Vout = [\<lparr>vo_Hex = EncodeToString script\<rparr>, change]\<rparr>"

text \<open>Hex digits \<open>2 * a\<close> to \<open>2 * b\<close> of an encoding decode to bytes \<open>a\<close> to \<open>b\<close>.\<close>

lemma slice_hex:
  assumes "a \<le> b" and "b \<le> length bs"
  shows "bind_res (slice (2 * a) (2 * b) (EncodeToString bs)) (\<lambda>s. or_fatal (DecodeString s)) =
    Inr (take (b - a) (drop a bs))"
proof -
  have "slice (2 * a) (2 * b) (EncodeToString bs) = Inr (take (2 * (b - a)) (drop (2 * a) (EncodeToString bs)))"
    using assms by (simp add: slice_def diff_mult_distrib2)
  also have "take (2 * (b - a)) (drop (2 * a) (EncodeToString bs)) = EncodeToString (take (b - a) (drop a bs))"
    by (simp only: drop_EncodeToString take_EncodeToString)
  finally show ?thesis by simp
qed

lemma scan_registration:
  assumes "length sig = 65" and "length txID = 32"
  shows "scan_tx blockIndex (registration_tx (EncodeToString txID) (registration_bytes address sig) change) st =
    Inr \<lparr>sc_txID = arr_copy 0 txID, sc_newAddress = address, sc_sig = arr_copy 0 sig,
         sc_found = sc_found st @ [\<lparr>ar_address = address, ar_blockHeight = blockIndex,
           ar_txID = arr_copy 0 txID, ar_sig = arr_copy 0 sig, ar_version = 0\<rparr>]\<rparr>"
proof -
  let ?bs = "registration_bytes address sig"
  let ?tx = "registration_tx (EncodeToString txID) ?bs change"
  have len: "length ?bs = 79"
    using assms(1) by (simp add: registration_bytes_def)
  have reg: "is_registration ?tx"
  proof -
    have "take (2 * 6) (EncodeToString ?bs) = ''6a4c4c6c6172''"
      unfolding take_EncodeToString using prefix_hex by (simp add: registration_bytes_def)
    then show ?thesis
      using len by (simp add: is_registration_def registration_tx_def)
  qed
  have version: "bind_res (slice 12 20 (EncodeToString ?bs)) (\<lambda>s. or_fatal (DecodeString s)) = Inr [0, 0, 0, 0]"
    using slice_hex [of 6 10 ?bs] len by (simp add: registration_bytes_def)
  have zero: "be_get 4 [0, 0, 0, 0 :: u8] = Inr (0 :: u32)"
    by code_simp
  have new: "bind_res (slice 20 28 (EncodeToString ?bs)) (\<lambda>s. or_fatal (DecodeString s)) = Inr (list_of address)"
    using slice_hex [of 10 14 ?bs] len by (simp add: registration_bytes_def)
  have sig: "bind_res (slice 28 158 (EncodeToString ?bs)) (\<lambda>s. or_fatal (DecodeString s)) = Inr sig"
    using slice_hex [of 14 79 ?bs] len assms(1) by (simp add: registration_bytes_def)
  have copies: "arr_copy (sc_txID st) txID = arr_copy 0 txID" "arr_copy (sc_sig st) sig = arr_copy 0 sig"
    using assms by (simp_all add: arr_copy_inject)
  have hex: "vo_Hex (tx_Vout ?tx ! 0) = EncodeToString ?bs" "tx_Txid ?tx = EncodeToString txID"
    by (simp_all add: registration_tx_def)
  show ?thesis
    unfolding scan_tx_def Let_def hex using reg len
    by (simp add: version zero new sig copies)
qed

section \<open>Properties\<close>

text \<open>
  A broadcast registration is found. The script \<open>BroadcastNewAddressTx\<close> puts into the first output
  for an address and a 65-byte signature makes the transaction a registration for the scan, which
  appends the same address and signature with version 0, the block and the transaction id, and goes
  on whatever the buffers held before.
\<close>

lemma scan_finds_broadcast:
  assumes "length sig = 65" and "length txID = 32"
  shows "\<exists>script st'. registration_script address sig = Inr script \<and>
    scan_tx blockIndex (registration_tx (EncodeToString txID) script change) st = Inr st' \<and>
    sc_found st' = sc_found st @ [\<lparr>ar_address = address, ar_blockHeight = blockIndex,
      ar_txID = arr_copy 0 txID, ar_sig = arr_copy 0 sig, ar_version = 0\<rparr>]"
  using scan_registration [OF assms] by (simp add: registration_script_eq)

text \<open>
  C36: the scan of a range of blocks ends when the last block is below the greatest \<open>uint64\<close>, whatever
  the daemon answers, and then it has gone through the blocks one by one: either it is past the end,
  or it scans the first block and goes on with the next one.
\<close>

theorem scan_terminates:
  assumes "toBlock < 18446744073709551615"
  shows "(\<exists>r. getNewAddressRegistrations bitcoind fromBlock toBlock = Some r) \<and>
    scan_blocks bitcoind toBlock fromBlock st =
      (if toBlock < fromBlock then Some (Inr st)
       else case scan_block bitcoind fromBlock st of
         Inl f \<Rightarrow> Some (Inl f) | Inr st' \<Rightarrow> scan_blocks bitcoind toBlock (fromBlock + 1) st')"
  using scan_blocks_ends [OF assms, of bitcoind fromBlock scan_start] scan_blocks.simps
  by (auto simp: getNewAddressRegistrations_def)

definition example_bitcoind :: Bitcoind where
  "example_bitcoind = \<lparr>btc_GetBlockCount = Inr 3, btc_GetBlockHash = (\<lambda>_. Inr ''h''), btc_GetBlock = (\<lambda>_. Inr (Some [])),
     btc_ListUnspent = Inr [], btc_SignRawTransactionWithWallet = Inr, btc_SendRawTransaction = Inr\<rparr>"

theorem scan_terminates_witness:
  "\<exists>r. getNewAddressRegistrations example_bitcoind 1 3 = Some r"
  using scan_terminates [of 3 example_bitcoind 1] by simp

text \<open>
  Too little money is not noticed. The choice among the unspent outputs never returns the error
  the source has for it: when no output covers the registration and its fee, the last one is taken
  and the change is zero.
\<close>

lemma select_unspent_never_fails:
  "\<exists>unsOut changeAmount. select_unspent (length unsOuts) 0 unsOuts no_unspent = Inr (unsOut, changeAmount) \<and>
    (unsOuts \<noteq> [] \<longrightarrow> unsOut \<in> set unsOuts) \<and>
    ((\<forall>u \<in> set unsOuts. to_satoshis (un_Amount u) \<le>s 1100) \<longrightarrow>
       (unsOuts \<noteq> [] \<longrightarrow> unsOut = last unsOuts) \<and> changeAmount = 0) \<and>
    ((\<exists>u \<in> set unsOuts. \<not> to_satoshis (un_Amount u) \<le>s 1100) \<longrightarrow>
       \<not> to_satoshis (un_Amount unsOut) \<le>s 1100 \<and> changeAmount = to_satoshis (un_Amount unsOut) - 1100)"
proof -
  have amount: "registerOpRetOutAmount + registerTxFeeAmount = 1100"
    by (simp add: registerOpRetOutAmount_def registerTxFeeAmount_def)
  have "\<exists>unsOut changeAmount. select_unspent count n us chosen = Inr (unsOut, changeAmount) \<and>
      (us \<noteq> [] \<longrightarrow> unsOut \<in> set us) \<and>
      ((\<forall>u \<in> set us. to_satoshis (un_Amount u) \<le>s 1100) \<longrightarrow> (us \<noteq> [] \<longrightarrow> unsOut = last us) \<and> changeAmount = 0) \<and>
      ((\<exists>u \<in> set us. \<not> to_satoshis (un_Amount u) \<le>s 1100) \<longrightarrow>
         \<not> to_satoshis (un_Amount unsOut) \<le>s 1100 \<and> changeAmount = to_satoshis (un_Amount unsOut) - 1100)"
    if "n + length us \<le> count" for n us chosen count
    using that
  proof (induction us arbitrary: n chosen)
    case (Cons u us)
    have covers: "(1100 :: i64) <s s \<longleftrightarrow> \<not> s \<le>s 1100" for s
      by (auto simp: word_sle_eq word_sless_alt)
    show ?case
    proof (cases "1100 <s to_satoshis (un_Amount u)")
      case True
      then show ?thesis
        using covers by (auto simp: amount)
    next
      case False
      obtain v c where v: "select_unspent count (Suc n) us u = Inr (v, c)" "us \<noteq> [] \<longrightarrow> v \<in> set us"
        "(\<forall>u \<in> set us. to_satoshis (un_Amount u) \<le>s 1100) \<longrightarrow> (us \<noteq> [] \<longrightarrow> v = last us) \<and> c = 0"
        "(\<exists>u \<in> set us. \<not> to_satoshis (un_Amount u) \<le>s 1100) \<longrightarrow> \<not> to_satoshis (un_Amount v) \<le>s 1100 \<and> c = to_satoshis (un_Amount v) - 1100"
        using Cons.IH [of "Suc n" u] Cons.prems by auto
      have "us = [] \<Longrightarrow> v = u"
        using v(1) by simp
      then show ?thesis
        using False v covers Cons.prems by (auto simp: amount)
    qed
  qed simp
  from this [of 0 unsOuts "length unsOuts" no_unspent] show ?thesis
    by simp
qed

lemma sint_of_nat_small: "n < 2 ^ 62 \<Longrightarrow> sint (of_nat n :: i64) = int n"
  by (simp add: signed_of_nat signed_take_bit_int_eq_self)

text \<open>
  C34: what a registration pays. Let every amount be the \<open>float64\<close> nearest to its number of satoshis, at
  most 21 million bitcoin. The choice never fails. If it finds enough money, 100 satoshis go
  to the registration and the rest comes back but for a fee of 1000 satoshis, or 1001 when the
  conversion loses one. Otherwise no output has more than 1101 satoshis, and the last one is spent,
  however little it holds, without any change.
\<close>

theorem change_leaves_the_fee:
  assumes "unsOuts \<noteq> []"
    and "\<forall>u \<in> set unsOuts. float_of_satoshis (un_Amount u) (sats u) \<and> sats u \<le> 2100000000000000"
  shows "\<exists>unsOut changeAmount. select_unspent (length unsOuts) 0 unsOuts no_unspent = Inr (unsOut, changeAmount) \<and>
    unsOut \<in> set unsOuts \<and>
    (int (sats unsOut) - (100 + sint changeAmount) \<in> {1000, 1001} \<and> 0 < sint changeAmount \<or>
     changeAmount = 0 \<and> unsOut = last unsOuts \<and> (\<forall>u \<in> set unsOuts. sats u \<le> 1101))"
proof -
  obtain u c where choice: "select_unspent (length unsOuts) 0 unsOuts no_unspent = Inr (u, c)"
    and u: "u \<in> set unsOuts"
    and poor: "\<forall>u \<in> set unsOuts. to_satoshis (un_Amount u) \<le>s 1100 \<Longrightarrow> u = last unsOuts \<and> c = 0"
    and rich: "\<exists>u \<in> set unsOuts. \<not> to_satoshis (un_Amount u) \<le>s 1100 \<Longrightarrow>
      \<not> to_satoshis (un_Amount u) \<le>s 1100 \<and> c = to_satoshis (un_Amount u) - 1100"
    using select_unspent_never_fails [of unsOuts] assms(1) by blast
  have close: "\<exists>v. to_satoshis (un_Amount w) = of_nat v \<and> v \<le> 2100000000000000 \<and>
      (v = sats w \<or> Suc v = sats w)" if "w \<in> set unsOuts" for w
  proof -
    have "to_satoshis (un_Amount w) = of_nat (sats w) \<or>
        0 < sats w \<and> to_satoshis (un_Amount w) = of_nat (sats w - 1)" and "sats w \<le> 2100000000000000"
      using to_satoshis_close assms(2) that by blast+
    then show ?thesis
      by (auto intro: exI [of _ "sats w"] exI [of _ "sats w - 1"])
  qed
  have small: "(of_nat v :: i64) \<le>s 1100 \<longleftrightarrow> v \<le> 1100" if "v \<le> 2100000000000000" for v
    using that by (simp add: word_sle_eq sint_of_nat_small)
  show ?thesis
  proof (cases "\<forall>u \<in> set unsOuts. to_satoshis (un_Amount u) \<le>s 1100")
    case True
    then have "sats w \<le> 1101" if "w \<in> set unsOuts" for w
      using close [OF that] small that by fastforce
    then show ?thesis
      using choice u poor [OF True] by blast
  next
    case False
    obtain v where v: "to_satoshis (un_Amount u) = of_nat v" "v \<le> 2100000000000000" "v = sats u \<or> Suc v = sats u"
      using close [OF u] by blast
    have "1100 < v" "c = of_nat v - 1100"
      using rich False v(1) small [OF v(2)] by auto
    then have "c = of_nat (v - 1100)"
      by (simp add: of_nat_diff)
    then have "sint c = int (v - 1100)"
      using v(2) sint_of_nat_small [of "v - 1100"] by simp
    then have "sint c = int v - 1100"
      using \<open>1100 < v\<close> by simp
    then show ?thesis
      using choice u v(3) \<open>1100 < v\<close> by (intro exI [of _ u] exI [of _ c]) auto
  qed
qed

text \<open>An output of 1534 satoshis, of which the conversion finds 1533.\<close>

definition example_unspent :: Unspent where
  "example_unspent = \<lparr>un_TxID = [], un_Vout = 0, un_Address = [],
     un_Amount = \<lparr>fl_negative = False, fl_significand = 4527568865451272, fl_fraction_bits = 68\<rparr>\<rparr>"

lemma example_loses_one: "to_satoshis (un_Amount example_unspent) = 1533"
  by (simp add: example_unspent_def to_satoshis_def mul_pow8_def to_int64_def round53_def round_half_even_def
      bit_length.simps)

theorem change_leaves_the_fee_witness:
  "\<exists>c. select_unspent 1 0 [example_unspent] no_unspent = Inr (example_unspent, c) \<and>
     1534 - (100 + sint c) \<in> {1000, 1001}"
proof -
  have "float_of_satoshis (un_Amount example_unspent) 1534"
    by (simp add: example_unspent_def float_of_satoshis_def)
  then show ?thesis
    using change_leaves_the_fee [of "[example_unspent]" "\<lambda>_. 1534"] by (auto simp del: select_unspent.simps)
qed

end
