(* ===== verification/Registration.thy ===== *)
theory Registration
  imports Bitcoin_Scan Persistence
begin

text \<open>
  Registrations on their way into the database (\<open>ldrlib/db.go\<close>): the verification of a
  registration found on the blockchain, and the synchronisation of the address database with the
  chain, in memory and on disk. The invariant says that the address file lists exactly the
  registered addresses, each once.
\<close>

section \<open>Operations\<close>

text \<open>The loop over the neighbours: the flag and the counter of \<open>verifyAddressRegistration\<close>.\<close>

fun check_neighbours :: "DB \<Rightarrow> address \<Rightarrow> pubkey list \<Rightarrow> bool \<Rightarrow> nat \<Rightarrow> (bool \<times> nat) res" where
  "check_neighbours db newAddress [] suggestedAddressFlag registeredNeighbourCounter =
     Inr (suggestedAddressFlag, registeredNeighbourCounter)"
| "check_neighbours db newAddress (neighbor # rest) suggestedAddressFlag registeredNeighbourCounter =
     bind_res (GetNodeAddress db neighbor) (\<lambda>(neighbourAddress, isRegistered).
     if isRegistered then
       bind_res (bind_res (SuggestAddress db neighbourAddress) or_fatal) (\<lambda>suggestedAddress.
       check_neighbours db newAddress rest
         (if suggestedAddress = newAddress then True else suggestedAddressFlag)
         (Suc registeredNeighbourCounter))
     else check_neighbours db newAddress rest suggestedAddressFlag registeredNeighbourCounter)"

definition registered_info :: "addressRegistration \<Rightarrow> pubkey \<Rightarrow> addressInfo" where
  "registered_info registration nodePubKey =
     \<lparr>ai_address = ar_address registration, ai_nodePubKey = nodePubKey,
      ai_registrationHeight = ar_blockHeight registration, ai_registrationTxID = ar_txID registration,
      ai_version = ar_version registration, ai_routingEntry = None, ai_peerConn = None\<rparr>"

definition verifyAddressRegistration :: "Lnd \<Rightarrow> addressRegistration \<Rightarrow> DB \<Rightarrow> addressInfo option res" where
  "verifyAddressRegistration lnClient registration db =
     (let newAddress = ar_address registration in
      bind_res (VerifyMessage lnClient (list_of newAddress) (list_of (ar_sig registration))) (\<lambda>(validSig, nodePubKey).
      if \<not> validSig then Inr None
      else bind_res (IsAddressRegistered db newAddress) (\<lambda>registeredFlag.
        if registeredFlag then Inr None
        else bind_res (GetNodeNeighboursPubKeys lnClient nodePubKey) (\<lambda>neighbors.
          bind_res (if length neighbors > 0 then check_neighbours db newAddress neighbors False 0
                    else Inr (False, 0)) (\<lambda>(suggestedAddressFlag, registeredNeighbourCounter).
          if registeredNeighbourCounter > 0 \<and> \<not> suggestedAddressFlag then Inr None
          else Inr (Some (registered_info registration nodePubKey)))))))"

definition take_registration :: "Lnd \<Rightarrow> addressRegistration \<Rightarrow> DB \<times> disk \<Rightarrow> (DB \<times> disk) res" where
  "take_registration lnClient registration = (\<lambda>(db, dk).
     bind_res (verifyAddressRegistration lnClient registration db) (\<lambda>verified. case verified of
       None \<Rightarrow> Inr (db, dk)
     | Some newAddressInfo \<Rightarrow>
         bind_res (addAddressToDB newAddressInfo db) (\<lambda>db.
         bind_res (saveAddressToFile newAddressInfo dk) (\<lambda>dk. Inr (db, dk)))))"

text \<open>
  One synchronisation, shared by \<open>UpdateAddressDB\<close> and the loop of \<open>SynchronizeAddressDB\<close>; it gives
  the height reached as well. \<open>None\<close> is a scan that does not end.
\<close>

definition sync_addresses :: "Bitcoind \<Rightarrow> Lnd \<Rightarrow> u64 \<Rightarrow> DB \<times> disk \<Rightarrow> ((DB \<times> disk) \<times> u64) res option" where
  "sync_addresses bitcoind lnClient lastScannedBlock st =
     (case GetBlockCount bitcoind of
        Inl err \<Rightarrow> Some (Inl (Fatal (''Error getting block count:'' @ err)))
      | Inr blockCount \<Rightarrow>
          (case (if blockCount > lastScannedBlock
                 then getNewAddressRegistrations bitcoind (lastScannedBlock + 1) blockCount
                 else Some (Inr [])) of
             None \<Rightarrow> None
           | Some found \<Rightarrow> Some (bind_res found (\<lambda>registrations.
               bind_res (fold_res (take_registration lnClient) registrations st) (\<lambda>st.
               bind_res (updateBlockHeight blockCount st) (\<lambda>st. Inr (st, blockCount)))))))"

definition UpdateAddressDB :: "Bitcoind \<Rightarrow> Lnd \<Rightarrow> DB \<times> disk \<Rightarrow> (DB \<times> disk) res option" where
  "UpdateAddressDB bitcoind lnClient st =
     map_option (\<lambda>r. bind_res r (\<lambda>(st, _). Inr st)) (sync_addresses bitcoind lnClient (db_height (fst st)) st)"

text \<open>The endless loop of \<open>SynchronizeAddressDB\<close>, cut after as many rounds as there are answers.\<close>

fun SynchronizeAddressDB :: "(Bitcoind \<times> Lnd) list \<Rightarrow> u64 \<Rightarrow> DB \<times> disk \<Rightarrow> (DB \<times> disk) res option" where
  "SynchronizeAddressDB [] lastScannedBlock st = Some (Inr st)"
| "SynchronizeAddressDB ((bitcoind, lnClient) # rounds) lastScannedBlock st =
     (case sync_addresses bitcoind lnClient lastScannedBlock st of
        None \<Rightarrow> None
      | Some (Inl f) \<Rightarrow> Some (Inl f)
      | Some (Inr (st, blockCount)) \<Rightarrow> SynchronizeAddressDB rounds blockCount st)"

section \<open>Verification\<close>

lemma check_neighbours_flag:
  assumes "db_ok db" and "check_neighbours db a ns flag k = Inr (flag', k')"
  shows "k \<le> k'" "flag' \<Longrightarrow> \<not> flag \<Longrightarrow> \<exists>n \<in> set ns. \<exists>p. GetNodeAddress db n = Inr (p, True) \<and>
      SuggestAddress db p = Inr (Inr a)"
    "\<And>n p. n \<in> set ns \<Longrightarrow> GetNodeAddress db n = Inr (p, True) \<Longrightarrow> k < k'"
proof -
  have "k \<le> k' \<and> (flag' \<longrightarrow> \<not> flag \<longrightarrow> (\<exists>n \<in> set ns. \<exists>p. GetNodeAddress db n = Inr (p, True) \<and>
      SuggestAddress db p = Inr (Inr a))) \<and>
      (\<forall>n p. n \<in> set ns \<longrightarrow> GetNodeAddress db n = Inr (p, True) \<longrightarrow> k < k')"
    using assms(2)
  proof (induction ns arbitrary: flag k)
    case (Cons n ns)
    obtain p reg where n: "GetNodeAddress db n = Inr (p, reg)"
      using Cons.prems by (auto simp: res_simps)
    show ?case
    proof (cases reg)
      case False
      then show ?thesis
        using Cons n by auto
    next
      case True
      then obtain s where s: "SuggestAddress db p = Inr (Inr s)"
        using Cons.prems n by (auto simp: res_simps)
      then have "check_neighbours db a ns (if s = a then True else flag) (Suc k) = Inr (flag', k')"
        using Cons.prems n True by simp
      from Cons.IH [OF this] show ?thesis
        using n s True by (auto split: if_splits)
    qed
  qed simp
  then show "k \<le> k'" "flag' \<Longrightarrow> \<not> flag \<Longrightarrow> \<exists>n \<in> set ns. \<exists>p. GetNodeAddress db n = Inr (p, True) \<and>
      SuggestAddress db p = Inr (Inr a)"
    "\<And>n p. n \<in> set ns \<Longrightarrow> GetNodeAddress db n = Inr (p, True) \<Longrightarrow> k < k'"
    by blast+
qed

lemma verifyAddressRegistration_accepts:
  assumes "db_ok db" and "verifyAddressRegistration lnClient registration db = Inr (Some info)"
  obtains pk ns where
    "VerifyMessage lnClient (list_of (ar_address registration)) (list_of (ar_sig registration)) = Inr (True, pk)"
    "info = registered_info registration pk" "\<not> registered db (ar_address registration)"
    "GetNodeNeighboursPubKeys lnClient pk = Inr ns"
    "(\<exists>n \<in> set ns. \<exists>p. GetNodeAddress db n = Inr (p, True)) \<Longrightarrow>
      (\<exists>n \<in> set ns. \<exists>p. GetNodeAddress db n = Inr (p, True) \<and>
        SuggestAddress db p = Inr (Inr (ar_address registration)))"
proof -
  let ?a = "ar_address registration"
  obtain valid pk where v: "VerifyMessage lnClient (list_of ?a) (list_of (ar_sig registration)) = Inr (valid, pk)"
    using assms(2) by (auto simp: verifyAddressRegistration_def Let_def bind_res_eq_Inr)
  have *: "valid" "\<not> registered db ?a"
    using assms v by (auto simp: verifyAddressRegistration_def Let_def IsAddressRegistered_eq split: if_splits)
  then obtain ns where ns: "GetNodeNeighboursPubKeys lnClient pk = Inr ns"
    using assms v by (auto simp: verifyAddressRegistration_def Let_def IsAddressRegistered_eq bind_res_eq_Inr)
  obtain flag k where
    checked: "(if length ns > 0 then check_neighbours db ?a ns False 0 else Inr (False, 0)) = Inr (flag, k)"
    using assms v * ns
    by (auto simp: verifyAddressRegistration_def Let_def IsAddressRegistered_eq bind_res_eq_Inr)
  then have info: "\<not> (k > 0 \<and> \<not> flag) \<and> info = registered_info registration pk"
    using assms v * ns
    by (auto simp: verifyAddressRegistration_def Let_def IsAddressRegistered_eq split: if_split_asm)
  have "\<exists>n \<in> set ns. \<exists>p. GetNodeAddress db n = Inr (p, True) \<and> SuggestAddress db p = Inr (Inr ?a)"
    if "\<exists>n \<in> set ns. \<exists>p. GetNodeAddress db n = Inr (p, True)"
  proof -
    have c: "check_neighbours db ?a ns False 0 = Inr (flag, k)"
      using checked that by (cases ns) auto
    have "0 < k"
      using check_neighbours_flag(3) [OF assms(1) c] that by blast
    then have flag using info by simp
    then show ?thesis
      using check_neighbours_flag(2) [OF assms(1) c] by blast
  qed
  with that [of pk ns] v * ns info show ?thesis
    by simp
qed

section \<open>The file mirrors the database\<close>

definition mirrored :: "addressInfo list \<Rightarrow> DB \<times> disk \<Rightarrow> bool" where
  "mirrored infos = (\<lambda>(db, dk). db_ok db \<and> dk_address dk = Some (address_file (db_height db) infos) \<and>
     distinct (map ai_address infos) \<and> (\<forall>a. registered db a \<longleftrightarrow> a \<in> ai_address ` set infos))"

text \<open>What a registered address leads to is never changed, nor is a route.\<close>

definition extends :: "DB \<Rightarrow> DB \<Rightarrow> bool" where
  "extends db db' \<longleftrightarrow> (\<forall>a info. addr_map db a = Some info \<longrightarrow> addr_map db' a = Some info) \<and>
     route_map db' = route_map db"

lemma extends_refl [simp]: "extends db db"
  by (simp add: extends_def)

lemma extends_trans: "extends a b \<Longrightarrow> extends b c \<Longrightarrow> extends a c"
  by (simp add: extends_def)

lemma registered_info_simps [simp]:
  "ai_address (registered_info registration pk) = ar_address registration"
  "ai_nodePubKey (registered_info registration pk) = pk"
  "ai_routingEntry (registered_info registration pk) = None"
  by (simp_all add: registered_info_def)

definition valid_registration :: "Lnd \<Rightarrow> addressInfo \<Rightarrow> bool" where
  "valid_registration lnClient info \<longleftrightarrow> (\<exists>registration. info = registered_info registration (ai_nodePubKey info) \<and>
     VerifyMessage lnClient (list_of (ar_address registration)) (list_of (ar_sig registration)) =
       Inr (True, ai_nodePubKey info))"

lemma add_fresh_mirrored:
  assumes "mirrored infos (db, dk)" and "\<not> registered db (ai_address info)" and "ai_routingEntry info = None"
  shows "\<exists>db' dk'. addAddressToDB info db = Inr db' \<and> saveAddressToFile info dk = Inr dk' \<and>
    mirrored (infos @ [info]) (db', dk') \<and> extends db db'"
proof -
  have ok: "db_ok db" and stored: "dk_address dk = Some (address_file (db_height db) infos)"
    using assms(1) by (simp_all add: mirrored_def)
  have fresh: "addr_map db (ai_address info) = None"
    using assms(2) by (simp add: registered_def)
  then have can: "can_register db info"
    using assms(3) by (simp add: can_register_def)
  show ?thesis
  proof (rule addAddressToDB_spec [OF ok, of info])
    fix db'
    assume *: "addAddressToDB info db = Inr db'" "addr_map db' = (addr_map db)(ai_address info \<mapsto> info)"
      "db_entries db' = db_entries db" "db_height db' = db_height db" "can_register db info \<Longrightarrow> db_ok db'"
    have "route_map db' = route_map db"
      using fresh assms(3) by (intro ext) (auto simp: route_map_def *(2,3) split: option.splits)
    then have "extends db db'"
      using fresh *(2) by (auto simp: extends_def)
    moreover have "saveAddressToFile info dk =
        Inr (dk\<lparr>dk_address := Some (address_file (db_height db) (infos @ [info]))\<rparr>)"
      using stored by (simp add: saveAddressToFile_def)
    moreover have "mirrored (infos @ [info]) (db', dk\<lparr>dk_address := Some (address_file (db_height db) (infos @ [info]))\<rparr>)"
      using assms(1,2) * can by (auto simp: mirrored_def registered_def)
    ultimately show ?thesis
      using *(1) by blast
  qed
qed

lemma take_registration_mirrored:
  assumes "mirrored infos st" and "take_registration lnClient registration st = Inr st'"
  shows "\<exists>new. mirrored (infos @ new) st' \<and> extends (fst st) (fst st') \<and> (\<forall>i \<in> set new. valid_registration lnClient i)"
proof -
  obtain db dk where st: "st = (db, dk)" by (cases st)
  obtain v where v: "verifyAddressRegistration lnClient registration db = Inr v"
    using assms(2) st by (auto simp: take_registration_def bind_res_eq_Inr)
  show ?thesis
  proof (cases v)
    case None
    then show ?thesis
      using assms v st by (intro exI [of _ "[]"]) (simp add: take_registration_def)
  next
    case (Some info)
    have ok: "db_ok db"
      using assms(1) st by (simp add: mirrored_def)
    obtain pk where pk: "VerifyMessage lnClient (list_of (ar_address registration)) (list_of (ar_sig registration)) = Inr (True, pk)"
        "info = registered_info registration pk" "\<not> registered db (ar_address registration)"
      using verifyAddressRegistration_accepts [OF ok] v Some by blast
    obtain db' dk' where new: "addAddressToDB info db = Inr db'" "saveAddressToFile info dk = Inr dk'"
        "mirrored (infos @ [info]) (db', dk')" "extends db db'"
      using add_fresh_mirrored [of infos db dk info] assms(1) st pk by auto
    have "st' = (db', dk')"
      using assms(2) st v Some new by (simp add: take_registration_def)
    moreover have "valid_registration lnClient info"
      using pk by (auto simp: valid_registration_def)
    ultimately show ?thesis
      using new st by (intro exI [of _ "[info]"]) simp
  qed
qed

lemma take_registrations_mirrored:
  assumes "mirrored infos st" and "fold_res (take_registration lnClient) rs st = Inr st'"
  shows "\<exists>new. mirrored (infos @ new) st' \<and> extends (fst st) (fst st') \<and> (\<forall>i \<in> set new. valid_registration lnClient i)"
  using assms
proof (induction rs arbitrary: st infos)
  case Nil
  then show ?case
    by (intro exI [of _ "[]"]) simp
next
  case (Cons r rs)
  obtain st1 where st1: "take_registration lnClient r st = Inr st1" "fold_res (take_registration lnClient) rs st1 = Inr st'"
    using Cons.prems(2) by (auto simp: bind_res_eq_Inr)
  obtain new where new: "mirrored (infos @ new) st1" "extends (fst st) (fst st1)"
      "\<forall>i \<in> set new. valid_registration lnClient i"
    using take_registration_mirrored [OF Cons.prems(1) st1(1)] by blast
  obtain more where more: "mirrored ((infos @ new) @ more) st'" "extends (fst st1) (fst st')"
      "\<forall>i \<in> set more. valid_registration lnClient i"
    using Cons.IH [OF new(1) st1(2)] by blast
  show ?case
    using new more extends_trans [OF new(2) more(2)]
    by (intro exI [of _ "new @ more"]) auto
qed

lemma updateBlockHeight_mirrored:
  assumes "mirrored infos (db, dk)"
  shows "\<exists>dk'. updateBlockHeight h (db, dk) = Inr (db\<lparr>db_height := h\<rparr>, dk') \<and>
    mirrored infos (db\<lparr>db_height := h\<rparr>, dk')"
  using assms by (simp add: mirrored_def updateBlockHeight_def registered_def)

lemma UpdateAddressDB_mirrored:
  assumes "mirrored infos (db, dk)" and "UpdateAddressDB bitcoind lnClient (db, dk) = Some (Inr (db', dk'))"
  shows "\<exists>new. mirrored (infos @ new) (db', dk') \<and> (\<forall>i \<in> set new. valid_registration lnClient i) \<and>
    extends db db' \<and> GetBlockCount bitcoind = Inr (getBlockHeight db')"
proof -
  obtain r where r: "sync_addresses bitcoind lnClient (db_height db) (db, dk) = Some r"
      "bind_res r (\<lambda>(st, _). Inr st) = Inr (db', dk')"
    using assms(2) by (auto simp: UpdateAddressDB_def)
  obtain blockCount where count: "GetBlockCount bitcoind = Inr blockCount"
    using r by (auto simp: sync_addresses_def split: sum.split_asm)
  obtain rs st1 where rs: "fold_res (take_registration lnClient) rs (db, dk) = Inr st1"
      "updateBlockHeight blockCount st1 = Inr (db', dk')"
    using r count by (auto simp: sync_addresses_def bind_res_eq_Inr split: option.split_asm)
  obtain db1 dk1 where st1: "st1 = (db1, dk1)" by (cases st1)
  obtain new where new: "mirrored (infos @ new) (db1, dk1)" "extends db db1"
      "\<forall>i \<in> set new. valid_registration lnClient i"
    using take_registrations_mirrored [OF assms(1) rs(1)] st1 by auto
  obtain dk2 where "updateBlockHeight blockCount (db1, dk1) = Inr (db1\<lparr>db_height := blockCount\<rparr>, dk2)"
      "mirrored (infos @ new) (db1\<lparr>db_height := blockCount\<rparr>, dk2)"
    using updateBlockHeight_mirrored [OF new(1), of blockCount] by blast
  moreover from this have "db' = db1\<lparr>db_height := blockCount\<rparr>" "dk' = dk2"
    using rs(2) st1 by simp_all
  moreover have "extends db (db1\<lparr>db_height := blockCount\<rparr>)"
    using new(2) by (simp add: extends_def)
  ultimately show ?thesis
    using new(3) count by (auto simp: getBlockHeight_def)
qed

section \<open>Properties\<close>

text \<open>
  C10: what is accepted. A registration is accepted only if lnd confirms the signature over the address
  and recovers the public key, if the address is not registered, and, where the node has registered
  neighbours, if the address is the one suggested for one of them; it is stored with the data of
  the registration.
\<close>

theorem accepted_registration_is_valid:
  assumes "db_ok db" and "verifyAddressRegistration lnClient registration db = Inr (Some info)"
  shows "\<exists>pk ns. VerifyMessage lnClient (list_of (ar_address registration)) (list_of (ar_sig registration)) = Inr (True, pk) \<and>
    IsAddressRegistered db (ar_address registration) = Inr False \<and>
    GetNodeNeighboursPubKeys lnClient pk = Inr ns \<and>
    ((\<forall>n \<in> set ns. \<not> IsNodeRegistered db n) \<or>
     (\<exists>n \<in> set ns. \<exists>p. GetNodeAddress db n = Inr (p, True) \<and> SuggestAddress db p = Inr (Inr (ar_address registration)))) \<and>
    ai_address info = ar_address registration \<and> ai_nodePubKey info = pk \<and>
    ai_registrationHeight info = ar_blockHeight registration \<and> ai_registrationTxID info = ar_txID registration \<and>
    ai_version info = ar_version registration"
proof -
  obtain pk ns where *:
    "VerifyMessage lnClient (list_of (ar_address registration)) (list_of (ar_sig registration)) = Inr (True, pk)"
    "info = registered_info registration pk" "\<not> registered db (ar_address registration)"
    "GetNodeNeighboursPubKeys lnClient pk = Inr ns"
    "(\<exists>n \<in> set ns. \<exists>p. GetNodeAddress db n = Inr (p, True)) \<Longrightarrow>
      (\<exists>n \<in> set ns. \<exists>p. GetNodeAddress db n = Inr (p, True) \<and>
        SuggestAddress db p = Inr (Inr (ar_address registration)))"
    using verifyAddressRegistration_accepts [OF assms] by blast
  have "IsNodeRegistered db n \<longleftrightarrow> (\<exists>p. GetNodeAddress db n = Inr (p, True))" for n
    using assms(1) by (auto simp: IsNodeRegistered_eq GetNodeAddress_eq split: option.splits)
  then show ?thesis
    using * assms(1) by (intro exI [of _ pk] exI [of _ ns])
      (auto simp: IsAddressRegistered_eq registered_info_def)
qed

text \<open>
  C14: the chain is the registry. When the synchronisation with the chain succeeds on a database whose
  address file lists the registered addresses, each once, this is so afterwards: the file has grown by
  the new registrations, all of them signed as lnd confirms, no registered address has changed its
  owner or data and no route has changed, and the database stands at the block count of the daemon.
\<close>

theorem UpdateAddressDB_mirrors_chain:
  assumes "mirrored infos (db, dk)" and "UpdateAddressDB bitcoind lnClient (db, dk) = Some (Inr (db', dk'))"
  shows "\<exists>new. mirrored (infos @ new) (db', dk') \<and> (\<forall>i \<in> set new. valid_registration lnClient i) \<and>
    extends db db' \<and> GetBlockCount bitcoind = Inr (getBlockHeight db')"
  by (rule UpdateAddressDB_mirrored [OF assms])

text \<open>
  C32: a neighbour nobody can join. When a node has a registered neighbour and the address suggested
  for every registered neighbour is already registered, no registration of the node is accepted,
  whatever address it asks for.
\<close>

theorem taken_suggestions_block_registration:
  assumes "db_ok db" and "GetNodeNeighboursPubKeys lnClient pk = Inr ns"
    and "n \<in> set ns" and "IsNodeRegistered db n"
    and "\<forall>m \<in> set ns. \<forall>p s. GetNodeAddress db m = Inr (p, True) \<longrightarrow> SuggestAddress db p = Inr (Inr s) \<longrightarrow>
      IsAddressRegistered db s = Inr True"
    and "VerifyMessage lnClient (list_of (ar_address registration)) (list_of (ar_sig registration)) = Inr (valid, pk)"
  shows "\<not> (\<exists>info. verifyAddressRegistration lnClient registration db = Inr (Some info))"
proof
  assume "\<exists>info. verifyAddressRegistration lnClient registration db = Inr (Some info)"
  then obtain info where accepted: "verifyAddressRegistration lnClient registration db = Inr (Some info)"
    by blast
  show False
  proof (rule verifyAddressRegistration_accepts [OF assms(1) accepted])
    fix pk' ns'
    assume *: "VerifyMessage lnClient (list_of (ar_address registration)) (list_of (ar_sig registration)) = Inr (True, pk')"
      "\<not> registered db (ar_address registration)" "GetNodeNeighboursPubKeys lnClient pk' = Inr ns'"
      "\<exists>n \<in> set ns'. \<exists>p. GetNodeAddress db n = Inr (p, True) \<Longrightarrow>
        \<exists>n \<in> set ns'. \<exists>p. GetNodeAddress db n = Inr (p, True) \<and>
          SuggestAddress db p = Inr (Inr (ar_address registration))"
    have ns: "ns' = ns"
      using assms(2,6) *(1,3) by simp
    have "\<exists>p. GetNodeAddress db n = Inr (p, True)"
      using assms(4) by (auto simp: IsNodeRegistered_eq GetNodeAddress_eq [OF assms(1)])
    then obtain m p where "m \<in> set ns" "GetNodeAddress db m = Inr (p, True)"
        "SuggestAddress db p = Inr (Inr (ar_address registration))"
      using *(4) assms(3) unfolding ns by blast
    then have "IsAddressRegistered db (ar_address registration) = Inr True"
      using assms(5) by blast
    then show False
      using *(2) assms(1) by (simp add: IsAddressRegistered_eq)
  qed
qed

section \<open>Examples\<close>

definition example_registration :: "address \<Rightarrow> addressRegistration" where
  "example_registration a = \<lparr>ar_address = a, ar_blockHeight = 1, ar_txID = arr_copy 0 (replicate 32 9),
     ar_sig = arr_copy 0 (list_of a @ replicate 61 0), ar_version = 0\<rparr>"

lemma example_signature:
  "VerifyMessage (example_lnd chs) (list_of a) (list_of (ar_sig (example_registration a))) = Inr (True, example_key 1)"
proof -
  have "list_of (ar_sig (example_registration a)) = list_of a @ replicate 61 0"
    by (simp add: example_registration_def)
  moreover have "PubKeyStringToArray (PubKeyArrayToString (arr_copy 0 [2, 1])) = Inr (example_key 1)"
    by (simp add: example_key_def)
  ultimately show ?thesis
    by (simp add: VerifyMessage_def example_lnd_def)
qed

lemma example_neighbours: "GetNodeNeighboursPubKeys (example_lnd chs) pk = Inr [example_key 1]"
  by (simp add: GetNodeNeighboursPubKeys_def example_lnd_def example_key_def)

lemma example_accepted:
  assumes "db_ok db" and "\<not> registered db a" and "db_keyToAddressMap db (example_key 1) = None"
  shows "verifyAddressRegistration (example_lnd chs) (example_registration a) db =
    Inr (Some (registered_info (example_registration a) (example_key 1)))"
proof -
  have "ar_address (example_registration a) = a"
    by (simp add: example_registration_def)
  then show ?thesis
    using assms
    by (simp add: verifyAddressRegistration_def Let_def example_signature example_neighbours
        IsAddressRegistered_eq GetNodeAddress_eq)
qed

lemma createDB_keys [simp]: "db_keyToAddressMap (createDB p) pk = None"
  by (simp add: createDB_def)

lemma createDB_unregistered [simp]: "\<not> registered (createDB p) a"
  by (simp add: registered_def)

theorem accepted_registration_is_valid_witness:
  "\<exists>info. verifyAddressRegistration (example_lnd []) (example_registration (arr_copy 0 [10, 0, 0, 1])) (createDB ''data'') =
      Inr (Some info) \<and> ai_address info = arr_copy 0 [10, 0, 0, 1] \<and> ai_nodePubKey info = example_key 1"
proof -
  let ?r = "example_registration (arr_copy 0 [10, 0, 0, 1])"
  have "verifyAddressRegistration (example_lnd []) ?r (createDB ''data'') =
      Inr (Some (registered_info ?r (example_key 1)))"
    by (rule example_accepted) (simp_all add: db_ok_createDB)
  moreover have "ar_address ?r = arr_copy 0 [10, 0, 0, 1]"
    by (simp add: example_registration_def)
  ultimately show ?thesis
    using accepted_registration_is_valid [OF db_ok_createDB, of "example_lnd []" ?r] example_signature by auto
qed

definition example_chain :: "address \<Rightarrow> Bitcoind" where
  "example_chain a = example_bitcoind\<lparr>btc_GetBlockCount := Inr 1, btc_GetBlock := (\<lambda>_. Inr (Some
     [registration_tx (EncodeToString (replicate 32 9)) (registration_bytes a (list_of a @ replicate 61 0)) \<lparr>vo_Hex = []\<rparr>]))\<rparr>"

lemma example_chain_scan:
  "getNewAddressRegistrations (example_chain a) 1 1 = Some (Inr [example_registration a])"
proof -
  have block: "scan_block (example_chain a) 1 scan_start = Inr
      \<lparr>sc_txID = arr_copy 0 (replicate 32 9), sc_newAddress = a, sc_sig = arr_copy 0 (list_of a @ replicate 61 0),
       sc_found = [example_registration a]\<rparr>"
    using scan_registration [of "list_of a @ replicate 61 0" "replicate 32 9" 1 a "\<lparr>vo_Hex = []\<rparr>" scan_start]
    by (simp add: scan_block_def example_chain_def example_bitcoind_def scan_start_def example_registration_def)
  have past: "scan_blocks (example_chain a) 1 2 st = Some (Inr st)" for st
    by (subst scan_blocks.simps) simp
  have "scan_blocks (example_chain a) 1 1 scan_start = scan_blocks (example_chain a) 1 2
      \<lparr>sc_txID = arr_copy 0 (replicate 32 9), sc_newAddress = a, sc_sig = arr_copy 0 (list_of a @ replicate 61 0),
       sc_found = [example_registration a]\<rparr>"
    by (subst scan_blocks.simps) (simp add: block)
  then show ?thesis
    by (simp add: getNewAddressRegistrations_def past)
qed

lemma example_synchronised:
  assumes "mirrored [] (db, dk)" and "db_height db = 0" and "db_keyToAddressMap db (example_key 1) = None"
  shows "\<exists>db' dk'. UpdateAddressDB (example_chain a) (example_lnd []) (db, dk) = Some (Inr (db', dk')) \<and>
    db_height db' = 1 \<and> registered db' a \<and> GetNodeAddress db' (example_key 1) = Inr (a, True)"
proof -
  let ?info = "registered_info (example_registration a) (example_key 1)"
  have addr: "ai_address ?info = a"
    by (simp add: example_registration_def)
  have fresh: "db_ok db" "\<not> registered db a"
    using assms(1) by (simp_all add: mirrored_def)
  then obtain db1 dk1 where db1: "addAddressToDB ?info db = Inr db1" "saveAddressToFile ?info dk = Inr dk1"
      "mirrored ([] @ [?info]) (db1, dk1)"
    using add_fresh_mirrored [OF assms(1), of ?info] addr by auto
  then have key: "db_keyToAddressMap db1 (example_key 1) = Some (byteToBit a)"
    using addr by (auto simp: addAddressToDB_def bind_res_eq_Inr Let_def)
  have taken: "take_registration (example_lnd []) (example_registration a) (db, dk) = Inr (db1, dk1)"
    using example_accepted [OF fresh assms(3), of "[]"] db1(1,2) by (simp add: take_registration_def)
  obtain dk2 where dk2: "updateBlockHeight 1 (db1, dk1) = Inr (db1\<lparr>db_height := 1\<rparr>, dk2)"
    using updateBlockHeight_mirrored [OF db1(3)] by blast
  have "GetBlockCount (example_chain a) = Inr 1"
    by (simp add: GetBlockCount_def example_chain_def)
  then have "UpdateAddressDB (example_chain a) (example_lnd []) (db, dk) = Some (Inr (db1\<lparr>db_height := 1\<rparr>, dk2))"
    using example_chain_scan [of a] taken dk2 by (simp add: UpdateAddressDB_def sync_addresses_def assms(2))
  moreover have "db_ok (db1\<lparr>db_height := 1\<rparr>)" "registered (db1\<lparr>db_height := 1\<rparr>) a"
    using db1(3) addr by (simp_all add: mirrored_def registered_def)
  ultimately show ?thesis
    using key by (auto simp: GetNodeAddress_eq)
qed

theorem UpdateAddressDB_mirrors_chain_witness:
  "\<exists>db' dk' new. UpdateAddressDB (example_chain (arr_copy 0 [10, 0, 0, 1])) (example_lnd [])
      (createDB ''data'', \<lparr>dk_address = Some (address_file 0 []), dk_routing = None\<rparr>) = Some (Inr (db', dk')) \<and>
    mirrored new (db', dk') \<and> getBlockHeight db' = 1 \<and> registered db' (arr_copy 0 [10, 0, 0, 1])"
proof -
  let ?db = "createDB ''data''" and ?dk = "\<lparr>dk_address = Some (address_file 0 []), dk_routing = None\<rparr>"
  have height: "db_height ?db = 0"
    by (simp add: createDB_def genesisBlock_def)
  then have start: "mirrored [] (?db, ?dk)"
    by (simp add: mirrored_def db_ok_createDB)
  obtain db' dk' where updated: "UpdateAddressDB (example_chain (arr_copy 0 [10, 0, 0, 1])) (example_lnd []) (?db, ?dk) =
      Some (Inr (db', dk'))" "db_height db' = 1" "registered db' (arr_copy 0 [10, 0, 0, 1])"
    using example_synchronised [OF start height createDB_keys, of "arr_copy 0 [10, 0, 0, 1]"] by auto
  then show ?thesis
    using UpdateAddressDB_mirrors_chain [OF start updated(1)] by (auto simp: getBlockHeight_def)
qed

theorem taken_suggestions_block_registration_witness:
  "\<exists>db. example_db [0, 2, 3] = Inr db \<and>
    \<not> (\<exists>info. verifyAddressRegistration ((example_lnd [])\<lparr>rpc_GetNodeInfo := (\<lambda>_ _. Inr \<lparr>ni_Addresses = [],
          ni_Channels = [\<lparr>ce_Node1Pub = PubKeyArrayToString (example_key 2), ce_Node2Pub = []\<rparr>]\<rparr>)\<rparr>)
        (example_registration (example_address 1)) db = Inr (Some info))"
proof -
  let ?ln = "(example_lnd [])\<lparr>rpc_GetNodeInfo := (\<lambda>_ _. Inr \<lparr>ni_Addresses = [],
    ni_Channels = [\<lparr>ce_Node1Pub = PubKeyArrayToString (example_key 2), ce_Node2Pub = []\<rparr>]\<rparr>)\<rparr>"
  obtain db where db: "example_db [0, 2, 3] = Inr db" "fresh_db [0, 2, 3] db"
    using example_db_fresh by blast
  note ok = fresh_db_facts(1) [OF db(2)]
  have node: "GetNodeAddress db (example_key 2) = Inr (example_address 2, True)"
    using fresh_db_facts(3) [OF db(2), of 2] by (simp add: GetNodeAddress_eq [OF ok])
  have suggested: "SuggestAddress db (example_address 2) = Inr (Inr (example_address 2))"
    using example_taken db(1) by simp
  have taken: "IsAddressRegistered db (example_address 2) = Inr True"
    using fresh_db_facts(2) [OF db(2), of 2] by (simp add: IsAddressRegistered_eq [OF ok])
  have ns: "GetNodeNeighboursPubKeys ?ln (example_key 1) = Inr [example_key 2]"
    by (simp add: GetNodeNeighboursPubKeys_def)
  have reg: "IsNodeRegistered db (example_key 2)"
    using fresh_db_facts(3) [OF db(2), of 2] by (simp add: IsNodeRegistered_eq)
  have sig: "VerifyMessage ?ln (list_of (ar_address (example_registration (example_address 1))))
      (list_of (ar_sig (example_registration (example_address 1)))) = Inr (True, example_key 1)"
    using example_signature [of "[]" "example_address 1"]
    by (simp add: VerifyMessage_def) (simp add: example_registration_def)
  show ?thesis
    using db(1) taken_suggestions_block_registration [OF ok ns _ reg _ sig] node suggested taken by auto
qed

end
