(* ===== verification/Database_Steps.thy ===== *)
theory Database_Steps
  imports Registration Routing_Properties
begin

text \<open>
  The life of a database as a state machine: every goroutine of the node changes it by one of the
  operations of \<open>ldrlib/db.go\<close>, in any order. The step relation has one rule per operation that
  is called on the running node; its invariant is proved by rule induction.
\<close>

section \<open>Steps\<close>

inductive db_step :: "DB \<Rightarrow> DB \<Rightarrow> bool" where
  register: "verifyAddressRegistration lnClient registration db = Inr (Some info) \<Longrightarrow>
      addAddressToDB info db = Inr db' \<Longrightarrow> db_step db db'"
| learn: "addNewDestinationToDB lnClient dest pk db = Inr db' \<Longrightarrow> db_step db db'"
| balance: "sync_channel lnClient routingEntries localChannel db = Inr db' \<Longrightarrow> db_step db db'"
| peer: "addPeerConnToDB a r db = Inr db' \<Longrightarrow> db_step db db'"
| local: "db_step db (SaveLocalAddress a db)"
| announce: "db_step db (addDestConnToDB token r db)"
| close: "db_step db (removeDestConnFromDB token db)"
| block: "db_step db (db\<lparr>db_height := h\<rparr>)"

inductive reachable :: "DB \<Rightarrow> bool" where
  start: "reachable (createDB dataPath)"
| step: "reachable db \<Longrightarrow> db_step db db' \<Longrightarrow> reachable db'"

inductive_cases db_stepE [elim]: "db_step db db'"

inductive_simps reachable_iff: "reachable db"

section \<open>Every step keeps the invariant\<close>

definition node_inv :: "DB \<Rightarrow> bool" where
  "node_inv db \<longleftrightarrow> db_ok db \<and> one_key_per_address db"

lemma node_inv_frame [simp]:
  "node_inv (db_height_update f db) = node_inv db"
  "node_inv (db_localAddress_update f1 db) = node_inv db"
  "node_inv (db_destConns_update f2 db) = node_inv db"
  by (simp_all add: node_inv_def one_key_per_address_def)

lemma GetLocalChannels_of_learn:
  assumes "addNewDestinationToDB lnClient dest pk db = Inr db'" and "db_ok db"
    and "d_address dest \<noteq> db_localAddress db"
  shows "\<exists>chs. rpc_ListChannels lnClient = Inr chs"
  using assms
  by (cases "rpc_ListChannels lnClient")
    (auto simp: addNewDestinationToDB_def getLocalAddress_def GetNodeAddress_peer new_entry_eq
      GetLocalChannels_def Let_def)

lemma learn_inv:
  assumes "node_inv db" and "addNewDestinationToDB lnClient dest pk db = Inr db'"
  shows "node_inv db' \<and> same_registry db db'"
proof (cases "d_address dest = db_localAddress db")
  case True
  then show ?thesis
    using assms addNewDestinationToDB_self by simp
next
  case False
  have ok: "db_ok db" using assms(1) by (simp add: node_inv_def)
  obtain chs where chs: "rpc_ListChannels lnClient = Inr chs"
    using GetLocalChannels_of_learn [OF assms(2) ok False] by blast
  have reg: "registered db (d_address dest)"
    using addNewDestinationToDB_unregistered [OF ok chs _ False] assms(2) by fastforce
  obtain db'' where "addNewDestinationToDB lnClient dest pk db = Inr db''" "db_ok db''" "same_registry db db''"
    by (rule addNewDestinationToDB_spec [OF ok chs reg, of pk])
  then show ?thesis
    using assms one_key_same_registry [of db db''] by (simp add: node_inv_def)
qed

text \<open>A balance step is the learning of the neighbour on the database with capped entries.\<close>

lemma balance_learns:
  assumes "db_ok db" and "sync_channel lnClient rs ch db = Inr db'"
  shows "db' = db \<or> (\<exists>dest pk n. addNewDestinationToDB lnClient dest pk
    (capped_db n (ch_LocalBalance ch) rs db) = Inr db')"
proof -
  obtain pk where pk: "PubKeyStringToArray (ch_RemotePubkey ch) = Inr pk"
    using assms(2) by (auto simp: sync_channel_def bind_res_eq_Inr)
  show ?thesis
  proof (cases "db_keyToAddressMap db pk")
    case None
    then show ?thesis
      using assms pk by (simp add: sync_channel_def GetNodeAddress_peer)
  next
    case (Some p)
    then show ?thesis
      using assms pk unfolding capped_db_def by (auto simp: sync_channel_def GetNodeAddress_peer)
  qed
qed

lemma node_inv_capped [simp]: "node_inv db \<Longrightarrow> node_inv (capped_db n b rs db)"
  using one_key_same_registry [of db "capped_db n b rs db"] by (simp add: node_inv_def)

lemma balance_inv:
  assumes "node_inv db" and "sync_channel lnClient rs ch db = Inr db'"
  shows "node_inv db'"
  using balance_learns [OF _ assms(2)] assms(1) learn_inv node_inv_capped
  by (metis node_inv_def)

lemma unused_pointer:
  assumes "db_ok db" and "\<not> registered db a"
  shows "db_keyToAddressMap db pk \<noteq> Some (byteToBit a)"
proof
  assume "db_keyToAddressMap db pk = Some (byteToBit a)"
  then have "addr_map db (bitToByte (byteToBit a)) \<noteq> None"
    using assms(1) unfolding db_ok_def keys_ok_def by blast
  then show False
    using assms(2) by (simp add: registered_def)
qed

lemma register_inv:
  assumes "node_inv db" and "verifyAddressRegistration lnClient registration db = Inr (Some info)"
    and "addAddressToDB info db = Inr db'"
  shows "node_inv db' \<and> \<not> registered db (ai_address info) \<and> addr_map db' = (addr_map db)(ai_address info \<mapsto> info)"
proof -
  have ok: "db_ok db" using assms(1) by (simp add: node_inv_def)
  obtain pk where info: "info = registered_info registration pk" "\<not> registered db (ar_address registration)"
    using verifyAddressRegistration_accepts [OF ok assms(2)] by blast
  then have fresh: "\<not> registered db (ai_address info)" and can: "can_register db info"
    by (auto simp: can_register_def registered_def)
  show ?thesis
  proof (rule addAddressToDB_spec [OF ok, of info])
    fix db''
    assume *: "addAddressToDB info db = Inr db''" "can_register db info \<Longrightarrow> db_ok db''"
      "addr_map db'' = (addr_map db)(ai_address info \<mapsto> info)"
      "db_keyToAddressMap db'' = (db_keyToAddressMap db)(ai_nodePubKey info \<mapsto> byteToBit (ai_address info))"
    have "db_keyToAddressMap db pk \<noteq> Some (byteToBit (ai_address info))" for pk
      by (rule unused_pointer [OF ok fresh])
    then have "one_key_per_address db''"
      using assms(1) unfolding node_inv_def one_key_per_address_def *(4)
      by (metis fun_upd_apply)
    then show ?thesis
      using * assms(3) can fresh by (simp add: node_inv_def)
  qed
qed

lemma addPeerConnToDB_registered:
  assumes "db_ok db" and "addPeerConnToDB a r db = Inr db'"
  shows "registered db a"
proof (rule ccontr)
  assume "\<not> registered db a"
  then have "addPeerConnToDB a r db = Inl NilDeref"
    by (simp add: addPeerConnToDB_def walk_info db_ok_root [OF assms(1)] registered_def)
  then show False using assms(2) by simp
qed

lemma peer_inv:
  assumes "node_inv db" and "addPeerConnToDB a r db = Inr db'"
  shows "node_inv db' \<and> (\<forall>b. registered db' b = registered db b)"
proof -
  have ok: "db_ok db" using assms(1) by (simp add: node_inv_def)
  obtain db'' where "addPeerConnToDB a r db = Inr db''" "db_ok db''" "\<forall>b. registered db'' b = registered db b"
    using addPeerConnToDB_spec [OF ok addPeerConnToDB_registered [OF ok assms(2)]] by blast
  moreover have "db_keyToAddressMap db' = db_keyToAddressMap db"
    using assms(2) by (auto simp: addPeerConnToDB_def bind_res_eq_Inr)
  ultimately show ?thesis
    using assms by (simp add: node_inv_def one_key_per_address_def)
qed

lemma db_step_inv: "db_step db db' \<Longrightarrow> node_inv db \<Longrightarrow> node_inv db'"
  by (induction rule: db_step.induct)
    (auto simp: SaveLocalAddress_def addDestConnToDB_def removeDestConnFromDB_def
      dest: register_inv learn_inv balance_inv peer_inv)

lemma reachable_inv: "reachable db \<Longrightarrow> node_inv db"
proof (induction rule: reachable.induct)
  case (start dataPath)
  show ?case
    by (simp add: node_inv_def db_ok_createDB one_key_per_address_def)
next
  case (step db db')
  then show ?case
    by (rule_tac db_step_inv)
qed

section \<open>Registrations are never lost\<close>

text \<open>The part of an address's record that the blockchain determines.\<close>

definition registration_of :: "addressInfo \<Rightarrow> addressInfo" where
  "registration_of info = info\<lparr>ai_routingEntry := None, ai_peerConn := None\<rparr>"

definition keeps :: "DB \<Rightarrow> DB \<Rightarrow> bool" where
  "keeps db db' \<longleftrightarrow> (\<forall>a info. addr_map db a = Some info \<longrightarrow>
     (\<exists>info'. addr_map db' a = Some info' \<and> registration_of info' = registration_of info))"

lemma keeps_refl [simp]: "addr_map db' = addr_map db \<Longrightarrow> keeps db db'"
  by (simp add: keeps_def)

lemma keeps_trans: "keeps a b \<Longrightarrow> keeps b c \<Longrightarrow> keeps a c"
  unfolding keeps_def by metis

lemma keeps_update:
  assumes "addr_map db a = Some info" and "registration_of info' = registration_of info"
    and "addr_map db' = (addr_map db)(a \<mapsto> info')"
  shows "keeps db db'"
  using assms by (simp add: keeps_def)

lemma registration_of_update [simp]:
  "registration_of (info\<lparr>ai_routingEntry := r\<rparr>) = registration_of info"
  "registration_of (info\<lparr>ai_peerConn := c\<rparr>) = registration_of info"
  by (simp_all add: registration_of_def)

text \<open>Learning a destination installs at most one route; nothing else in the tree changes.\<close>

definition route_installed :: "DB \<Rightarrow> DB \<Rightarrow> bool" where
  "route_installed db db' \<longleftrightarrow> addr_map db' = addr_map db \<or>
     (\<exists>a info r. addr_map db a = Some info \<and>
        addr_map db' = (addr_map db)(a \<mapsto> info\<lparr>ai_routingEntry := Some r\<rparr>))"

lemma learn_installs:
  assumes "node_inv db" and "addNewDestinationToDB lnClient dest pk db = Inr db'"
  shows "route_installed db db'"
proof (cases "d_address dest = db_localAddress db")
  case True
  then show ?thesis
    using assms addNewDestinationToDB_self by (simp add: route_installed_def)
next
  case False
  have ok: "db_ok db" using assms(1) by (simp add: node_inv_def)
  obtain chs where chs: "rpc_ListChannels lnClient = Inr chs"
    using GetLocalChannels_of_learn [OF assms(2) ok False] by blast
  let ?e = "offered db chs dest pk"
  have reg: "registered db (d_address dest)"
    using addNewDestinationToDB_unregistered [OF ok chs _ False] assms(2) by fastforce
  then obtain info where info: "addr_map db (re_destination ?e) = Some info"
    by (auto simp: registered_def)
  show ?thesis
  proof (cases "worse db ?e")
    case True
    then show ?thesis
      using addNewDestinationToDB_eq [OF ok chs False, of pk] reg assms(2)
      by (auto simp: Let_def route_installed_def)
  next
    case better: False
    have installed: "addRoutingEntryToDB (db_nextEntry db) (with_entry ?e db) = Inr db'"
      using addNewDestinationToDB_eq [OF ok chs False, of pk] reg assms(2) better by (simp add: Let_def)
    show ?thesis
    proof (rule install_spec [OF ok info])
      fix db''
      assume "addRoutingEntryToDB (db_nextEntry db) (with_entry ?e db) = Inr db''"
        "addr_map db'' = (addr_map db)(re_destination ?e \<mapsto> info\<lparr>ai_routingEntry := Some (db_nextEntry db)\<rparr>)"
      then show ?thesis
        using installed info unfolding route_installed_def by (metis sum.inject(2))
    qed
  qed
qed

lemma balance_installs:
  assumes "node_inv db" and "sync_channel lnClient rs ch db = Inr db'"
  shows "route_installed db db'"
proof -
  have ok: "db_ok db" using assms(1) by (simp add: node_inv_def)
  have "route_installed db db'" if learn: "addNewDestinationToDB lnClient dest pk (capped_db n b rs db) = Inr db'"
    for dest pk n b
    using learn_installs [OF node_inv_capped [OF assms(1)] learn] by (simp add: route_installed_def)
  then show ?thesis
    using balance_learns [OF ok assms(2)] by (auto simp: route_installed_def)
qed

lemma installed_keeps: "route_installed db db' \<Longrightarrow> keeps db db'"
  using keeps_update [OF _ registration_of_update(1)] by (auto simp: route_installed_def)

lemma peer_keeps:
  assumes "node_inv db" and "addPeerConnToDB a r db = Inr db'"
  shows "keeps db db'"
proof -
  have ok: "db_ok db" using assms(1) by (simp add: node_inv_def)
  obtain info where "addr_map db a = Some info" "addr_map db' = (addr_map db)(a \<mapsto> info\<lparr>ai_peerConn := Some r\<rparr>)"
    using addPeerConnToDB_spec [OF ok addPeerConnToDB_registered [OF ok assms(2)], of r] assms(2) by auto
  then show ?thesis
    by (rule_tac keeps_update) auto
qed

lemma db_step_keeps: "db_step db db' \<Longrightarrow> node_inv db \<Longrightarrow> keeps db db'"
proof (induction rule: db_step.induct)
  case (register lnClient registration db info db')
  then have "\<not> registered db (ai_address info)" "addr_map db' = (addr_map db)(ai_address info \<mapsto> info)"
    using register_inv by blast+
  then show ?case
    by (auto simp: keeps_def registered_def)
qed (auto simp: SaveLocalAddress_def addDestConnToDB_def removeDestConnFromDB_def
    intro: installed_keeps learn_installs balance_installs peer_keeps)

lemma db_steps_keep: "db_step\<^sup>*\<^sup>* db db' \<Longrightarrow> node_inv db \<Longrightarrow> node_inv db' \<and> keeps db db'"
proof (induction rule: rtranclp_induct)
  case (step db1 db2)
  then show ?case
    using db_step_inv db_step_keeps keeps_trans by blast
qed simp

section \<open>Properties\<close>

text \<open>
  C9: in every reachable database, whatever the order of the operations, the lookups by public key
  never panic and answer a registered address exactly for the registered nodes, no address belongs
  to two nodes, and every routing entry on the stack is the one installed at its registered
  destination, each once.
\<close>

theorem reachable_database_consistent:
  assumes "reachable db"
  shows "(\<exists>a. GetNodeAddress db pk = Inr (a, IsNodeRegistered db pk) \<and>
      (IsNodeRegistered db pk \<longrightarrow> IsAddressRegistered db a = Inr True)) \<and>
    (GetNodeAddress db pk = Inr (b, True) \<longrightarrow> GetNodeAddress db pk' = Inr (b, True) \<longrightarrow> pk = pk') \<and>
    distinct (db_routingEntriesStack db) \<and>
    (\<forall>r \<in> set (getLastRoutingEntries db fromBlock).
       IsAddressRegistered db (re_destination (db_entries db r)) = Inr True \<and>
       getRoutingEntry db (re_destination (db_entries db r)) = Inr (Some r))"
proof -
  have inv: "db_ok db" "one_key_per_address db"
    using reachable_inv [OF assms] by (simp_all add: node_inv_def)
  have "\<exists>a. GetNodeAddress db pk = Inr (a, IsNodeRegistered db pk) \<and>
      (IsNodeRegistered db pk \<longrightarrow> IsAddressRegistered db a = Inr True)"
    using inv(1) unfolding db_ok_def keys_ok_def
    by (auto simp: GetNodeAddress_eq [OF inv(1)] IsNodeRegistered_eq IsAddressRegistered_eq [OF inv(1)]
        registered_def split: option.splits)
  moreover have "pk = pk'" if "GetNodeAddress db pk = Inr (b, True)" "GetNodeAddress db pk' = Inr (b, True)"
    using that inv(2) by (auto simp: GetNodeAddress_eq [OF inv(1)] one_key_per_address_def split: option.splits)
  moreover have "\<forall>r \<in> set (db_routingEntriesStack db).
      IsAddressRegistered db (re_destination (db_entries db r)) = Inr True \<and>
      getRoutingEntry db (re_destination (db_entries db r)) = Inr (Some r)"
    using inv(1) unfolding db_ok_def stack_ok_def
    by (fastforce simp: IsAddressRegistered_eq [OF inv(1)] getRoutingEntry_eq [OF inv(1)] registered_def)
  moreover have "distinct (db_routingEntriesStack db)"
    using inv(1) by (simp add: db_ok_def stack_ok_def)
  moreover have "set (getLastRoutingEntries db fromBlock) \<subseteq> set (db_routingEntriesStack db)"
    by (simp add: getLastRoutingEntries_def set_peekFromBlock_subset)
  ultimately show ?thesis
    by (intro conjI ballI impI) (simp_all add: subset_iff)
qed

text \<open>
  Registrations are permanent. From a reachable database, after any sequence of operations, an
  address registered before is still registered to the same node, with the same height,
  transaction and version, and the database is still well-formed.
\<close>

lemma registration_is_permanent:
  assumes "reachable db" and "db_step\<^sup>*\<^sup>* db db'" and "addr_map db a = Some info"
  shows "GetAddressNode db' a = Inr (ai_nodePubKey info) \<and> IsAddressRegistered db' a = Inr True \<and>
    (\<exists>info'. addr_map db' a = Some info' \<and> registration_of info' = registration_of info) \<and> db_ok db'"
proof -
  have *: "db_ok db'" "keeps db db'"
    using db_steps_keep [OF assms(2)] reachable_inv [OF assms(1)] by (simp_all add: node_inv_def)
  then obtain info' where info': "addr_map db' a = Some info'" "registration_of info' = registration_of info"
    using assms(3) by (auto simp: keeps_def)
  moreover have "ai_nodePubKey info' = ai_nodePubKey (registration_of info')"
    "ai_nodePubKey info = ai_nodePubKey (registration_of info)"
    by (simp_all add: registration_of_def)
  ultimately show ?thesis
    using *(1) by (simp add: GetAddressNode_eq IsAddressRegistered_eq registered_def)
qed

section \<open>Examples\<close>

lemma example_reachable:
  obtains db where "reachable db" "GetNodeAddress db (example_key 1) = Inr (a, True)"
    "addr_map db a = Some (registered_info (example_registration a) (example_key 1))"
proof -
  let ?info = "registered_info (example_registration a) (example_key 1)"
  have a: "ai_address ?info = a"
    by (simp add: example_registration_def)
  have verified: "verifyAddressRegistration (example_lnd []) (example_registration a) (createDB ''data'') = Inr (Some ?info)"
    by (rule example_accepted) (simp_all add: db_ok_createDB)
  show ?thesis
  proof (rule addAddressToDB_spec [OF db_ok_createDB, of ?info "''data''"])
    fix db
    assume *: "addAddressToDB ?info (createDB ''data'') = Inr db"
      "addr_map db = (addr_map (createDB ''data''))(ai_address ?info \<mapsto> ?info)"
      "db_keyToAddressMap db = (db_keyToAddressMap (createDB ''data''))(ai_nodePubKey ?info \<mapsto> byteToBit (ai_address ?info))"
      "can_register (createDB ''data'') ?info \<Longrightarrow> db_ok db"
    then have "db_ok db"
      by (simp add: can_register_def)
    then have "GetNodeAddress db (example_key 1) = Inr (a, True)"
      using *(3) a by (simp add: GetNodeAddress_eq)
    moreover have "reachable db"
      using reachable.step [OF reachable.start db_step.register [OF verified *(1)]] .
    ultimately show ?thesis
      using that *(2) a by simp
  qed
qed

theorem reachable_database_consistent_witness:
  "\<exists>db. reachable db \<and> GetNodeAddress db (example_key 1) = Inr (example_address 7, True) \<and>
     IsAddressRegistered db (example_address 7) = Inr True"
proof (rule example_reachable [of "example_address 7"])
  fix db
  assume "reachable db" "GetNodeAddress db (example_key 1) = Inr (example_address 7, True)"
  then show ?thesis
    using reachable_database_consistent [of db "example_key 1" "example_address 7" "example_key 1" 0] by auto
qed

end
