(* ===== verification/Terminal_Input.thy ===== *)
theory Terminal_Input
  imports Go_Strings Address_Bits
begin

text \<open>
  What the client program reads from its terminal (\<open>client.go\<close>): numbers for the menus and routing
  addresses in dotted form. The standard functions \<open>strings.TrimSuffix\<close>, \<open>strconv.Atoi\<close> and the
  IPv4 part of \<open>net.ParseIP\<close> are modelled as they are in Go 1.13; the part of \<open>net.ParseIP\<close> for
  texts with a colon, followed by \<open>To4\<close>, is an argument. The input is a list of lines, one per
  \<open>ReadString\<close>; after its end every \<open>ReadString\<close> gives the empty string.
\<close>

section \<open>Lines and numbers\<close>

definition newline :: char where "newline = CHR 0x0A"

definition trim_newline :: "string \<Rightarrow> string" where
  "trim_newline s = (if s \<noteq> [] \<and> last s = newline then butlast s else s)"

definition is_digit :: "char \<Rightarrow> bool" where
  "is_digit c \<longleftrightarrow> 48 \<le> (of_char c :: nat) \<and> (of_char c :: nat) \<le> 57"

definition digits_value :: "string \<Rightarrow> nat" where
  "digits_value s = foldl (\<lambda>n c. n * 10 + (of_char c - 48)) 0 s"

definition Atoi :: "string \<Rightarrow> go_error + int" where
  "Atoi s =
     (let (neg, ds) = (case s of [] \<Rightarrow> (False, [])
        | c # t \<Rightarrow> if c = CHR ''-'' then (True, t) else if c = CHR ''+'' then (False, t) else (False, s))
      in if ds = [] \<or> \<not> list_all is_digit ds then Inl ''invalid syntax''
         else let v = (if neg then - int (digits_value ds) else int (digits_value ds))
           in if v < - (2 ^ 63) \<or> 2 ^ 63 \<le> v then Inl ''value out of range'' else Inr v)"

section \<open>Addresses\<close>

text \<open>A decimal number at the front of the text, below 0xFFFFFF, and what follows it.\<close>

definition dtoi :: "string \<Rightarrow> (nat \<times> string) option" where
  "dtoi s =
     (let ds = takeWhile is_digit s in
      if ds = [] \<or> 0xFFFFFF \<le> digits_value ds then None
      else Some (digits_value ds, dropWhile is_digit s))"

fun parse_octets :: "nat \<Rightarrow> bool \<Rightarrow> string \<Rightarrow> u8 list option" where
  "parse_octets 0 first s = (if s = [] then Some [] else None)"
| "parse_octets (Suc k) first s =
     (case (if first then Some s
            else case s of [] \<Rightarrow> None | c # t \<Rightarrow> if c = CHR ''.'' then Some t else None) of
        None \<Rightarrow> None
      | Some s \<Rightarrow> (case dtoi s of
          None \<Rightarrow> None
        | Some (n, rest) \<Rightarrow>
            if n > 0xFF then None else map_option (\<lambda>bs. of_nat n # bs) (parse_octets k False rest)))"

definition ParseIP_To4 :: "(string \<Rightarrow> u8 list option) \<Rightarrow> string \<Rightarrow> u8 list option" where
  "ParseIP_To4 parse6 s =
     (case find (\<lambda>c. c = CHR ''.'' \<or> c = CHR '':'') s of
        None \<Rightarrow> None
      | Some c \<Rightarrow> if c = CHR ''.'' then parse_octets 4 True s else parse6 s)"

text \<open>
  The loop asks until a line is an address; \<open>None\<close> is a loop that never ends, which happens at the
  end of the input.
\<close>

fun getValidAddressFromUser :: "(string \<Rightarrow> u8 list option) \<Rightarrow> string list \<Rightarrow> (address \<times> string list) option" where
  "getValidAddressFromUser parse6 [] = None"
| "getValidAddressFromUser parse6 (readText # rest) =
     (case ParseIP_To4 parse6 (trim_newline readText) of
        None \<Rightarrow> getValidAddressFromUser parse6 rest
      | Some validIPAddress \<Rightarrow> Some (arr_copy 0 validIPAddress, rest))"

section \<open>Reading what was printed\<close>

lemma digit_char:
  assumes "n < 10"
  shows "is_digit (''0123456789'' ! n)" "of_char (''0123456789'' ! n) - 48 = n"
    "''0123456789'' ! n \<noteq> newline" "''0123456789'' ! n \<noteq> CHR '':''" "''0123456789'' ! n \<noteq> CHR ''.''"
proof -
  have "list_all (\<lambda>n. is_digit (''0123456789'' ! n) \<and> of_char (''0123456789'' ! n) - 48 = n \<and>
      ''0123456789'' ! n \<noteq> newline \<and> ''0123456789'' ! n \<noteq> CHR '':'' \<and> ''0123456789'' ! n \<noteq> CHR ''.'') [0..<10]"
    by code_simp
  then show "is_digit (''0123456789'' ! n)" "of_char (''0123456789'' ! n) - 48 = n"
    "''0123456789'' ! n \<noteq> newline" "''0123456789'' ! n \<noteq> CHR '':''" "''0123456789'' ! n \<noteq> CHR ''.''"
    using assms by (simp_all add: list_all_iff)
qed

lemma dec_string_digits:
  "dec_string n \<noteq> [] \<and> list_all is_digit (dec_string n) \<and> digits_value (dec_string n) = n \<and>
   newline \<notin> set (dec_string n) \<and> CHR '':'' \<notin> set (dec_string n) \<and> CHR ''.'' \<notin> set (dec_string n)"
proof (induction n rule: dec_string.induct)
  case (1 n)
  show ?case
  proof (cases "n < 10")
    case True
    then show ?thesis
      using digit_char [OF True] by (subst (1 2 3 4 5 6) dec_string.simps) (auto simp: digits_value_def)
  next
    case False
    have "n mod 10 < 10" by simp
    note last = digit_char [OF this]
    have "digits_value (dec_string (n div 10) @ [''0123456789'' ! (n mod 10)]) = n div 10 * 10 + n mod 10"
      using 1 [OF False] last by (simp add: digits_value_def)
    also have "\<dots> = n"
      by simp
    finally show ?thesis
      using 1 [OF False] last False by (subst (1 2 3 4 5 6) dec_string.simps) auto
  qed
qed

lemma dtoi_dec_string:
  assumes "n < 0xFFFFFF" and "rest = [] \<or> \<not> is_digit (hd rest)"
  shows "dtoi (dec_string n @ rest) = Some (n, rest)"
proof -
  have all: "\<forall>c \<in> set (dec_string n). is_digit c"
    using dec_string_digits [of n] by (simp add: list_all_iff)
  have stop: "takeWhile is_digit rest = []" "dropWhile is_digit rest = rest"
    using assms(2) by (cases rest; simp)+
  have "takeWhile is_digit (dec_string n @ rest) = dec_string n"
    "dropWhile is_digit (dec_string n @ rest) = rest"
    using all stop by simp_all
  then show ?thesis
    using assms(1) dec_string_digits [of n] by (simp add: dtoi_def)
qed

lemma find_skip: "(\<And>x. x \<in> set xs \<Longrightarrow> \<not> P x) \<Longrightarrow> P y \<Longrightarrow> find P (xs @ y # ys) = Some y"
  by (induction xs) auto

lemma not_digit_dot [simp]: "\<not> is_digit CHR ''.''"
  by (simp add: is_digit_def)

lemma parse_ip_string: "ParseIP_To4 parse6 (ip_string a) = Some (list_of a)"
proof -
  obtain w0 w1 w2 w3 where a: "list_of a = [w0, w1, w2, w3]"
    by (rule length4_cases [of "list_of a"]) simp
  have byte: "unat (w :: u8) < 256" for w
    using unsigned_less [of w] by simp
  have small: "unat (w :: u8) < 0xFFFFFF" "\<not> unat w > 0xFF" for w
    using byte [of w] by linarith+
  have octet: "parse_octets (Suc k) first (pre @ dec_string (unat w) @ rest) =
      map_option (\<lambda>bs. w # bs) (parse_octets k False rest)"
    if "first \<and> pre = [] \<or> \<not> first \<and> pre = ''.''" "rest = [] \<or> \<not> is_digit (hd rest)" for k first pre w rest
    using that dtoi_dec_string [of "unat w" rest] small by auto
  have "parse_octets 4 True (ip_string a) = Some (list_of a)"
    using octet [of True "[]" _ 3 w0] octet [of False "''.''" _ 2 w1] octet [of False "''.''" _ 1 w2]
      octet [of False "''.''" "[]" 0 w3]
    by (simp add: ip_string_def a numeral_eq_Suc)
  moreover have "find (\<lambda>c. c = CHR ''.'' \<or> c = CHR '':'') (dec_string n @ CHR ''.'' # rest) = Some CHR ''.''" for n rest
    using dec_string_digits [of n] by (intro find_skip) auto
  ultimately show ?thesis
    by (simp add: ParseIP_To4_def ip_string_def a)
qed

end
