(* ===== verification/Printing.thy ===== *)
theory Printing
  imports Wire_Format Routing_Table
begin

text \<open>
  What the program prints of a route and of the routing table (\<open>PrintRoute\<close> of \<open>ldrlib/routing.go\<close> and
  \<open>PrintRoutingTable\<close> of \<open>ldrlib/db.go\<close>), as a list of lines. A four-byte array is printed by \<open>fmt\<close> as its
  numbers in brackets.
\<close>

definition Println :: "string list \<Rightarrow> string" where
  "Println args = concat (case args of [] \<Rightarrow> [] | a # rest \<Rightarrow> a # map (\<lambda>b. '' '' @ b) rest)"

definition array_string :: "address \<Rightarrow> string" where
  "array_string a = ''['' @ Println (map (\<lambda>w. dec_string (unat w)) (list_of a)) @ '']''"

definition PrintRoute :: "Route \<Rightarrow> string list" where
  "PrintRoute route =
     [Println [''Route to'', array_string (rt_destination route)],
      Println [''Maximum Capacity:'', int_string (sint (rt_capacity route))]] @
     map (\<lambda>(n, hop). ''Hop '' @ dec_string n @ '': '' @ array_string hop) (List.enumerate 0 (rt_hops route))"

definition PrintRoutingTable :: "DB \<Rightarrow> string list" where
  "PrintRoutingTable db =
     (let routingEntries = peekFromBlock (db_entries db) genesisBlock (db_routingEntriesStack db)
      in concat (map (\<lambda>(n, r). let entry = db_entries db r in
           [Println [''Entry #:'', dec_string n],
            Println [''Destination:'', ip_string (re_destination entry)],
            Println [''Next Hop:'', ip_string (re_nextHop entry)],
            Println [''Capacity:'', int_string (sint (re_capacity entry))],
            Println [''Update Height:'', dec_string (unat (re_height entry))]])
         (List.enumerate 0 routingEntries)))"

text \<open>The whole table is printed, five lines for every route.\<close>

lemma length_PrintRoutingTable [simp]:
  "length (PrintRoutingTable db) = 5 * length (db_routingEntriesStack db)"
proof -
  have "length (concat (map (\<lambda>(n, r). [a n r, b n r, c n r, d n r, e n r]) (List.enumerate k rs))) = 5 * length rs"
    for a b c d e :: "nat \<Rightarrow> entry_ref \<Rightarrow> string" and k rs
    by (induction rs arbitrary: k) simp_all
  then show ?thesis
    by (simp add: PrintRoutingTable_def Let_def genesisBlock_def)
qed

end
