(* ===== verification/Client.thy ===== *)
theory Client
  imports Route_Probe Registration Database_Steps Terminal_Input Printing
begin

text \<open>
  The client program (\<open>client.go\<close>): starting up from the files and the blockchain, registering an
  address from a menu, and the main menu. The terminal is a list of lines; a program that waits for
  ever is \<open>None\<close>. The goroutines \<open>main\<close> starts are not interleaved here: \<open>SynchronizeRoutingDB\<close>,
  \<open>ListenForConnections\<close> and \<open>handlePeerConnection\<close> are modelled on their own.
\<close>

section \<open>Reading lines\<close>

definition ReadString :: "string list \<Rightarrow> string \<times> string list" where
  "ReadString input = (case input of [] \<Rightarrow> ([], []) | line # rest \<Rightarrow> (trim_newline line, rest))"

definition bind_opt :: "'a res option \<Rightarrow> ('a \<Rightarrow> 'b res option) \<Rightarrow> 'b res option" where
  "bind_opt m f = (case m of None \<Rightarrow> None | Some (Inl e) \<Rightarrow> Some (Inl e) | Some (Inr x) \<Rightarrow> f x)"

lemma bind_opt_simps [simp]:
  "bind_opt None f = None" "bind_opt (Some (Inl e)) f = Some (Inl e)" "bind_opt (Some (Inr x)) f = f x"
  by (simp_all add: bind_opt_def)

lemma bind_opt_eq_Inr: "bind_opt m f = Some (Inr y) \<longleftrightarrow> (\<exists>x. m = Some (Inr x) \<and> f x = Some (Inr y))"
  by (auto simp: bind_opt_def split: option.splits sum.splits)

section \<open>Registering an address\<close>

record addressOption =
  ao_suggested :: address
  ao_neighbor :: address

fun address_options :: "DB \<Rightarrow> pubkey list \<Rightarrow> addressOption list res" where
  "address_options db [] = Inr []"
| "address_options db (neighborPubKey # rest) =
     bind_res (GetNodeAddress db neighborPubKey) (\<lambda>(neighborAddress, isRegistered).
     if isRegistered then
       bind_res (bind_res (SuggestAddress db neighborAddress) or_fatal) (\<lambda>suggestedAddress.
       bind_res (address_options db rest) (\<lambda>options.
       Inr (\<lparr>ao_suggested = suggestedAddress, ao_neighbor = neighborAddress\<rparr> # options)))
     else address_options db rest)"

definition register_address :: "TxLib \<Rightarrow> Bitcoind \<Rightarrow> Lnd \<Rightarrow> address \<Rightarrow> address res" where
  "register_address lib btcClient lnClient address =
     bind_res (BroadcastNewAddressTx lib btcClient lnClient address) (\<lambda>result.
     bind_res (or_fatal result) (\<lambda>hash. Inr address))"

definition registerAddressMenu :: "(string \<Rightarrow> u8 list option) \<Rightarrow> TxLib \<Rightarrow> Bitcoind \<Rightarrow> Lnd \<Rightarrow> string list \<Rightarrow>
    (address \<times> string list) res option" where
  "registerAddressMenu parse6 lib btcClient lnClient input =
     (case getValidAddressFromUser parse6 input of
        None \<Rightarrow> None
      | Some (address, input) \<Rightarrow>
          Some (bind_res (register_address lib btcClient lnClient address) (\<lambda>address. Inr (address, input))))"

definition addressRegistrationMenu :: "(string \<Rightarrow> u8 list option) \<Rightarrow> TxLib \<Rightarrow> Bitcoind \<Rightarrow> Lnd \<Rightarrow> DB \<Rightarrow>
    string list \<Rightarrow> (address \<times> string list) res option" where
  "addressRegistrationMenu parse6 lib btcClient lnClient addressDB input =
     bind_opt (Some (bind_res (GetLocalNodeNeighboursPubKeys lnClient) (address_options addressDB))) (\<lambda>addressOptions.
     if length addressOptions > 0 then
       let (text, input) = ReadString input in
       (case Atoi text of
          Inl err \<Rightarrow> Some (Inl (Fatal err))
        | Inr userRegistrationOption \<Rightarrow>
            if userRegistrationOption < -1 \<or> userRegistrationOption > int (length addressOptions) - 1
            then Some (Inl (Fatal ''Invalid option''))
            else if userRegistrationOption = -1 then registerAddressMenu parse6 lib btcClient lnClient input
            else Some (bind_res (register_address lib btcClient lnClient
                   (ao_suggested (addressOptions ! nat userRegistrationOption))) (\<lambda>address. Inr (address, input))))
     else registerAddressMenu parse6 lib btcClient lnClient input)"

section \<open>Starting up\<close>

definition verifyLocalAddressRegistration :: "Lnd \<Rightarrow> DB \<Rightarrow> (address \<times> bool) res" where
  "verifyLocalAddressRegistration lnClient addressDB =
     bind_res (GetLocalNodePubKey lnClient) (\<lambda>localNodePubKey.
     bind_res (GetNodeAddress addressDB localNodePubKey) (\<lambda>(localAddress, valid).
     if \<not> valid then Inr (0, False) else Inr (localAddress, True)))"

definition start_database :: "string \<Rightarrow> Bitcoind \<Rightarrow> Lnd \<Rightarrow> disk \<Rightarrow> (DB \<times> disk) res option" where
  "start_database dataPath btcClient lnClient dk =
     bind_opt (Some (ReadDBFromDisk dataPath dk)) (UpdateAddressDB btcClient lnClient)"

definition local_address :: "(string \<Rightarrow> u8 list option) \<Rightarrow> TxLib \<Rightarrow> Bitcoind \<Rightarrow> Lnd \<Rightarrow> DB \<Rightarrow> string list \<Rightarrow>
    (address \<times> string list) res option" where
  "local_address parse6 lib btcClient lnClient db input =
     bind_opt (Some (verifyLocalAddressRegistration lnClient db)) (\<lambda>(localAddress, valid).
     if \<not> valid then addressRegistrationMenu parse6 lib btcClient lnClient db input
     else Some (Inr (localAddress, input)))"

definition fresh_node :: "DB \<Rightarrow> Node" where
  "fresh_node db = \<lparr>nd_db = db, nd_conns = (\<lambda>_. dest_conn 0), nd_nextConn = 0, nd_written = [], nd_closed = []\<rparr>"

definition main_start :: "Env \<Rightarrow> string \<Rightarrow> (string \<Rightarrow> u8 list option) \<Rightarrow> TxLib \<Rightarrow> Bitcoind \<Rightarrow> Lnd \<Rightarrow> disk \<Rightarrow>
    string list \<Rightarrow> (Node \<times> disk \<times> string list) res option" where
  "main_start env dataPath parse6 lib btcClient lnClient dk input =
     bind_opt (start_database dataPath btcClient lnClient dk) (\<lambda>(db, dk).
     bind_opt (local_address parse6 lib btcClient lnClient db input) (\<lambda>(localAddress, input).
     Some (bind_res (ConnectToPeersAuto env lnClient (fresh_node (SaveLocalAddress localAddress db)))
       (\<lambda>node. Inr (node, dk, input)))))"

section \<open>The main menu\<close>

text \<open>A round that goes on leaves the lines it has printed in answer, the input and the node.\<close>

datatype menu_outcome = MenuGoesOn "string list" "string list" Node | MenuExits disk | MenuHangs

text \<open>One round; the environment and the token are those of the round. The menu and its prompts are left out.\<close>

definition menu_round :: "Env \<Rightarrow> aead \<Rightarrow> Lnd \<Rightarrow> (string \<Rightarrow> u8 list option) \<Rightarrow> u8 list \<Rightarrow> string list \<Rightarrow>
    Node \<Rightarrow> disk \<Rightarrow> menu_outcome res" where
  "menu_round env c lnClient parse6 token input node dk =
     (let (text, input) = ReadString input in
      bind_res (or_fatal (Atoi text)) (\<lambda>menuOption.
      if menuOption = 1 then
        (case getValidAddressFromUser parse6 input of
           None \<Rightarrow> Inr MenuHangs
         | Some (address, input) \<Rightarrow>
             bind_res (GetRouteAuto env c lnClient token address node) (\<lambda>(route, node).
             bind_res (or_fatal route) (\<lambda>route. Inr (MenuGoesOn (PrintRoute route) input node))))
      else if menuOption = 2 then
        (case getValidAddressFromUser parse6 input of
           None \<Rightarrow> Inr MenuHangs
         | Some (address, input) \<Rightarrow>
             let (ipAddress, input) = ReadString input in
             bind_res (GetRouteManual env c lnClient token address ipAddress node) (\<lambda>(route, node).
             bind_res (or_fatal route) (\<lambda>route. Inr (MenuGoesOn (''Got Route!'' # PrintRoute route) input node))))
      else if menuOption = 3 then
        (let (address, input) = ReadString input in
         bind_res (ConnectToPeer env lnClient 0 address node) (\<lambda>(_, node). Inr (MenuGoesOn [] input node)))
      else if menuOption = 5 then Inr (MenuGoesOn (''Printing routing table'' # PrintRoutingTable (nd_db node)) input node)
      else if menuOption = 6 then
        (case getValidAddressFromUser parse6 input of
           None \<Rightarrow> Inr MenuHangs
         | Some (address, input) \<Rightarrow>
             bind_res (IsAddressRegistered (nd_db node) address) (\<lambda>registered.
             if \<not> registered then Inr (MenuGoesOn [Println [array_string address, ''is not a registered address'']] input node)
             else bind_res (GetAddressNode (nd_db node) address) (\<lambda>pubKeyArray.
               Inr (MenuGoesOn [PubKeyArrayToString pubKeyArray] input node))))
      else if menuOption = 0 then Inr (MenuExits (SaveRoutingDBToFile (nd_db node) dk))
      else Inr (MenuGoesOn [] input node)))"

lemma getValidAddressFromUser_shorter:
  "getValidAddressFromUser parse6 input = Some (a, rest) \<Longrightarrow> length rest < length input"
  by (induction parse6 input rule: getValidAddressFromUser.induct) (auto split: option.splits)

lemma ReadString_Nil [simp]: "ReadString [] = ([], [])"
  by (simp add: ReadString_def)

lemma ReadString_Cons [simp]: "ReadString (line # rest) = (trim_newline line, rest)"
  by (simp add: ReadString_def)

lemma ReadString_rest: "ReadString input = (text, rest) \<Longrightarrow> length rest \<le> length input"
  by (cases input) auto

lemma menu_round_shorter:
  assumes "menu_round env c lnClient parse6 token input node dk = Inr (MenuGoesOn screen rest node')"
  shows "length rest < length input"
proof (cases input)
  case Nil
  then show ?thesis
    using assms by (simp add: menu_round_def Atoi_def)
next
  case (Cons line lines)
  have "length rest \<le> length lines"
    using assms Cons getValidAddressFromUser_shorter [of parse6 lines] ReadString_rest
    by (auto simp: menu_round_def bind_res_eq_Inr split: if_split_asm option.split_asm prod.split_asm
        dest!: ReadString_rest dest: getValidAddressFromUser_shorter less_imp_le le_less_trans)
  then show ?thesis using Cons by simp
qed

text \<open>On an interrupt the routing table is saved as well.\<close>

definition setupSigTermHandler :: "DB \<Rightarrow> disk \<Rightarrow> menu_outcome" where
  "setupSigTermHandler db dk = MenuExits (SaveRoutingDBToFile db dk)"

text \<open>The endless loop. Each round reads a line, so the input bounds the rounds.\<close>

function optionMenu :: "(nat \<Rightarrow> Env) \<Rightarrow> aead \<Rightarrow> Lnd \<Rightarrow> (string \<Rightarrow> u8 list option) \<Rightarrow> (nat \<Rightarrow> u8 list) \<Rightarrow>
    nat \<Rightarrow> string list \<Rightarrow> Node \<Rightarrow> disk \<Rightarrow> menu_outcome res" where
  "optionMenu env c lnClient parse6 token k input node dk =
     bind_res (menu_round (env k) c lnClient parse6 (token k) input node dk) (\<lambda>out. case out of
       MenuGoesOn _ input node \<Rightarrow> optionMenu env c lnClient parse6 token (Suc k) input node dk
     | _ \<Rightarrow> Inr out)"
  by pat_completeness auto
termination
  by (relation "measure (\<lambda>(_, _, _, _, _, _, input, _, _). length input)") (auto dest: menu_round_shorter)

declare optionMenu.simps [simp del]

end
