(* ===== verification/Client_Properties.thy ===== *)
theory Client_Properties
  imports Client
begin

text \<open>
  The properties of the client program: what is typed is understood, a start resumes the registry of
  the files and the chain, an address offered by the menu is one that other nodes accept, and
  the ways out of the main menu.
\<close>

section \<open>Input\<close>

lemma trim_ip_string [simp]: "trim_newline (s @ [newline]) = s"
  by (simp add: trim_newline_def)

text \<open>
  An address can be typed. The dotted form of an address, after any lines that are not addresses,
  is read as that address and the rest of the input is left; while no line is an address the program
  asks for ever.
\<close>

lemma address_is_read_back:
  assumes "\<forall>line \<in> set junk. ParseIP_To4 parse6 (trim_newline line) = None"
  shows "getValidAddressFromUser parse6 (junk @ (ip_string a @ [newline]) # rest) = Some (a, rest) \<and>
    getValidAddressFromUser parse6 junk = None"
  using assms by (induction junk) (simp_all add: parse_ip_string)

section \<open>Starting up\<close>

text \<open>
  A start resumes where the node stopped. When the program starts with the address file of a list of
  registrations, and the synchronisation with the chain succeeds, the file lists the registered
  addresses again, old and new, each once; the old ones lead to their nodes, the new ones are
  signed as lnd confirms, and the database stands at the block count of the daemon.
\<close>

lemma start_resumes_registry:
  assumes "dk_address dk = Some (address_file h infos)" and "dk_routing dk = None"
    and "distinct (map ai_address infos)"
    and "start_database dataPath bitcoind lnClient dk = Some (Inr (db', dk'))"
  shows "\<exists>new. mirrored (infos @ new) (db', dk') \<and> (\<forall>i \<in> set new. valid_registration lnClient i) \<and>
    (\<forall>i \<in> set infos. GetAddressNode db' (ai_address i) = Inr (ai_nodePubKey i)) \<and>
    GetBlockCount bitcoind = Inr (getBlockHeight db')"
proof -
  obtain db where db: "fold_res addAddressToDB (map stored_info infos) ((createDB dataPath)\<lparr>db_height := h\<rparr>) = Inr db"
      "db_ok db" "db_height db = h" "addr_map db = map_of (map (\<lambda>i. (ai_address i, stored_info i)) (rev infos))"
    using load_stored by blast
  let ?dk = "dk\<lparr>dk_routing := Some (routing_file [])\<rparr>"
  have read: "ReadDBFromDisk dataPath dk = Inr (db, ?dk)"
    using db(1) assms(1,2) by (simp add: ReadDBFromDisk_files)
  have mirror: "mirrored infos (db, ?dk)"
    using db(2,3) assms(1,3) registered_stored [OF db(4)] by (simp add: mirrored_def)
  have sync: "UpdateAddressDB bitcoind lnClient (db, ?dk) = Some (Inr (db', dk'))"
    using assms(4) read by (simp add: start_database_def)
  obtain new where new: "mirrored (infos @ new) (db', dk')" "\<forall>i \<in> set new. valid_registration lnClient i"
      "extends db db'" "GetBlockCount bitcoind = Inr (getBlockHeight db')"
    using UpdateAddressDB_mirrored [OF mirror sync] by blast
  have "GetAddressNode db' (ai_address i) = Inr (ai_nodePubKey i)" if i: "i \<in> set infos" for i
  proof -
    have "addr_map db (ai_address i) = Some (stored_info i)"
      unfolding db(4) using i assms(3) by (intro map_of_is_SomeI) (auto simp: comp_def rev_map [symmetric])
    then have "addr_map db' (ai_address i) = Some (stored_info i)"
      using new(3) by (simp add: extends_def)
    moreover have "db_ok db'"
      using new(1) by (simp add: mirrored_def)
    ultimately show ?thesis
      by (simp add: GetAddressNode_eq)
  qed
  then show ?thesis
    using new by blast
qed

section \<open>Registering from the menu\<close>

lemma Atoi_dec_string:
  assumes "n < 2 ^ 63"
  shows "Atoi (dec_string n) = Inr (int n)"
proof -
  obtain c t where c: "dec_string n = c # t"
    using dec_string_digits [of n] by (cases "dec_string n") auto
  then have "is_digit c"
    using dec_string_digits [of n] by simp
  then have "c \<noteq> CHR ''-''" "c \<noteq> CHR ''+''"
    by (auto simp: is_digit_def)
  moreover have "int n < 2 ^ 63"
    using assms by (metis of_nat_less_iff of_nat_numeral of_nat_power)
  ultimately show ?thesis
    using dec_string_digits [of n] c by (simp add: Atoi_def)
qed

lemma address_options_facts:
  assumes "address_options db ns = Inr options"
  shows "(\<forall>opt \<in> set options. \<exists>n \<in> set ns. GetNodeAddress db n = Inr (ao_neighbor opt, True) \<and>
      SuggestAddress db (ao_neighbor opt) = Inr (Inr (ao_suggested opt))) \<and>
    (\<forall>n \<in> set ns. \<forall>p. GetNodeAddress db n = Inr (p, True) \<longrightarrow> (\<exists>s. SuggestAddress db p = Inr (Inr s)))"
  using assms
proof (induction ns arbitrary: options)
  case (Cons n ns)
  obtain p reg where n: "GetNodeAddress db n = Inr (p, reg)"
    using Cons.prems by (auto simp: bind_res_eq_Inr)
  show ?case
  proof (cases reg)
    case False
    then show ?thesis
      using Cons.IH [of options] Cons.prems n by auto
  next
    case True
    then obtain s more where "SuggestAddress db p = Inr (Inr s)" "address_options db ns = Inr more"
        "options = \<lparr>ao_suggested = s, ao_neighbor = p\<rparr> # more"
      using Cons.prems n by (auto simp: bind_res_eq_Inr or_fatal_eq_Inr)
    then show ?thesis
      using Cons.IH [of more] n True by auto
  qed
qed simp

lemma check_neighbours_complete:
  assumes "db_ok db"
    and "\<forall>n \<in> set ns. \<forall>p. GetNodeAddress db n = Inr (p, True) \<longrightarrow> (\<exists>s. SuggestAddress db p = Inr (Inr s))"
  shows "\<exists>k'. check_neighbours db a ns flag k = Inr (flag \<or> (\<exists>n \<in> set ns. \<exists>p.
    GetNodeAddress db n = Inr (p, True) \<and> SuggestAddress db p = Inr (Inr a)), k')"
  using assms(2)
proof (induction ns arbitrary: flag k)
  case (Cons n ns)
  obtain p reg where n: "GetNodeAddress db n = Inr (p, reg)"
    by (cases "db_keyToAddressMap db n") (auto simp: GetNodeAddress_eq [OF assms(1)])
  show ?case
  proof (cases reg)
    case False
    then show ?thesis
      using Cons.IH [of flag k] Cons.prems n by auto
  next
    case True
    then obtain s where s: "SuggestAddress db p = Inr (Inr s)"
      using Cons.prems n by auto
    then show ?thesis
      using Cons.IH [of "if s = a then True else flag" "Suc k"] Cons.prems n True by auto
  qed
qed simp

text \<open>
  C30: an offered address is accepted. When the user picks option \<open>i\<close> of the registration menu, the
  address of that option is broadcast. If nobody has taken it, a node with the same addresses, to which
  lnd shows the same neighbours for the registering node, accepts the registration.
\<close>

theorem offered_address_is_accepted:
  assumes "db_ok db" and "GetLocalNodeNeighboursPubKeys lnClient = Inr neighbours"
    and "address_options db neighbours = Inr options" and "i < length options" and "i < 2 ^ 63"
    and "\<not> registered db (ao_suggested (options ! i))"
    and "ar_address registration = ao_suggested (options ! i)"
    and "VerifyMessage other (list_of (ar_address registration)) (list_of (ar_sig registration)) = Inr (True, pk)"
    and "GetNodeNeighboursPubKeys other pk = Inr ns" and "set ns = set neighbours"
  shows "addressRegistrationMenu parse6 lib btcClient lnClient db ((dec_string i @ [newline]) # rest) =
      Some (bind_res (register_address lib btcClient lnClient (ao_suggested (options ! i))) (\<lambda>a. Inr (a, rest))) \<and>
    verifyAddressRegistration other registration db = Inr (Some (registered_info registration pk))"
proof
  show "addressRegistrationMenu parse6 lib btcClient lnClient db ((dec_string i @ [newline]) # rest) =
      Some (bind_res (register_address lib btcClient lnClient (ao_suggested (options ! i))) (\<lambda>a. Inr (a, rest)))"
    using assms(2-4) Atoi_dec_string [OF assms(5)]
    by (cases options) (simp_all add: addressRegistrationMenu_def)
next
  let ?a = "ar_address registration"
  obtain n where "n \<in> set neighbours" "GetNodeAddress db n = Inr (ao_neighbor (options ! i), True)"
      "SuggestAddress db (ao_neighbor (options ! i)) = Inr (Inr (ao_suggested (options ! i)))"
    using conjunct1 [OF address_options_facts [OF assms(3)]] nth_mem [OF assms(4)] by blast
  then have offered: "\<exists>n \<in> set ns. \<exists>p. GetNodeAddress db n = Inr (p, True) \<and> SuggestAddress db p = Inr (Inr ?a)"
    using assms(7,10) by auto
  have suggests: "\<forall>n \<in> set ns. \<forall>p. GetNodeAddress db n = Inr (p, True) \<longrightarrow> (\<exists>s. SuggestAddress db p = Inr (Inr s))"
    using conjunct2 [OF address_options_facts [OF assms(3)]] assms(10) by blast
  obtain k where "check_neighbours db ?a ns False 0 = Inr (True, k)"
    using check_neighbours_complete [OF assms(1) suggests, of ?a False 0] offered by auto
  moreover have "length ns > 0"
    using offered by auto
  moreover have "IsAddressRegistered db ?a = Inr False"
    using assms(1,6,7) by (simp add: IsAddressRegistered_eq)
  ultimately show "verifyAddressRegistration other registration db = Inr (Some (registered_info registration pk))"
    using assms(8,9) by (simp add: verifyAddressRegistration_def Let_def)
qed

lemma example_free:
  "bind_res (example_db [2]) (\<lambda>db. SuggestAddress db (example_address 2)) = Inr (Inr (example_address 3))"
  by code_simp

theorem offered_address_is_accepted_witness:
  "\<forall>lib btc. \<exists>db registration info. example_db [2] = Inr db \<and>
     addressRegistrationMenu (\<lambda>_. None) lib btc (example_lnd [example_channel 2 10]) db [''0'' @ [newline]] =
       Some (bind_res (register_address lib btc (example_lnd [example_channel 2 10]) (example_address 3)) (\<lambda>a. Inr (a, []))) \<and>
     verifyAddressRegistration ((example_lnd [])\<lparr>rpc_GetNodeInfo := (\<lambda>_ _. Inr \<lparr>ni_Addresses = [],
          ni_Channels = [\<lparr>ce_Node1Pub = PubKeyArrayToString (example_key 2), ce_Node2Pub = []\<rparr>]\<rparr>)\<rparr>)
       registration db = Inr (Some info)"
proof -
  let ?other = "(example_lnd [])\<lparr>rpc_GetNodeInfo := (\<lambda>_ _. Inr \<lparr>ni_Addresses = [],
    ni_Channels = [\<lparr>ce_Node1Pub = PubKeyArrayToString (example_key 2), ce_Node2Pub = []\<rparr>]\<rparr>)\<rparr>"
  let ?ln = "example_lnd [example_channel 2 10]" and ?r = "example_registration (example_address 3)"
  obtain db where db: "example_db [2] = Inr db" "fresh_db [2] db"
    using example_db_fresh by blast
  note ok = fresh_db_facts(1) [OF db(2)]
  have node: "GetNodeAddress db (example_key 2) = Inr (example_address 2, True)"
    using fresh_db_facts(3) [OF db(2), of 2] by (simp add: GetNodeAddress_eq [OF ok])
  have "SuggestAddress db (example_address 2) = Inr (Inr (example_address 3))"
    using example_free db(1) by simp
  then have options: "address_options db [example_key 2] =
      Inr [\<lparr>ao_suggested = example_address 3, ao_neighbor = example_address 2\<rparr>]"
    using node by simp
  have local: "GetLocalNodeNeighboursPubKeys ?ln = Inr [example_key 2]"
    by (simp add: GetLocalNodeNeighboursPubKeys_def example_lnd_def)
  have free: "\<not> registered db (example_address 3)"
    using db(2) by (simp add: fresh_db_def)
  have ns: "GetNodeNeighboursPubKeys ?other (example_key 1) = Inr [example_key 2]"
    by (simp add: GetNodeNeighboursPubKeys_def)
  have addr: "ar_address ?r = example_address 3"
    by (simp add: example_registration_def)
  have sig: "VerifyMessage ?other (list_of (ar_address ?r)) (list_of (ar_sig ?r)) = Inr (True, example_key 1)"
    using example_signature [of "[]" "example_address 3"] addr by (simp add: VerifyMessage_def)
  have zero: "dec_string 0 = ''0''"
    by (subst dec_string.simps) simp
  show ?thesis
    using offered_address_is_accepted [OF ok local options, of 0 ?r ?other "example_key 1" "[example_key 2]"
        "\<lambda>_. None" _ _ "[]"] free addr sig ns db(1) zero by auto
qed

section \<open>The main menu\<close>

text \<open>The rounds the menu goes on after, from a number of rounds, an input and a node to later ones.\<close>

inductive menu_rounds :: "(nat \<Rightarrow> Env) \<Rightarrow> aead \<Rightarrow> Lnd \<Rightarrow> (string \<Rightarrow> u8 list option) \<Rightarrow> (nat \<Rightarrow> u8 list) \<Rightarrow> disk \<Rightarrow>
    nat \<times> string list \<times> Node \<Rightarrow> nat \<times> string list \<times> Node \<Rightarrow> bool" for env c lnClient parse6 token dk where
  none: "menu_rounds env c lnClient parse6 token dk st st"
| round: "menu_round (env k) c lnClient parse6 (token k) input node dk = Inr (MenuGoesOn screen input' node') \<Longrightarrow>
    menu_rounds env c lnClient parse6 token dk (Suc k, input', node') st \<Longrightarrow>
    menu_rounds env c lnClient parse6 token dk (k, input, node) st"

lemma menu_round_exits:
  "menu_round env c lnClient parse6 token input node dk = Inr (MenuExits dk') \<longleftrightarrow>
    (\<exists>line rest. input = line # rest \<and> Atoi (trim_newline line) = Inr 0 \<and> dk' = SaveRoutingDBToFile (nd_db node) dk)"
proof (cases input)
  case Nil
  then show ?thesis
    by (simp add: menu_round_def Atoi_def)
next
  case (Cons line rest)
  show ?thesis
  proof
    assume "menu_round env c lnClient parse6 token input node dk = Inr (MenuExits dk')"
    then show "\<exists>line rest. input = line # rest \<and> Atoi (trim_newline line) = Inr 0 \<and> dk' = SaveRoutingDBToFile (nd_db node) dk"
      using Cons by (auto simp: menu_round_def Let_def bind_res_eq_Inr or_fatal_eq_Inr split: if_split_asm option.split_asm
          prod.split_asm)
  next
    assume "\<exists>line rest. input = line # rest \<and> Atoi (trim_newline line) = Inr 0 \<and> dk' = SaveRoutingDBToFile (nd_db node) dk"
    then show "menu_round env c lnClient parse6 token input node dk = Inr (MenuExits dk')"
      by (auto simp: menu_round_def)
  qed
qed

lemma optionMenu_rounds:
  assumes "menu_rounds env c lnClient parse6 token dk (k, input, node) (k', input', node')"
  shows "optionMenu env c lnClient parse6 token k input node dk = optionMenu env c lnClient parse6 token k' input' node' dk"
  using assms
proof (induction "(k, input, node)" "(k', input', node')" arbitrary: k input node rule: menu_rounds.induct)
  case (round k input node screen input1 node1)
  then show ?case
    by (subst optionMenu.simps) simp
qed simp

lemma optionMenu_exits:
  "optionMenu env c lnClient parse6 token k input node dk = Inr (MenuExits dk') \<Longrightarrow>
    \<exists>k' line rest node'. menu_rounds env c lnClient parse6 token dk (k, input, node) (k', line # rest, node') \<and>
      Atoi (trim_newline line) = Inr 0 \<and> dk' = SaveRoutingDBToFile (nd_db node') dk"
proof (induction env c lnClient parse6 token k input node dk rule: optionMenu.induct)
  case (1 env c lnClient parse6 token k input node dk)
  obtain o1 where o1: "menu_round (env k) c lnClient parse6 (token k) input node dk = Inr o1"
    using 1(2) by (subst (asm) optionMenu.simps) (auto simp: bind_res_eq_Inr)
  show ?case
  proof (cases o1)
    case (MenuGoesOn screen rest node')
    then show ?thesis
      using 1(1) [OF o1 MenuGoesOn] 1(2) o1 menu_rounds.round
      by (fastforce simp: optionMenu.simps [of env c lnClient parse6 token k input node dk])
  next
    case (MenuExits dk'')
    then have "menu_round (env k) c lnClient parse6 (token k) input node dk = Inr (MenuExits dk')"
      using 1(2) o1 by (subst (asm) optionMenu.simps) auto
    then obtain line rest where "input = line # rest" "Atoi (trim_newline line) = Inr 0"
        "dk' = SaveRoutingDBToFile (nd_db node) dk"
      unfolding menu_round_exits by blast
    then show ?thesis
      using menu_rounds.none by blast
  next
    case MenuHangs
    then show ?thesis
      using 1(2) o1 by (subst (asm) optionMenu.simps) simp
  qed
qed

text \<open>
  C38: the way out of the main menu. The menu returns exactly if, after some rounds it goes on from, the
  next line reads as the number 0; no other option ends it. It then leaves the routing table that
  the node has after these rounds in the routing file. A line that is not a number ends the program
  after any rounds with an error, and no file is written.
\<close>

theorem menu_saves_only_on_exit:
  "(optionMenu env c lnClient parse6 token k input node dk = Inr (MenuExits dk') \<longleftrightarrow>
      (\<exists>k' line rest node'. menu_rounds env c lnClient parse6 token dk (k, input, node) (k', line # rest, node') \<and>
         Atoi (trim_newline line) = Inr 0 \<and> dk' = SaveRoutingDBToFile (nd_db node') dk)) \<and>
    (menu_rounds env c lnClient parse6 token dk (k, input, node) (k', typo # rest, node') \<longrightarrow>
      Atoi (trim_newline typo) = Inl err \<longrightarrow>
      optionMenu env c lnClient parse6 token k input node dk = Inl (Fatal err))"
proof (intro conjI impI iffI)
  assume "optionMenu env c lnClient parse6 token k input node dk = Inr (MenuExits dk')"
  then show "\<exists>k' line rest node'. menu_rounds env c lnClient parse6 token dk (k, input, node) (k', line # rest, node') \<and>
      Atoi (trim_newline line) = Inr 0 \<and> dk' = SaveRoutingDBToFile (nd_db node') dk"
    by (rule optionMenu_exits)
next
  assume "\<exists>k' line rest node'. menu_rounds env c lnClient parse6 token dk (k, input, node) (k', line # rest, node') \<and>
      Atoi (trim_newline line) = Inr 0 \<and> dk' = SaveRoutingDBToFile (nd_db node') dk"
  then obtain k' line rest node' where
      *: "menu_rounds env c lnClient parse6 token dk (k, input, node) (k', line # rest, node')"
      "menu_round (env k') c lnClient parse6 (token k') (line # rest) node' dk = Inr (MenuExits dk')"
    by (auto simp: menu_round_exits)
  then show "optionMenu env c lnClient parse6 token k input node dk = Inr (MenuExits dk')"
    using optionMenu_rounds [OF *(1)] by (simp add: optionMenu.simps [of env c lnClient parse6 token k'])
next
  assume "menu_rounds env c lnClient parse6 token dk (k, input, node) (k', typo # rest, node')"
    and "Atoi (trim_newline typo) = Inl err"
  then show "optionMenu env c lnClient parse6 token k input node dk = Inl (Fatal err)"
    using optionMenu_rounds [of env c lnClient parse6 token dk k input node k' "typo # rest" node']
    by (simp add: optionMenu.simps [of env c lnClient parse6 token k'] menu_round_def)
qed

theorem menu_saves_only_on_exit_witness:
  "\<forall>env c lnClient token node dk. \<exists>err.
     optionMenu env c lnClient (\<lambda>_. None) token 0 [''5'' @ [newline], ''0'' @ [newline]] node dk =
       Inr (MenuExits (SaveRoutingDBToFile (nd_db node) dk)) \<and>
     optionMenu env c lnClient (\<lambda>_. None) token 0 [''5'' @ [newline], ''o'' @ [newline]] node dk = Inl (Fatal err)"
proof (intro allI)
  fix env c lnClient token node dk
  have zero: "Atoi (trim_newline (''0'' @ [newline])) = Inr 0" and five: "Atoi (trim_newline (''5'' @ [newline])) = Inr 5"
    by code_simp+
  have typo: "Atoi (trim_newline (''o'' @ [newline])) = Inl ''invalid syntax''"
    by code_simp
  have rounds: "menu_rounds env c lnClient (\<lambda>_. None) token dk (0, (''5'' @ [newline]) # rest, node) (Suc 0, rest, node)" for rest
    by (rule menu_rounds.round [OF _ menu_rounds.none]) (use five in \<open>simp add: menu_round_def\<close>)
  show "\<exists>err.
     optionMenu env c lnClient (\<lambda>_. None) token 0 [''5'' @ [newline], ''0'' @ [newline]] node dk =
       Inr (MenuExits (SaveRoutingDBToFile (nd_db node) dk)) \<and>
     optionMenu env c lnClient (\<lambda>_. None) token 0 [''5'' @ [newline], ''o'' @ [newline]] node dk = Inl (Fatal err)"
    using menu_saves_only_on_exit [THEN conjunct1, THEN iffD2, OF exI, OF exI, OF exI, OF exI, OF conjI, OF rounds, OF conjI, OF zero refl]
      menu_saves_only_on_exit [THEN conjunct2, rule_format, OF rounds typo]
    by blast
qed

end
