(* ===== verification/Bitcoin_RPC.thy ===== *)
theory Bitcoin_RPC
  imports Bitcoin_Scan Terminal_Input
begin

text \<open>
  The bitcoin client (\<open>bitcoindwrapper\<close>): JSON-RPC calls to the daemon and the Go values read from its
  answers. The text layer of \<open>encoding/json\<close> and HTTP are one argument, \<open>transport\<close>: it sends a JSON
  value to an address, with the credentials, and gives the nanoseconds until the answer and the
  answer, an error or a body that is read to a JSON value or an error. How \<open>json.Unmarshal\<close> fills Go structs from a JSON
  value is modelled: members are found by their names without regard to (ASCII) case, unknown ones
  are ignored, \<open>null\<close> and missing ones leave the zero value, and a member of another type is an
  error. \<open>strconv.ParseFloat\<close> is the argument \<open>ParseFloat\<close>.
\<close>

section \<open>JSON values and Go types\<close>

text \<open>Numbers are kept as their literals, which Go reads by the type of the variable.\<close>

datatype json =
    JNull
  | JBool bool
  | JNum string
  | JStr string
  | JArr "json list"
  | JObj "(string \<times> json) list"

datatype gotype =
    GString
  | GBool
  | GInt nat
  | GUint nat
  | GFloat64
  | GSlice gotype
  | GStruct "(string \<times> gotype) list"
  | GRaw

definition ParseUint :: "nat \<Rightarrow> string \<Rightarrow> go_error + nat" where
  "ParseUint bits s =
     (if s = [] \<or> \<not> list_all is_digit s then Inl ''invalid syntax''
      else if 2 ^ bits \<le> digits_value s then Inl ''value out of range'' else Inr (digits_value s))"

definition fits_int :: "nat \<Rightarrow> string \<Rightarrow> bool" where
  "fits_int bits s = (case Atoi s of Inl _ \<Rightarrow> False | Inr v \<Rightarrow> - (2 ^ (bits - 1)) \<le> v \<and> v < 2 ^ (bits - 1))"

definition fits_uint :: "nat \<Rightarrow> string \<Rightarrow> bool" where
  "fits_uint bits s = (case ParseUint bits s of Inl _ \<Rightarrow> False | Inr _ \<Rightarrow> True)"

definition lower :: "char \<Rightarrow> nat" where
  "lower c = (let k = of_char c in if 65 \<le> k \<and> k \<le> 90 then k + 32 else k)"

definition same_name :: "string \<Rightarrow> string \<Rightarrow> bool" where
  "same_name s t \<longleftrightarrow> map lower s = map lower t"

definition members :: "json \<Rightarrow> (string \<times> json) list" where
  "members j = (case j of JObj ms \<Rightarrow> ms | _ \<Rightarrow> [])"

text \<open>When \<open>Unmarshal\<close> into a variable of the type returns no error.\<close>

primrec unmarshals :: "(string \<Rightarrow> go_error + float64) \<Rightarrow> gotype \<Rightarrow> json \<Rightarrow> bool" where
  "unmarshals ParseFloat GString = (\<lambda>j. case j of JStr _ \<Rightarrow> True | JNull \<Rightarrow> True | _ \<Rightarrow> False)"
| "unmarshals ParseFloat GBool = (\<lambda>j. case j of JBool _ \<Rightarrow> True | JNull \<Rightarrow> True | _ \<Rightarrow> False)"
| "unmarshals ParseFloat (GInt bits) = (\<lambda>j. case j of JNum s \<Rightarrow> fits_int bits s | JNull \<Rightarrow> True | _ \<Rightarrow> False)"
| "unmarshals ParseFloat (GUint bits) = (\<lambda>j. case j of JNum s \<Rightarrow> fits_uint bits s | JNull \<Rightarrow> True | _ \<Rightarrow> False)"
| "unmarshals ParseFloat GFloat64 =
     (\<lambda>j. case j of JNum s \<Rightarrow> (case ParseFloat s of Inl _ \<Rightarrow> False | Inr _ \<Rightarrow> True) | JNull \<Rightarrow> True | _ \<Rightarrow> False)"
| "unmarshals ParseFloat (GSlice t) =
     (\<lambda>j. case j of JArr js \<Rightarrow> list_all (unmarshals ParseFloat t) js | JNull \<Rightarrow> True | _ \<Rightarrow> False)"
| "unmarshals ParseFloat (GStruct ts) =
     (\<lambda>j. case j of
        JObj ms \<Rightarrow> list_all (\<lambda>(name, ok). list_all (\<lambda>(k, v). same_name k name \<longrightarrow> ok v) ms)
          (map (map_prod (\<lambda>name. name) (unmarshals ParseFloat)) ts)
      | JNull \<Rightarrow> True | _ \<Rightarrow> False)"
| "unmarshals ParseFloat GRaw = (\<lambda>j. True)"

text \<open>A member of a struct, the last one of its name; \<open>None\<close> when it is missing.\<close>

definition member :: "string \<Rightarrow> json \<Rightarrow> json option" where
  "member name j = map_option snd (find (\<lambda>(k, v). same_name k name) (rev (members j)))"

definition field :: "string \<Rightarrow> json \<Rightarrow> json" where
  "field name j = (case member name j of None \<Rightarrow> JNull | Some v \<Rightarrow> v)"

definition string_of :: "json \<Rightarrow> string" where
  "string_of j = (case j of JStr s \<Rightarrow> s | _ \<Rightarrow> [])"

definition uint_of :: "json \<Rightarrow> nat" where
  "uint_of j = (case j of JNum s \<Rightarrow> digits_value s | _ \<Rightarrow> 0)"

definition elements :: "json \<Rightarrow> json list" where
  "elements j = (case j of JArr js \<Rightarrow> js | _ \<Rightarrow> [])"

definition float_zero :: float64 where
  "float_zero = \<lparr>fl_negative = False, fl_significand = 0, fl_fraction_bits = 0\<rparr>"

definition float_of :: "(string \<Rightarrow> go_error + float64) \<Rightarrow> json \<Rightarrow> float64" where
  "float_of ParseFloat j =
     (case j of JNum s \<Rightarrow> (case ParseFloat s of Inl _ \<Rightarrow> float_zero | Inr x \<Rightarrow> x) | _ \<Rightarrow> float_zero)"

section \<open>The structs of \<open>results.go\<close>\<close>

definition ListUnspentResult :: gotype where
  "ListUnspentResult = GStruct [(''txid'', GString), (''vout'', GUint 32), (''address'', GString),
     (''account'', GString), (''scriptPubKey'', GString), (''redeemScript'', GString),
     (''witnessScript'', GString), (''amount'', GFloat64), (''confirmations'', GInt 64),
     (''spendable'', GBool)]"

definition ScriptSig :: gotype where
  "ScriptSig = GStruct [(''asm'', GString), (''hex'', GString)]"

definition Vin :: gotype where
  "Vin = GStruct [(''coinbase'', GString), (''txid'', GString), (''vout'', GInt 64),
     (''scriptSig'', ScriptSig), (''sequence'', GUint 32)]"

definition ScriptPubKey :: gotype where
  "ScriptPubKey = GStruct [(''asm'', GString), (''hex'', GString), (''reqSigs'', GInt 64),
     (''type'', GString), (''addresses'', GSlice GString)]"

definition Vout_type :: gotype where
  "Vout_type = GStruct [(''value'', GFloat64), (''n'', GInt 64), (''scriptPubKey'', ScriptPubKey)]"

definition GetRawTransactionResult :: gotype where
  "GetRawTransactionResult = GStruct [(''in_active_chain'', GBool), (''hex'', GString),
     (''txid'', GString), (''version'', GUint 32), (''locktime'', GUint 32), (''vin'', GSlice Vin),
     (''vout'', GSlice Vout_type), (''blockhash'', GString), (''confirmations'', GUint 64),
     (''time'', GInt 64), (''blocktime'', GInt 64)]"

definition GetBlockResult :: gotype where
  "GetBlockResult = GStruct [(''hash'', GString), (''confirmations'', GUint 64), (''size'', GUint 64),
     (''strippedsize'', GUint 64), (''weight'', GUint 64), (''height'', GUint 64),
     (''version'', GUint 32), (''merkleroot'', GString), (''tx'', GSlice GetRawTransactionResult),
     (''time'', GInt 64), (''nonce'', GUint 64), (''bits'', GString), (''difficulty'', GFloat64),
     (''chainwork'', GString), (''nTx'', GUint 64), (''previousblockhash'', GString),
     (''nextblockhash'', GString)]"

definition ScriptVerificationError :: gotype where
  "ScriptVerificationError = GStruct [(''txid'', GString), (''vout'', GInt 64),
     (''scriptSig'', GString), (''sequence'', GInt 64), (''error'', GString)]"

definition SignRawTransactionWithWalletResult :: gotype where
  "SignRawTransactionWithWalletResult = GStruct [(''hex'', GString), (''complete'', GBool),
     (''errors'', GSlice ScriptVerificationError)]"

definition RPCError :: gotype where
  "RPCError = GStruct [(''code'', GInt 64), (''message'', GString)]"

definition rpcResponse_type :: gotype where
  "rpcResponse_type = GStruct [(''id'', GInt 64), (''result'', GRaw), (''error'', RPCError)]"

section \<open>Calls\<close>

record rpcClient =
  rc_serverAddr :: string
  rc_user :: string
  rc_passwd :: string
  rc_timeout :: int

record RPCError_value =
  rpc_Code :: int
  rpc_Message :: string

record rpcResponse =
  rr_Result :: "json option"
  rr_Err :: "RPCError_value option"

text \<open>
  What is outside: the HTTP server with the text layer of JSON, which may never answer, and the clock
  that gives the ids.
\<close>

record transport =
  tr_Do :: "string \<Rightarrow> (string \<times> string) option \<Rightarrow> json \<Rightarrow> (int \<times> (go_error + go_error + json)) option"
  tr_ParseFloat :: "string \<Rightarrow> go_error + float64"
  tr_now :: int

definition newClient :: "string \<Rightarrow> int \<Rightarrow> string \<Rightarrow> string \<Rightarrow> bool \<Rightarrow> int \<Rightarrow> go_error + rpcClient" where
  "newClient host port user passwd useSSL timeout =
     (if length host = 0 then Inl ''Bad call missing argument host''
      else let serverAddr = (if useSSL then ''https://'' else ''http://'')
        in Inr \<lparr>rc_serverAddr = serverAddr @ host @ '':'' @ int_string port, rc_user = user,
             rc_passwd = passwd, rc_timeout = timeout\<rparr>)"

definition rpcclientTimeout :: int where "rpcclientTimeout = 30"

definition New :: "string \<Rightarrow> int \<Rightarrow> string \<Rightarrow> string \<Rightarrow> bool \<Rightarrow> int list \<Rightarrow> go_error + rpcClient" where
  "New host port user passwd useSSL timeoutParam =
     (let timeout = (case timeoutParam of [] \<Rightarrow> rpcclientTimeout | t # _ \<Rightarrow> t)
      in newClient host port user passwd useSSL timeout)"

definition rpcRequest :: "string \<Rightarrow> json \<Rightarrow> int \<Rightarrow> json" where
  "rpcRequest method params now = JObj [(''method'', JStr method), (''params'', params),
     (''id'', JNum (int_string now)), (''jsonrpc'', JStr ''1.0'')]"

definition RPCError_of :: "json \<Rightarrow> RPCError_value option" where
  "RPCError_of j = (case j of
       JObj ms \<Rightarrow> Some \<lparr>rpc_Code = (case field ''code'' j of JNum s \<Rightarrow> (case Atoi s of Inl _ \<Rightarrow> 0 | Inr v \<Rightarrow> v) | _ \<Rightarrow> 0),
         rpc_Message = string_of (field ''message'' j)\<rparr>
     | _ \<Rightarrow> None)"

definition response_of :: "json \<Rightarrow> rpcResponse" where
  "response_of j = \<lparr>rr_Result = member ''result'' j, rr_Err = RPCError_of (field ''error'' j)\<rparr>"

definition no_response :: rpcResponse where
  "no_response = \<lparr>rr_Result = None, rr_Err = None\<rparr>"

definition basic_auth :: "rpcClient \<Rightarrow> (string \<times> string) option" where
  "basic_auth c = (if length (rc_user c) > 0 \<or> length (rc_passwd c) > 0 then Some (rc_user c, rc_passwd c) else None)"

text \<open>The answer or the timer, whichever comes first; at the same instant the timer.\<close>

definition doTimeoutRequest :: "int \<Rightarrow> (int \<times> (go_error + 'r)) option \<Rightarrow> go_error + 'r" where
  "doTimeoutRequest timer done =
     (case done of
        None \<Rightarrow> Inl ''Timeout reading data from server''
      | Some (elapsed, r) \<Rightarrow> if elapsed < timer then r else Inl ''Timeout reading data from server'')"

definition call :: "transport \<Rightarrow> rpcClient \<Rightarrow> string \<Rightarrow> json \<Rightarrow> rpcResponse \<times> go_error option" where
  "call tr c method params =
     (let connectTimer = rc_timeout c * 1000000000;
          rpcR = rpcRequest method params (tr_now tr)
      in case doTimeoutRequest connectTimer (tr_Do tr (rc_serverAddr c) (basic_auth c) rpcR) of
           Inl err \<Rightarrow> (no_response, Some err)
         | Inr (Inl err) \<Rightarrow> (no_response, Some err)
         | Inr (Inr data) \<Rightarrow>
             if unmarshals (tr_ParseFloat tr) rpcResponse_type data then (response_of data, None)
             else (no_response, Some ''json: cannot unmarshal''))"

definition Error :: "RPCError_value \<Rightarrow> go_error" where
  "Error e = int_string (rpc_Code e) @ '': '' @ rpc_Message e"

definition handleError :: "go_error option \<Rightarrow> rpcResponse \<Rightarrow> go_error option" where
  "handleError err r =
     (case err of Some e \<Rightarrow> Some e
      | None \<Rightarrow> (case rr_Err r of Some e \<Rightarrow> Some (Error e) | None \<Rightarrow> None))"

text \<open>A call with its error handled, and \<open>json.Unmarshal\<close> of a result into a variable of a type.\<close>

definition handled_call :: "transport \<Rightarrow> rpcClient \<Rightarrow> string \<Rightarrow> json \<Rightarrow> go_error + rpcResponse" where
  "handled_call tr c method params =
     (let (r, err) = call tr c method params in
      case handleError err r of Some e \<Rightarrow> Inl e | None \<Rightarrow> Inr r)"

definition unmarshal :: "transport \<Rightarrow> gotype \<Rightarrow> json option \<Rightarrow> go_error + json" where
  "unmarshal tr t data =
     (case data of None \<Rightarrow> Inl ''unexpected end of JSON input''
      | Some j \<Rightarrow> if unmarshals (tr_ParseFloat tr) t j then Inr j else Inl ''json: cannot unmarshal'')"

definition bind_err :: "go_error + 'a \<Rightarrow> ('a \<Rightarrow> go_error + 'b) \<Rightarrow> go_error + 'b" where
  "bind_err m f = (case m of Inl e \<Rightarrow> Inl e | Inr x \<Rightarrow> f x)"

lemma bind_err_simps [simp]: "bind_err (Inl e) f = Inl e" "bind_err (Inr x) f = f x"
  by (simp_all add: bind_err_def)

section \<open>The methods\<close>

definition rpc_GetBlockCount :: "transport \<Rightarrow> rpcClient \<Rightarrow> go_error + u64" where
  "rpc_GetBlockCount tr c =
     bind_err (handled_call tr c ''getblockcount'' JNull) (\<lambda>r.
     bind_err (case rr_Result r of Some (JNum s) \<Rightarrow> ParseUint 64 s | _ \<Rightarrow> Inl ''invalid syntax'') (\<lambda>count.
     Inr (of_nat count)))"

definition unspent_of :: "transport \<Rightarrow> json \<Rightarrow> Unspent" where
  "unspent_of tr j = \<lparr>un_TxID = string_of (field ''txid'' j), un_Vout = of_nat (uint_of (field ''vout'' j)),
     un_Address = string_of (field ''address'' j), un_Amount = float_of (tr_ParseFloat tr) (field ''amount'' j)\<rparr>"

definition ListUnspent :: "transport \<Rightarrow> rpcClient \<Rightarrow> go_error + Unspent list" where
  "ListUnspent tr c =
     bind_err (handled_call tr c ''listunspent'' JNull) (\<lambda>r.
     bind_err (unmarshal tr (GSlice ListUnspentResult) (rr_Result r)) (\<lambda>result.
     Inr (map (unspent_of tr) (elements result))))"

definition GetBlockHash :: "transport \<Rightarrow> rpcClient \<Rightarrow> u64 \<Rightarrow> go_error + string" where
  "GetBlockHash tr c blockIndex =
     bind_err (handled_call tr c ''getblockhash'' (JArr [JNum (dec_string (unat blockIndex))])) (\<lambda>r.
     bind_err (unmarshal tr GString (rr_Result r)) (\<lambda>hash. Inr (string_of hash)))"

definition SignRawTransactionWithWallet :: "transport \<Rightarrow> rpcClient \<Rightarrow> string \<Rightarrow> go_error + string" where
  "SignRawTransactionWithWallet tr c rawTx =
     bind_err (handled_call tr c ''signrawtransactionwithwallet'' (JArr [JStr rawTx])) (\<lambda>r.
     bind_err (unmarshal tr SignRawTransactionWithWalletResult (rr_Result r)) (\<lambda>result.
     Inr (string_of (field ''hex'' result))))"

definition SendRawTransaction :: "transport \<Rightarrow> rpcClient \<Rightarrow> string \<Rightarrow> go_error + string" where
  "SendRawTransaction tr c signedTx =
     bind_err (handled_call tr c ''sendrawtransaction'' (JArr [JStr signedTx])) (\<lambda>r.
     bind_err (unmarshal tr GString (rr_Result r)) (\<lambda>txHash. Inr (string_of txHash)))"

definition transaction_of :: "json \<Rightarrow> Transaction" where
  "transaction_of j = \<lparr>tx_Txid = string_of (field ''txid'' j),
     tx_Vout = map (\<lambda>v. \<lparr>vo_Hex = string_of (field ''hex'' (field ''scriptPubKey'' v))\<rparr>) (elements (field ''vout'' j))\<rparr>"

text \<open>A result \<open>null\<close> sets the pointer to the block to nil.\<close>

definition GetBlock :: "transport \<Rightarrow> rpcClient \<Rightarrow> string \<Rightarrow> go_error + Transaction list option" where
  "GetBlock tr c blockHash =
     bind_err (handled_call tr c ''getblock'' (JArr [JStr blockHash, JNum ''2''])) (\<lambda>r.
     bind_err (unmarshal tr GetBlockResult (rr_Result r)) (\<lambda>result.
     Inr (if result = JNull then None else Some (map transaction_of (elements (field ''tx'' result))))))"

definition WalletPassphrase :: "transport \<Rightarrow> rpcClient \<Rightarrow> string \<Rightarrow> u64 \<Rightarrow> go_error option" where
  "WalletPassphrase tr c passPhrase timeout =
     (let (r, err) = call tr c ''walletpassphrase'' (JArr [JStr passPhrase, JNum (dec_string (unat timeout))])
      in handleError err r)"

definition ConnectToBitcoinClient :: "string \<Rightarrow> int \<Rightarrow> string \<Rightarrow> string \<Rightarrow> rpcClient res" where
  "ConnectToBitcoinClient host port rpcUser rpcPassword = or_fatal (New host port rpcUser rpcPassword False [])"

definition UnlockWallet :: "transport \<Rightarrow> rpcClient \<Rightarrow> string \<Rightarrow> go_error option" where
  "UnlockWallet tr c passphrase = WalletPassphrase tr c passphrase 10"

text \<open>The answers the rest of the program sees.\<close>

definition bitcoind_of :: "transport \<Rightarrow> rpcClient \<Rightarrow> Bitcoind" where
  "bitcoind_of tr c = \<lparr>btc_GetBlockCount = rpc_GetBlockCount tr c, btc_GetBlockHash = GetBlockHash tr c,
     btc_GetBlock = GetBlock tr c, btc_ListUnspent = ListUnspent tr c,
     btc_SignRawTransactionWithWallet = SignRawTransactionWithWallet tr c,
     btc_SendRawTransaction = SendRawTransaction tr c\<rparr>"

section \<open>Facts\<close>

lemma same_name_refl [simp]: "same_name s s"
  by (simp add: same_name_def)

lemma unmarshals_JNull [simp]: "unmarshals pf t JNull"
  by (cases t) simp_all

text \<open>The types the members of a name are read as; a struct is read member by member.\<close>

fun wanted :: "string \<Rightarrow> gotype \<Rightarrow> gotype list" where
  "wanted name (GStruct ts) = map snd (filter (\<lambda>(n, t). same_name name n) ts)"
| "wanted name _ = []"

definition is_struct :: "gotype \<Rightarrow> bool" where
  "is_struct t \<longleftrightarrow> (\<exists>ts. t = GStruct ts)"

lemma structs [simp]: "is_struct GetBlockResult" "is_struct GetRawTransactionResult" "is_struct Vout_type"
    "is_struct ScriptPubKey"
  by (simp_all add: is_struct_def GetBlockResult_def GetRawTransactionResult_def Vout_type_def ScriptPubKey_def)

lemma unmarshals_GStruct:
  "unmarshals pf (GStruct ts) (JObj ms) \<longleftrightarrow>
    (\<forall>n t k v. (n, t) \<in> set ts \<longrightarrow> (k, v) \<in> set ms \<longrightarrow> same_name k n \<longrightarrow> unmarshals pf t v)"
  by (induction ts) (auto simp: list_all_iff)

lemma unmarshals_struct:
  "is_struct t \<Longrightarrow> unmarshals pf t (JObj []) \<and> unmarshals pf t (JObj ((name, v) # ms)) =
    (list_all (\<lambda>u. unmarshals pf u v) (wanted name t) \<and> unmarshals pf t (JObj ms))"
  by (auto simp: is_struct_def list_all_iff unmarshals_GStruct simp del: unmarshals.simps; blast)

lemma fields_wanted:
  "wanted ''txid'' GetRawTransactionResult = [GString]"
  "wanted ''version'' GetRawTransactionResult = [GUint 32]"
  "wanted ''vout'' GetRawTransactionResult = [GSlice Vout_type]"
  "wanted ''scriptPubKey'' Vout_type = [ScriptPubKey]" "wanted ''hex'' ScriptPubKey = [GString]"
  "wanted ''tx'' GetBlockResult = [GSlice GetRawTransactionResult]"
  by (code_simp+)

lemma unmarshals_wanted:
  "is_struct t \<Longrightarrow> (k, v) \<in> set ms \<Longrightarrow> unmarshals pf t (JObj ms) \<Longrightarrow> u \<in> set (wanted k t) \<Longrightarrow>
    unmarshals pf u v"
  by (auto simp: is_struct_def unmarshals_GStruct simp del: unmarshals.simps)

text \<open>The answer of a daemon to a call that succeeds, and to one that fails.\<close>

definition rpc_reply :: "json \<Rightarrow> json" where
  "rpc_reply result = JObj [(''result'', result), (''error'', JNull), (''id'', JNum ''1'')]"

definition rpc_failure :: "int \<Rightarrow> string \<Rightarrow> json" where
  "rpc_failure code message = JObj [(''result'', JNull),
     (''error'', JObj [(''code'', JNum (int_string code)), (''message'', JStr message)]), (''id'', JNum ''1'')]"

text \<open>What a call reads in time.\<close>

definition posts :: "transport \<Rightarrow> rpcClient \<Rightarrow> string \<Rightarrow> json \<Rightarrow> go_error + json" where
  "posts tr c method params =
     bind_err (doTimeoutRequest (rc_timeout c * 1000000000)
       (tr_Do tr (rc_serverAddr c) (basic_auth c) (rpcRequest method params (tr_now tr)))) (\<lambda>body. body)"

lemma call_posts:
  "call tr c method params =
     (case posts tr c method params of
        Inl err \<Rightarrow> (no_response, Some err)
      | Inr data \<Rightarrow> if unmarshals (tr_ParseFloat tr) rpcResponse_type data then (response_of data, None)
          else (no_response, Some ''json: cannot unmarshal''))"
  by (simp add: call_def posts_def bind_err_def split: sum.split)

lemma names_differ:
  "\<not> same_name ''result'' ''id''" "\<not> same_name ''result'' ''error''" "\<not> same_name ''error'' ''id''"
  "\<not> same_name ''error'' ''result''" "\<not> same_name ''id'' ''result''" "\<not> same_name ''id'' ''error''"
  "\<not> same_name ''code'' ''message''" "\<not> same_name ''message'' ''code''"
  by (code_simp+)

lemma fits_one: "fits_int 64 ''1''"
  by code_simp

lemma call_reply:
  "posts tr c method params = Inr (rpc_reply j) \<Longrightarrow>
    handled_call tr c method params = Inr \<lparr>rr_Result = Some j, rr_Err = None\<rparr>"
  by (simp add: handled_call_def call_posts rpc_reply_def rpcResponse_type_def RPCError_def names_differ fits_one
      response_of_def member_def members_def field_def RPCError_of_def handleError_def)

lemma GetBlock_reply:
  assumes "posts tr c ''getblock'' (JArr [JStr h, JNum ''2'']) = Inr (rpc_reply j)"
  shows "GetBlock tr c h =
    (if unmarshals (tr_ParseFloat tr) GetBlockResult j
     then Inr (if j = JNull then None else Some (map transaction_of (elements (field ''tx'' j))))
     else Inl ''json: cannot unmarshal'')"
  using call_reply [OF assms] by (simp add: GetBlock_def unmarshal_def)

lemma GetBlockHash_reply:
  assumes "posts tr c ''getblockhash'' (JArr [JNum (dec_string (unat k))]) = Inr (rpc_reply (JStr h))"
  shows "GetBlockHash tr c k = Inr h"
  using call_reply [OF assms] by (simp add: GetBlockHash_def unmarshal_def string_of_def)

text \<open>The block count is a decimal literal below \<open>2^64\<close>; an error object is returned as its text.\<close>

lemma GetBlockCount_reply:
  assumes "posts tr c ''getblockcount'' JNull = Inr (rpc_reply (JNum (dec_string n)))"
  shows "rpc_GetBlockCount tr c = (if n < 2 ^ 64 then Inr (of_nat n) else Inl ''value out of range'')"
  using call_reply [OF assms] dec_string_digits [of n] by (simp add: rpc_GetBlockCount_def ParseUint_def)

lemma call_failure:
  assumes "posts tr c method params = Inr (rpc_failure code message)" and "fits_int 64 (int_string code)"
  shows "handled_call tr c method params = Inl ((case Atoi (int_string code) of Inr v \<Rightarrow> int_string v) @ '': '' @ message)"
proof -
  obtain v where "Atoi (int_string code) = Inr v"
    using assms(2) by (auto simp: fits_int_def split: sum.splits)
  then show ?thesis
    using assms by (simp add: handled_call_def call_posts rpc_failure_def rpcResponse_type_def RPCError_def
        names_differ fits_one response_of_def member_def members_def field_def RPCError_of_def handleError_def Error_def
        string_of_def)
qed

lemma scan_block_reply:
  assumes "posts tr c ''getblockhash'' (JArr [JNum (dec_string (unat k))]) = Inr (rpc_reply (JStr h))"
    and "posts tr c ''getblock'' (JArr [JStr h, JNum ''2'']) = Inr (rpc_reply j)" and "j \<noteq> JNull"
  shows "scan_block (bitcoind_of tr c) k st =
    (if unmarshals (tr_ParseFloat tr) GetBlockResult j
     then fold_res (scan_tx k) (map transaction_of (elements (field ''tx'' j))) st
     else Inl (Fatal ''json: cannot unmarshal''))"
  using GetBlockHash_reply [OF assms(1)] GetBlock_reply [OF assms(2)] assms(3)
  by (simp add: scan_block_def bitcoind_of_def)

lemma scan_other_txs:
  "\<forall>tx \<in> set txs. \<not> is_registration tx \<Longrightarrow> fold_res (scan_tx k) txs st = Inr st"
  by (induction txs) (simp_all add: scan_tx_def)

section \<open>Properties\<close>

text \<open>
  C33: a registration in a block is found over JSON-RPC. Let the daemon answer \<open>getblockhash\<close> and
  \<open>getblock\<close>, the block having the members the Go struct wants and one transaction whose first
  output has the script \<open>BroadcastNewAddressTx\<close> makes for an address and a 65-byte signature. Then
  the scan of the block finds this registration and no other.
\<close>

theorem registration_found_over_rpc:
  assumes "posts tr c ''getblockhash'' (JArr [JNum (dec_string (unat k))]) = Inr (rpc_reply (JStr h))"
    and "posts tr c ''getblock'' (JArr [JStr h, JNum ''2'']) = Inr (rpc_reply (JObj block))"
    and "unmarshals (tr_ParseFloat tr) GetBlockResult (JObj block)"
    and "elements (field ''tx'' (JObj block)) = before @ [t] @ after"
    and "\<forall>other \<in> set (before @ after). \<not> is_registration (transaction_of other)"
    and "registration_script address sig = Inr script" and "length sig = 65" and "length txID = 32"
    and "string_of (field ''txid'' t) = EncodeToString txID"
    and "tx_Vout (transaction_of t) = [\<lparr>vo_Hex = EncodeToString script\<rparr>, change]"
  shows "\<exists>st'. scan_block (bitcoind_of tr c) k st = Inr st' \<and>
    sc_found st' = sc_found st @ [\<lparr>ar_address = address, ar_blockHeight = k,
      ar_txID = arr_copy 0 txID, ar_sig = arr_copy 0 sig, ar_version = 0\<rparr>]"
proof -
  have "transaction_of t = registration_tx (EncodeToString txID) (registration_bytes address sig) change"
    using assms(6,9,10) by (simp add: registration_tx_def transaction_of_def registration_script_eq)
  then have "scan_tx k (transaction_of t) st = Inr \<lparr>sc_txID = arr_copy 0 txID, sc_newAddress = address,
      sc_sig = arr_copy 0 sig, sc_found = sc_found st @ [\<lparr>ar_address = address, ar_blockHeight = k,
        ar_txID = arr_copy 0 txID, ar_sig = arr_copy 0 sig, ar_version = 0\<rparr>]\<rparr>" (is "_ = Inr ?st'")
    using scan_registration [OF assms(7,8)] by (simp only:)
  moreover have "fold_res (scan_tx k) (map transaction_of before) s = Inr s"
    "fold_res (scan_tx k) (map transaction_of after) s = Inr s" for s
    using assms(5) by (auto intro!: scan_other_txs)
  ultimately have "fold_res (scan_tx k) (map transaction_of (elements (field ''tx'' (JObj block)))) st = Inr ?st'"
    unfolding assms(4) map_append fold_res_append by simp
  then have "scan_block (bitcoind_of tr c) k st = Inr ?st'"
    using scan_block_reply [OF assms(1,2), of st] assms(3) by (simp only: json.distinct if_True not_False_eq_True simp_thms)
  then show ?thesis by simp
qed

text \<open>
  C35: one field of the wrong kind stops the node. If any transaction of a block has a version that is no
  unsigned 32-bit number, like the negative versions older daemons print, the scan of any
  range that reaches the block ends the program, before it looks at the other transactions.
\<close>

theorem negative_version_stops_scan:
  assumes "posts tr c ''getblockhash'' (JArr [JNum (dec_string (unat k))]) = Inr (rpc_reply (JStr h))"
    and "posts tr c ''getblock'' (JArr [JStr h, JNum ''2'']) = Inr (rpc_reply (JObj block))"
    and "(''tx'', JArr txs) \<in> set block" and "JObj tx \<in> set txs"
    and "(''version'', JNum version) \<in> set tx" and "\<not> fits_uint 32 version" and "k \<le> toBlock"
  shows "getNewAddressRegistrations (bitcoind_of tr c) k toBlock = Some (Inl (Fatal ''json: cannot unmarshal''))"
proof -
  have "\<not> unmarshals pf GetRawTransactionResult (JObj tx)" for pf
    using assms(6) unmarshals_wanted [OF structs(2) assms(5), where u = "GUint 32"] by (auto simp: fields_wanted)
  then have "\<not> unmarshals pf (GSlice GetRawTransactionResult) (JArr txs)" for pf
    using assms(4) by (auto simp: list_all_iff)
  then have "\<not> unmarshals pf GetBlockResult (JObj block)" for pf
    using unmarshals_wanted [OF structs(1) assms(3), where u = "GSlice GetRawTransactionResult"] by (auto simp: fields_wanted simp del: unmarshals.simps(6))
  then have "scan_block (bitcoind_of tr c) k scan_start = Inl (Fatal ''json: cannot unmarshal'')"
    using scan_block_reply [OF assms(1,2)] by simp
  then show ?thesis
    using assms(7) by (simp add: getNewAddressRegistrations_def scan_blocks.simps)
qed

section \<open>Examples\<close>

definition example_transport :: "json \<Rightarrow> transport" where
  "example_transport block = \<lparr>tr_Do = (\<lambda>_ _ request. Some (20000000, Inr (Inr
       (if field ''method'' request = JStr ''getblockhash'' then rpc_reply (JStr ''h'') else rpc_reply block)))),
     tr_ParseFloat = (\<lambda>_. Inl []), tr_now = 1\<rparr>"

definition example_client :: rpcClient where
  "example_client = \<lparr>rc_serverAddr = ''http://localhost:8332'', rc_user = [], rc_passwd = [], rc_timeout = 30\<rparr>"

lemma example_posts:
  "posts (example_transport block) example_client ''getblockhash'' params = Inr (rpc_reply (JStr ''h''))"
  "posts (example_transport block) example_client ''getblock'' params = Inr (rpc_reply block)"
  by (simp_all add: posts_def doTimeoutRequest_def example_transport_def example_client_def rpcRequest_def field_def member_def members_def same_name_def lower_def)

theorem negative_version_stops_scan_witness:
  "getNewAddressRegistrations (bitcoind_of (example_transport
     (JObj [(''tx'', JArr [JObj [(''version'', JNum ''-1'')]])])) example_client) 7 9 =
     Some (Inl (Fatal ''json: cannot unmarshal''))"
proof -
  have "\<not> fits_uint 32 ''-1''"
    by code_simp
  then show ?thesis
    by (intro negative_version_stops_scan [OF example_posts(1) example_posts(2)]) auto
qed

definition example_tx :: "string \<Rightarrow> string \<Rightarrow> json" where
  "example_tx txid hex = JObj [(''txid'', JStr txid),
     (''vout'', JArr [JObj [(''scriptPubKey'', JObj [(''hex'', JStr hex)])], JObj []])]"

lemma example_tx_values:
  "field ''txid'' (example_tx txid hex) = JStr txid"
  "tx_Vout (transaction_of (example_tx txid hex)) = [\<lparr>vo_Hex = hex\<rparr>, \<lparr>vo_Hex = []\<rparr>]"
  by (simp_all add: example_tx_def transaction_of_def field_def member_def members_def same_name_def lower_def
      elements_def string_of_def)

lemma example_block_unmarshals:
  "unmarshals pf GetBlockResult (JObj [(''tx'', JArr [example_tx txid hex])])"
  by (simp add: example_tx_def unmarshals_struct fields_wanted)

theorem registration_found_over_rpc_witness:
  "\<exists>script st'. registration_script (arr_copy 0 [10, 0, 0, 1]) (replicate 65 3) = Inr script \<and>
     scan_block (bitcoind_of (example_transport (JObj [(''tx'', JArr
       [example_tx (EncodeToString (replicate 32 9)) (EncodeToString script)])])) example_client) 500 scan_start = Inr st' \<and>
     length (sc_found st') = 1"
proof -
  define script where "script = registration_bytes (arr_copy 0 [10, 0, 0, 1]) (replicate 65 3)"
  let ?t = "example_tx (EncodeToString (replicate 32 9)) (EncodeToString script)"
  have elements: "elements (field ''tx'' (JObj [(''tx'', JArr [?t])])) = [] @ [?t] @ []"
    by (simp add: elements_def field_def member_def members_def)
  have "registration_script (arr_copy 0 [10, 0, 0, 1]) (replicate 65 3) = Inr script"
    by (simp add: script_def registration_script_eq)
  then show ?thesis
    using registration_found_over_rpc [OF example_posts(1) example_posts(2) example_block_unmarshals elements,
        of "arr_copy 0 [10, 0, 0, 1]" "replicate 65 3" script "replicate 32 9" "\<lparr>vo_Hex = []\<rparr>" 500 scan_start]
    by (auto simp: example_tx_values string_of_def scan_start_def)
qed

end
