(* ===== verification/Startup.thy ===== *)
theory Startup
  imports Client Bitcoin_RPC
begin

text \<open>
  The beginning of the program: the lnd client (\<open>lndwrapper/lnd.go\<close>), the connections to the two
  daemons and \<open>main\<close> of \<open>client.go\<close> as a whole, from the values of the flags to the state the menu
  starts in. The gRPC packages are arguments: \<open>grpc\<close> reads the certificate, the macaroon file and the
  macaroon in it, and dials; the connection answers as a \<open>LightningClient\<close>.
\<close>

section \<open>The lnd client\<close>

record LightningClient =
  lc_GetInfo :: "go_error + string"
  lc_GetNodeInfo :: "string \<times> bool \<Rightarrow> go_error + NodeInfo"
  lc_ListChannels :: "go_error + Channel list"
  lc_SignMessage :: "u8 list \<Rightarrow> go_error + string"
  lc_VerifyMessage :: "u8 list \<times> string \<Rightarrow> go_error + bool \<times> string"

record grpc =
  gr_NewClientTLSFromFile :: "string \<Rightarrow> go_error + u8 list"
  gr_ReadFile :: "string \<Rightarrow> go_error + u8 list"
  gr_UnmarshalBinary :: "u8 list \<Rightarrow> go_error + u8 list"
  gr_Dial :: "string \<Rightarrow> u8 list \<Rightarrow> u8 list \<Rightarrow> go_error + LightningClient"
  gr_zbase32_Encode :: "u8 list \<Rightarrow> string"
  gr_zbase32_Decode :: "string \<Rightarrow> go_error + u8 list"

definition lnd_New :: "grpc \<Rightarrow> string \<Rightarrow> int \<Rightarrow> string \<Rightarrow> string \<Rightarrow> go_error + LightningClient" where
  "lnd_New g host port macaroonPath tlsCertPath =
     bind_err (gr_NewClientTLSFromFile g tlsCertPath) (\<lambda>tlsCreds.
     bind_err (gr_ReadFile g macaroonPath) (\<lambda>macaroonBytes.
     bind_err (gr_UnmarshalBinary g macaroonBytes) (\<lambda>mac.
     let target = host @ '':'' @ int_string port in
     bind_err (gr_Dial g target tlsCreds mac) (\<lambda>conn. Inr conn))))"

definition lnd_GetInfo :: "LightningClient \<Rightarrow> go_error + string" where
  "lnd_GetInfo client = bind_err (lc_GetInfo client) (\<lambda>info. Inr info)"

definition lnd_GetNodeInfo :: "LightningClient \<Rightarrow> string \<Rightarrow> bool \<Rightarrow> go_error + NodeInfo" where
  "lnd_GetNodeInfo client pubkey includeChannels =
     bind_err (lc_GetNodeInfo client (pubkey, includeChannels)) (\<lambda>info. Inr info)"

definition lnd_ListChannels :: "LightningClient \<Rightarrow> go_error + Channel list" where
  "lnd_ListChannels client = bind_err (lc_ListChannels client) (\<lambda>channels. Inr channels)"

definition lnd_SignMessage :: "LightningClient \<Rightarrow> u8 list \<Rightarrow> go_error + string" where
  "lnd_SignMessage client message = bind_err (lc_SignMessage client message) (\<lambda>resp. Inr resp)"

definition lnd_VerifyMessage :: "LightningClient \<Rightarrow> u8 list \<Rightarrow> string \<Rightarrow> go_error + bool \<times> string" where
  "lnd_VerifyMessage client message signature =
     bind_err (lc_VerifyMessage client (message, signature)) (\<lambda>resp. Inr resp)"

text \<open>What the rest of the program sees of lnd.\<close>

definition lnd_of :: "grpc \<Rightarrow> LightningClient \<Rightarrow> Lnd" where
  "lnd_of g client = \<lparr>rpc_GetInfo = lnd_GetInfo client, rpc_GetNodeInfo = lnd_GetNodeInfo client,
     rpc_ListChannels = lnd_ListChannels client, rpc_SignMessage = lnd_SignMessage client,
     rpc_VerifyMessage = lnd_VerifyMessage client, zbase32_Encode = gr_zbase32_Encode g,
     zbase32_Decode = gr_zbase32_Decode g\<rparr>"

definition ConnectToLNClient :: "grpc \<Rightarrow> string \<Rightarrow> int \<Rightarrow> string \<Rightarrow> string \<Rightarrow> LightningClient res" where
  "ConnectToLNClient g host port macaroonPath tlsCertPath =
     or_fatal (lnd_New g host port macaroonPath tlsCertPath)"

section \<open>\<open>main\<close>\<close>

record flags =
  fl_bitcoinClientHost :: string
  fl_bitcoinClientPort :: string
  fl_bitcoinRPCUser :: string
  fl_bitcoinRPCPassword :: string
  fl_lightningClientHost :: string
  fl_lightningClientPort :: string
  fl_port :: string
  fl_macaroonPath :: string
  fl_tlsCertPath :: string
  fl_dataPath :: string

text \<open>
  The values without any arguments on the command line; the argument is the environment's \<open>HOME\<close>,
  a path \<open>path.Join\<close> has nothing to clean in.
\<close>

definition join_path :: "string \<Rightarrow> string \<Rightarrow> string" where
  "join_path home file = (if home = [] then file else home @ ''/'' @ file)"

definition default_flags :: "string \<Rightarrow> flags" where
  "default_flags home = \<lparr>fl_bitcoinClientHost = ''localhost'', fl_bitcoinClientPort = ''8332'',
     fl_bitcoinRPCUser = ''rpcUserExample'', fl_bitcoinRPCPassword = ''rpcPasswordExample'',
     fl_lightningClientHost = ''localhost'', fl_lightningClientPort = ''10009'', fl_port = DefaultPort,
     fl_macaroonPath = join_path home ''.lnd/data/chain/bitcoin/mainnet/admin.macaroon'',
     fl_tlsCertPath = join_path home ''.lnd/tls.cert'', fl_dataPath = join_path home ''.ldRouting/data''\<rparr>"

definition connect_clients :: "flags \<Rightarrow> grpc \<Rightarrow> (rpcClient \<times> LightningClient) res" where
  "connect_clients fl g =
     bind_res (or_fatal (Atoi (fl_bitcoinClientPort fl))) (\<lambda>bitcoinClientPort.
     bind_res (or_fatal (Atoi (fl_lightningClientPort fl))) (\<lambda>lightningClientPort.
     bind_res (ConnectToBitcoinClient (fl_bitcoinClientHost fl) bitcoinClientPort
       (fl_bitcoinRPCUser fl) (fl_bitcoinRPCPassword fl)) (\<lambda>btcClient.
     bind_res (ConnectToLNClient g (fl_lightningClientHost fl) lightningClientPort
       (fl_macaroonPath fl) (fl_tlsCertPath fl)) (\<lambda>lnClient.
     Inr (btcClient, lnClient)))))"

definition main_program :: "flags \<Rightarrow> grpc \<Rightarrow> transport \<Rightarrow> Env \<Rightarrow> (string \<Rightarrow> u8 list option) \<Rightarrow> TxLib \<Rightarrow>
    disk \<Rightarrow> string list \<Rightarrow> (Node \<times> disk \<times> string list) res option" where
  "main_program fl g tr env parse6 lib dk input =
     bind_opt (Some (connect_clients fl g)) (\<lambda>(btcClient, lnClient).
     main_start env (fl_dataPath fl) parse6 lib (bitcoind_of tr btcClient) (lnd_of g lnClient) dk input)"

section \<open>The wallet\<close>

text \<open>
  The menu that asks for the passphrase until the daemon takes it. The daemon's answer to a passphrase
  is fixed; at the end of the input every line is empty, so the menu may ask for ever.
\<close>

fun unlockWalletMenu :: "transport \<Rightarrow> rpcClient \<Rightarrow> string list \<Rightarrow> string list option" where
  "unlockWalletMenu tr btcClient [] = (if UnlockWallet tr btcClient [] = None then Some [] else None)"
| "unlockWalletMenu tr btcClient (line # rest) =
     (if UnlockWallet tr btcClient (trim_newline line) = None then Some rest
      else unlockWalletMenu tr btcClient rest)"

section \<open>Facts\<close>

lemma bind_err_return [simp]: "bind_err m (\<lambda>x. Inr x) = m"
  by (simp add: bind_err_def split: sum.split)

lemma lnd_of_simps [simp]:
  "rpc_GetInfo (lnd_of g client) = lc_GetInfo client" "rpc_ListChannels (lnd_of g client) = lc_ListChannels client"
  "rpc_GetNodeInfo (lnd_of g client) pk b = lc_GetNodeInfo client (pk, b)"
  "rpc_SignMessage (lnd_of g client) message = lc_SignMessage client message"
  "rpc_VerifyMessage (lnd_of g client) message sig = lc_VerifyMessage client (message, sig)"
  by (simp_all add: lnd_of_def lnd_GetInfo_def lnd_ListChannels_def lnd_GetNodeInfo_def lnd_SignMessage_def
      lnd_VerifyMessage_def)

text \<open>The connections succeed exactly when the ports are numbers, the host is given and lnd can be reached.\<close>

lemma connect_clients_eq_Inr:
  "connect_clients fl g = Inr (btc, ln) \<longleftrightarrow>
    (\<exists>p q. Atoi (fl_bitcoinClientPort fl) = Inr p \<and> Atoi (fl_lightningClientPort fl) = Inr q \<and>
      fl_bitcoinClientHost fl \<noteq> [] \<and>
      btc = \<lparr>rc_serverAddr = ''http://'' @ fl_bitcoinClientHost fl @ '':'' @ int_string p,
        rc_user = fl_bitcoinRPCUser fl, rc_passwd = fl_bitcoinRPCPassword fl, rc_timeout = 30\<rparr> \<and>
      lnd_New g (fl_lightningClientHost fl) q (fl_macaroonPath fl) (fl_tlsCertPath fl) = Inr ln)"
  by (auto simp: connect_clients_def bind_res_eq_Inr or_fatal_eq_Inr ConnectToBitcoinClient_def New_def
      newClient_def rpcclientTimeout_def ConnectToLNClient_def)

text \<open>A daemon that does not answer a call in time.\<close>

definition late :: "transport \<Rightarrow> rpcClient \<Rightarrow> json \<Rightarrow> bool" where
  "late tr c request \<longleftrightarrow> (case tr_Do tr (rc_serverAddr c) (basic_auth c) request of
     None \<Rightarrow> True | Some (elapsed, _) \<Rightarrow> rc_timeout c * 1000000000 \<le> elapsed)"

lemma late_call:
  "late tr c (rpcRequest method params (tr_now tr)) \<Longrightarrow>
    handled_call tr c method params = Inl ''Timeout reading data from server''"
  by (auto simp: late_def handled_call_def call_posts posts_def doTimeoutRequest_def handleError_def split: option.splits)

lemma unlockWalletMenu_hangs:
  "unlockWalletMenu tr c input = None \<longleftrightarrow> (\<forall>line \<in> set input. UnlockWallet tr c (trim_newline line) \<noteq> None) \<and>
     UnlockWallet tr c [] \<noteq> None"
  by (induction input) auto

end
