(* ===== verification/Disk_State.thy ===== *)
theory Disk_State
  imports Database_Steps
begin

text \<open>
  What a database and its two files have to do with each other. \<open>evolves\<close> is what every operation
  that registers nothing does to a database; \<open>on_disk\<close> says that the files hold the registry: after
  them, the database read back finds the same nodes under the same addresses. Reading the files is one
  of the steps (\<open>ReadDBFromDisk\<close>), so the invariants here reach over restarts.
\<close>

section \<open>What an operation leaves alone\<close>

text \<open>The node an address belongs to, and the connection stored with it.\<close>

definition owner :: "DB \<Rightarrow> address \<Rightarrow> pubkey option" where
  "owner db a = map_option ai_nodePubKey (addr_map db a)"

definition peer_ref :: "DB \<Rightarrow> address \<Rightarrow> conn_ref option" where
  "peer_ref db a = Option.bind (addr_map db a) ai_peerConn"

definition evolves :: "DB \<Rightarrow> DB \<Rightarrow> bool" where
  "evolves db db' \<longleftrightarrow> node_inv db' \<and> owner db' = owner db \<and> peer_ref db' = peer_ref db \<and>
     db_keyToAddressMap db' = db_keyToAddressMap db \<and> db_height db' = db_height db \<and>
     db_destConns db' \<subseteq>\<^sub>m db_destConns db"

lemma evolves_refl [simp]: "node_inv db \<Longrightarrow> evolves db db"
  by (simp add: evolves_def)

lemma evolves_trans: "evolves a b \<Longrightarrow> evolves b c \<Longrightarrow> evolves a c"
  by (auto simp: evolves_def intro: map_le_trans)

lemma installed_frame:
  "route_installed db db' \<Longrightarrow> owner db' = owner db \<and> peer_ref db' = peer_ref db"
  by (auto simp: route_installed_def owner_def peer_ref_def fun_eq_iff)

lemma installed_evolves:
  assumes "route_installed db db'" and "node_inv db'" and "same_registry db db'"
  shows "evolves db db'"
  using installed_frame [OF assms(1)] assms(2,3) by (simp add: evolves_def same_registry_def)

lemma learn_evolves:
  "node_inv db \<Longrightarrow> addNewDestinationToDB lnClient dest pk db = Inr db' \<Longrightarrow> evolves db db'"
  using learn_installs learn_inv by (blast intro: installed_evolves)

lemma balance_evolves:
  assumes "node_inv db" and "sync_channel lnClient rs ch db = Inr db'"
  shows "evolves db db'"
proof (rule installed_evolves)
  show "route_installed db db'" "node_inv db'"
    using balance_installs [OF assms] balance_inv [OF assms] .
  have ok: "db_ok db" using assms(1) by (simp add: node_inv_def)
  have "same_registry db db'" if learn: "addNewDestinationToDB lnClient dest pk (capped_db n b rs db) = Inr db'"
    for dest pk n b
    using learn_inv [OF node_inv_capped [OF assms(1)] learn]
      same_registry_trans [of db "capped_db n b rs db" db'] by simp
  then show "same_registry db db'"
    using balance_learns [OF ok assms(2)] by auto
qed

lemma put_route_evolves:
  assumes "node_inv db" and "registered db (re_destination e)"
  shows "\<exists>db'. put_route e db = Inr db' \<and> evolves db db'"
proof -
  have ok: "db_ok db" using assms(1) by (simp add: node_inv_def)
  obtain info where info: "addr_map db (re_destination e) = Some info"
    using assms(2) by (auto simp: registered_def)
  show ?thesis
  proof (rule install_spec [OF ok info])
    fix db'
    assume *: "addRoutingEntryToDB (db_nextEntry db) (with_entry e db) = Inr db'" "db_ok db'"
      "addr_map db' = (addr_map db)(re_destination e \<mapsto> info\<lparr>ai_routingEntry := Some (db_nextEntry db)\<rparr>)"
      "db_height db' = db_height db" "db_localAddress db' = db_localAddress db"
      "db_keyToAddressMap db' = db_keyToAddressMap db" "db_destConns db' = db_destConns db"
      "db_filePath db' = db_filePath db"
    have put: "put_route e db = Inr db'"
      using *(1) by (simp add: put_route_def new_entry_eq)
    have "same_registry db db'"
      using * info by (auto simp: same_registry_def registered_def)
    moreover from this have "node_inv db'"
      using assms(1) *(2) one_key_same_registry [of db db'] by (simp add: node_inv_def)
    moreover have "route_installed db db'"
      using *(3) info by (auto simp: route_installed_def)
    ultimately show ?thesis
      using put installed_evolves by blast
  qed
qed

lemma owner_registered: "registered db a \<longleftrightarrow> owner db a \<noteq> None"
  by (auto simp: registered_def owner_def)

lemma owner_frame [simp]:
  "owner (db_height_update f db) = owner db"
  "owner (db_localAddress_update f1 db) = owner db"
  "owner (db_destConns_update f2 db) = owner db"
  by (simp_all add: owner_def fun_eq_iff)

lemma peer_ref_frame [simp]:
  "peer_ref (db_height_update f db) = peer_ref db"
  "peer_ref (db_localAddress_update f1 db) = peer_ref db"
  "peer_ref (db_destConns_update f2 db) = peer_ref db"
  by (simp_all add: peer_ref_def fun_eq_iff)

lemma put_routes_evolve:
  assumes "node_inv db" and "\<forall>e \<in> set es. registered db (re_destination e)"
  shows "\<exists>db'. fold_res put_route es db = Inr db' \<and> evolves db db'"
  using assms
proof (induction es arbitrary: db)
  case (Cons e es)
  obtain db1 where db1: "put_route e db = Inr db1" "evolves db db1"
    using put_route_evolves [OF Cons.prems(1), of e] Cons.prems(2) by auto
  have "node_inv db1" "\<forall>e \<in> set es. registered db1 (re_destination e)"
    using db1(2) Cons.prems(2) by (auto simp: evolves_def owner_registered)
  then obtain db' where "fold_res put_route es db1 = Inr db'" "evolves db1 db'"
    using Cons.IH by blast
  then show ?case
    using db1 evolves_trans by auto
qed simp

lemma peer_evolves:
  assumes "node_inv db" and "addPeerConnToDB a r db = Inr db'"
  shows "node_inv db' \<and> owner db' = owner db \<and> peer_ref db' = (peer_ref db)(a := Some r) \<and>
    db_keyToAddressMap db' = db_keyToAddressMap db \<and> db_height db' = db_height db \<and>
    db_destConns db' = db_destConns db"
proof -
  have ok: "db_ok db" using assms(1) by (simp add: node_inv_def)
  obtain info where "addr_map db a = Some info" "addr_map db' = (addr_map db)(a \<mapsto> info\<lparr>ai_peerConn := Some r\<rparr>)"
    using addPeerConnToDB_spec [OF ok addPeerConnToDB_registered [OF ok assms(2)], of r] assms(2) by auto
  then have "owner db' = owner db" "peer_ref db' = (peer_ref db)(a := Some r)"
    by (auto simp: owner_def peer_ref_def fun_eq_iff)
  moreover have "db_keyToAddressMap db' = db_keyToAddressMap db \<and> db_height db' = db_height db \<and>
      db_destConns db' = db_destConns db"
    using assms(2) by (auto simp: addPeerConnToDB_def bind_res_eq_Inr)
  ultimately show ?thesis
    using peer_inv [OF assms] by blast
qed

section \<open>The files hold the registry\<close>

definition file_owners :: "addressInfo list \<Rightarrow> address \<Rightarrow> pubkey option" where
  "file_owners infos = map_of (map (\<lambda>i. (ai_address i, ai_nodePubKey i)) infos)"

definition file_keys :: "addressInfo list \<Rightarrow> pubkey \<Rightarrow> node_ptr option" where
  "file_keys infos = map_of (map (\<lambda>i. (ai_nodePubKey i, byteToBit (ai_address i))) (rev infos))"

definition routes_on_disk :: "addressInfo list \<Rightarrow> disk \<Rightarrow> bool" where
  "routes_on_disk infos dk \<longleftrightarrow> dk_routing dk = None \<or>
     (\<exists>es. dk_routing dk = Some (routing_file es) \<and> (\<forall>e \<in> set es. re_destination e \<in> ai_address ` set infos))"

definition on_disk :: "addressInfo list \<Rightarrow> DB \<times> disk \<Rightarrow> bool" where
  "on_disk infos = (\<lambda>(db, dk). distinct (map ai_address infos) \<and>
     dk_address dk = Some (address_file (db_height db) infos) \<and> owner db = file_owners infos \<and>
     db_keyToAddressMap db = file_keys infos \<and> routes_on_disk infos dk)"

lemma on_disk_registered: "on_disk infos (db, dk) \<Longrightarrow> registered db a \<longleftrightarrow> a \<in> ai_address ` set infos"
  by (simp add: on_disk_def owner_registered file_owners_def map_of_eq_None_iff image_image)

lemma on_disk_evolves: "on_disk infos (db, dk) \<Longrightarrow> evolves db db' \<Longrightarrow> on_disk infos (db', dk)"
  by (simp add: on_disk_def evolves_def)

lemma on_disk_frame [simp]:
  "on_disk infos (db_localAddress_update f db, dk) = on_disk infos (db, dk)"
  "on_disk infos (db_destConns_update g db, dk) = on_disk infos (db, dk)"
  by (simp_all add: on_disk_def)

lemma on_disk_height:
  assumes "on_disk infos (db, dk)" and "updateBlockHeight h (db, dk) = Inr (db', dk')"
  shows "on_disk infos (db', dk') \<and> db' = db\<lparr>db_height := h\<rparr>"
  using assms by (auto simp: on_disk_def updateBlockHeight_def routes_on_disk_def)

text \<open>A registration is written behind the others.\<close>

lemma file_owners_append:
  "ai_address i \<notin> ai_address ` set infos \<Longrightarrow>
    file_owners (infos @ [i]) = (file_owners infos)(ai_address i \<mapsto> ai_nodePubKey i)"
  by (simp add: file_owners_def map_add_upd_left [of _ _ Map.empty, simplified] dom_map_of_conv_image_fst image_image)

lemma file_keys_append:
  "file_keys (infos @ [i]) = (file_keys infos)(ai_nodePubKey i \<mapsto> byteToBit (ai_address i))"
  by (simp add: file_keys_def)

lemma on_disk_register:
  assumes "on_disk infos (db, dk)" and "node_inv db"
    and "take_registration lnClient registration (db, dk) = Inr (db', dk')"
  shows "\<exists>new. on_disk (infos @ new) (db', dk') \<and> node_inv db' \<and> peer_ref db' = peer_ref db \<and>
    db_destConns db' = db_destConns db \<and> (\<forall>a. registered db a \<longrightarrow> owner db' a = owner db a)"
proof -
  obtain v where v: "verifyAddressRegistration lnClient registration db = Inr v"
    using assms(3) by (auto simp: take_registration_def bind_res_eq_Inr)
  show ?thesis
  proof (cases v)
    case None
    then show ?thesis
      using assms v by (intro exI [of _ "[]"]) (simp add: take_registration_def)
  next
    case (Some info)
    obtain db1 where db1: "addAddressToDB info db = Inr db1" "saveAddressToFile info dk = Inr dk'" "db' = db1"
      using assms(3) v Some by (auto simp: take_registration_def bind_res_eq_Inr)
    note reg = register_inv [OF assms(2) v [unfolded Some] db1(1)]
    have fresh: "ai_address info \<notin> ai_address ` set infos"
      using reg on_disk_registered [OF assms(1)] by blast
    have frame: "db_keyToAddressMap db1 = (db_keyToAddressMap db)(ai_nodePubKey info \<mapsto> byteToBit (ai_address info))"
      "db_height db1 = db_height db" "db_destConns db1 = db_destConns db"
      using db1(1) by (auto simp: addAddressToDB_def Let_def bind_res_eq_Inr)
    have "db_ok db" using assms(2) by (simp add: node_inv_def)
    then obtain pk where "info = registered_info registration pk"
      using verifyAddressRegistration_accepts [OF _ v [unfolded Some]] by blast
    then have info: "ai_routingEntry info = None" "ai_peerConn info = None"
      by (simp_all add: registered_info_def)
    have owner: "owner db1 = (owner db)(ai_address info \<mapsto> ai_nodePubKey info)" and peer: "peer_ref db1 = peer_ref db"
      using reg info by (auto simp: owner_def peer_ref_def registered_def fun_eq_iff)
    have written: "dk' = dk\<lparr>dk_address := Some (address_file (db_height db) (infos @ [info]))\<rparr>"
      using address_file_updates [of dk "db_height db" infos info] assms(1) db1(2) by (simp add: on_disk_def)
    have "on_disk (infos @ [info]) (db1, dk')"
      using assms(1) fresh owner frame written
      by (auto simp: on_disk_def file_owners_append file_keys_append routes_on_disk_def)
    then show ?thesis
      using reg owner peer frame(3) db1(3)
      by (intro exI [of _ "[info]"]) (auto simp: registered_def owner_def)
  qed
qed

text \<open>Saving the routes overwrites the front of the routing file.\<close>

lemma overwrite_routes:
  "overwrite (routing_file xs) (routing_file ys) = routing_file (xs @ drop (length xs) ys)"
proof -
  have "length (routing_file xs) = 24 * length xs" for xs
    using entry_codec.length_concat_enc [of xs] by (simp add: routing_file_def)
  moreover have "drop (24 * n) (routing_file ys) = routing_file (drop n ys)" for n
    by (induction ys arbitrary: n)
      (auto simp: routing_file_def drop_Cons entry_codec.enc_width split: nat.split)
  ultimately show ?thesis
    by (simp add: overwrite_def routing_file_def)
qed

lemma saved_routes:
  "SaveRoutingDBToFile db dk = dk\<lparr>dk_routing := Some (overwrite (routing_file (stacked db))
     (case dk_routing dk of None \<Rightarrow> routing_file [] | Some content \<Rightarrow> content))\<rparr>"
  by (simp add: SaveRoutingDBToFile_def genesisBlock_def routing_file_def stacked_def comp_def cong: option.case_cong)

lemma stacked_registered: "db_ok db \<Longrightarrow> e \<in> set (stacked db) \<Longrightarrow> registered db (re_destination e)"
  unfolding db_ok_def stack_ok_def stacked_def by (auto simp: registered_def)

lemma on_disk_save:
  assumes "on_disk infos (db, dk)" and "node_inv db"
  shows "on_disk infos (db, SaveRoutingDBToFile db dk)"
proof -
  obtain ys where ys: "(case dk_routing dk of None \<Rightarrow> routing_file [] | Some content \<Rightarrow> content) = routing_file ys"
      "\<forall>e \<in> set ys. re_destination e \<in> ai_address ` set infos"
    using assms(1) by (auto simp: on_disk_def routes_on_disk_def)
  have "re_destination e \<in> ai_address ` set infos" if "e \<in> set (stacked db)" for e
    using stacked_registered [OF _ that] assms on_disk_registered by (auto simp: node_inv_def)
  then have "routes_on_disk infos (SaveRoutingDBToFile db dk)"
    using ys(2) by (auto simp: routes_on_disk_def saved_routes ys(1) overwrite_routes dest!: in_set_dropD
        intro!: exI [of _ "stacked db @ drop (length (stacked db)) ys"])
  then show ?thesis
    using assms(1) by (simp add: on_disk_def saved_routes)
qed

section \<open>Reading the files back\<close>

lemma stored_owners:
  "map_option ai_nodePubKey (map_of (map (\<lambda>i. (ai_address i, stored_info i)) infos) a) = file_owners infos a"
  "Option.bind (map_of (map (\<lambda>i. (ai_address i, stored_info i)) infos) a) ai_peerConn = None"
  by (induction infos) (simp_all add: file_owners_def, simp_all add: stored_info_def)

lemma load_destConns:
  "fold_res addAddressToDB infos db = Inr db' \<Longrightarrow> db_destConns db' = db_destConns db"
  by (induction infos arbitrary: db) (auto simp: bind_res_eq_Inr addAddressToDB_def Let_def)

lemma on_disk_boot:
  assumes "on_disk infos (db, dk)" and "node_inv db"
  shows "\<exists>db' dk'. ReadDBFromDisk dataPath dk = Inr (db', dk') \<and> node_inv db' \<and> on_disk infos (db', dk') \<and>
    owner db' = owner db \<and> peer_ref db' = Map.empty \<and> db_destConns db' = Map.empty \<and> db_height db' = db_height db"
proof -
  obtain es where es: "dk_routing dk = None \<and> es = [] \<or> dk_routing dk = Some (routing_file es)"
      "\<forall>e \<in> set es. re_destination e \<in> ai_address ` set infos"
    using assms(1) unfolding on_disk_def routes_on_disk_def by auto
  obtain db0 where db0: "fold_res addAddressToDB (map stored_info infos)
        ((createDB dataPath)\<lparr>db_height := db_height db\<rparr>) = Inr db0"
      "db_ok db0" "db_height db0 = db_height db"
      "addr_map db0 = map_of (map (\<lambda>i. (ai_address i, stored_info i)) (rev infos))"
      "db_keyToAddressMap db0 = file_keys infos"
    using load_stored unfolding file_keys_def by blast
  have dist: "distinct (map ai_address infos)" and keys: "db_keyToAddressMap db = file_keys infos"
    and owners: "owner db = file_owners infos"
    using assms(1) by (simp_all add: on_disk_def)
  have addr: "addr_map db0 = map_of (map (\<lambda>i. (ai_address i, stored_info i)) infos)"
    unfolding db0(4) by (rule map_of_inject_set [THEN iffD2]) (use dist in \<open>simp_all add: comp_def rev_map [symmetric]\<close>)
  have owner: "owner db0 = file_owners infos" and peer: "peer_ref db0 = Map.empty"
    by (simp_all add: owner_def peer_ref_def addr stored_owners fun_eq_iff)
  have inv: "node_inv db0"
    using assms(2) db0(2,5) keys by (simp add: node_inv_def one_key_per_address_def)
  have dests: "db_destConns db0 = Map.empty"
    using load_destConns [OF db0(1)] by (simp add: createDB_def)
  obtain db' where db': "fold_res put_route es db0 = Inr db'" "evolves db0 db'"
    using put_routes_evolve [OF inv, of es] es(2) registered_stored [OF db0(4)] by auto
  then have same: "owner db' = owner db" "peer_ref db' = Map.empty" "db_height db' = db_height db"
      "db_keyToAddressMap db' = db_keyToAddressMap db" "db_destConns db' = Map.empty" "node_inv db'"
    using owner owners peer keys dests db0(3,5) by (auto simp: evolves_def map_le_def dom_def fun_eq_iff)
  have "ReadDBFromDisk dataPath dk = Inr (db', dk\<lparr>dk_routing := Some (routing_file es)\<rparr>)"
    using ReadDBFromDisk_files [of dk "db_height db" infos es dataPath] assms(1) es(1) db0(1) db'(1)
    by (simp add: on_disk_def)
  moreover have "on_disk infos (db', dk\<lparr>dk_routing := Some (routing_file es)\<rparr>)"
    using assms(1) same es(2) by (auto simp: on_disk_def routes_on_disk_def)
  ultimately show ?thesis
    using same by blast
qed

text \<open>The first start, on no files at all.\<close>

lemma on_disk_first:
  "\<exists>db dk. ReadDBFromDisk dataPath \<lparr>dk_address = None, dk_routing = None\<rparr> = Inr (db, dk) \<and> node_inv db \<and>
    on_disk [] (db, dk) \<and> peer_ref db = Map.empty \<and> db_destConns db = Map.empty \<and>
    db_height db = genesisBlock"
proof -
  let ?db = "(createDB dataPath)\<lparr>db_height := genesisBlock\<rparr>"
  have "ReadDBFromDisk dataPath \<lparr>dk_address = None, dk_routing = None\<rparr> =
      Inr (?db, \<lparr>dk_address = Some (address_file genesisBlock []), dk_routing = Some (routing_file [])\<rparr>)"
    by (simp add: ReadDBFromDisk_def updateBlockHeight_def overwrite_def read_records.simps address_file_def
        routing_file_def Let_def)
  moreover have "node_inv ?db"
    by (simp add: node_inv_def db_ok_createDB one_key_per_address_def)
  moreover have "on_disk [] (?db, \<lparr>dk_address = Some (address_file genesisBlock []), dk_routing = Some (routing_file [])\<rparr>)"
    by (simp add: on_disk_def owner_def file_owners_def file_keys_def routes_on_disk_def fun_eq_iff)
  moreover have "peer_ref ?db = Map.empty" "db_destConns ?db = Map.empty"
    by (simp_all add: peer_ref_def fun_eq_iff) (simp add: createDB_def)
  moreover have "db_height ?db = genesisBlock"
    by simp
  ultimately show ?thesis
    by blast
qed

section \<open>A restart\<close>

lemma put_routes_map:
  assumes "db_ok db" and "\<forall>e \<in> set es. registered db (re_destination e)"
  shows "\<exists>db'. fold_res put_route es db = Inr db' \<and> db_ok db' \<and>
    route_map db' = route_map db ++ map_of (map (\<lambda>e. (re_destination e, e)) (rev es))"
  using assms
proof (induction es arbitrary: db)
  case (Cons e es)
  obtain db1 where db1: "put_route e db = Inr db1" "db_ok db1" "route_map db1 = (route_map db)(re_destination e \<mapsto> e)"
      "\<forall>a. registered db1 a = registered db a"
    using put_route_spec [OF Cons.prems(1), of e] Cons.prems(2) by auto
  moreover obtain db' where "fold_res put_route es db1 = Inr db'" "db_ok db'"
      "route_map db' = route_map db1 ++ map_of (map (\<lambda>e. (re_destination e, e)) (rev es))"
    using Cons.IH [OF db1(2)] Cons.prems(2) db1(4) by auto
  ultimately show ?case
    by (simp del: fun_upd_apply)
qed simp

text \<open>
  C23: restarting keeps the routes but turns the stack over. Let the address file hold the registrations,
  and the routing file, if there is one, the entries \<open>old\<close> of an earlier save, all for registered addresses,
  as in every reachable node. \<open>SaveRoutingDBToFile\<close> writes over the front of that file and does not
  truncate it. So after \<open>ReadDBFromDisk\<close> every destination has its route again, except that
  an earlier entry which the shorter table has not overwritten comes back in place of it. When the
  table is not shorter than the file, nothing comes back and the entries are stacked in the opposite
  order, the oldest on top: a request for the entries since a height above that of the oldest one finds none.
\<close>

theorem restart_reverses_stack:
  assumes "db_ok db" and "dk_address dk = Some (address_file h infos)"
    and "case dk_routing dk of None \<Rightarrow> old = [] | Some content \<Rightarrow> content = routing_file old"
    and "\<forall>a. registered db a \<or> a \<in> re_destination ` set old \<longrightarrow> a \<in> ai_address ` set infos"
  shows "\<exists>db' dk'. ReadDBFromDisk dataPath (SaveRoutingDBToFile db dk) = Inr (db', dk') \<and> db_ok db' \<and>
    route_map db' = route_map db ++
      map_of (map (\<lambda>e. (re_destination e, e)) (rev (drop (length (db_routingEntriesStack db)) old))) \<and>
    (length old \<le> length (db_routingEntriesStack db) \<longrightarrow>
      map (db_entries db') (db_routingEntriesStack db') = rev (map (db_entries db) (db_routingEntriesStack db)) \<and>
      (db_routingEntriesStack db \<noteq> [] \<longrightarrow> re_height (db_entries db (last (db_routingEntriesStack db))) < b \<longrightarrow>
         getLastRoutingEntries db' b = []))"
proof -
  let ?kept = "drop (length (stacked db)) old" and ?route = "\<lambda>e. (re_destination e, e)"
  let ?es = "stacked db @ ?kept"
  have saved: "SaveRoutingDBToFile db dk = dk\<lparr>dk_routing := Some (routing_file ?es)\<rparr>"
  proof -
    have "(case dk_routing dk of None \<Rightarrow> routing_file [] | Some content \<Rightarrow> content) = routing_file old"
      using assms(3) by (auto split: option.splits)
    then show ?thesis
      by (simp add: saved_routes overwrite_routes)
  qed
  obtain db0 where db0: "fold_res addAddressToDB (map stored_info infos) ((createDB dataPath)\<lparr>db_height := h\<rparr>) = Inr db0"
      "db_ok db0" "db_routingEntriesStack db0 = []"
      "addr_map db0 = map_of (map (\<lambda>i. (ai_address i, stored_info i)) (rev infos))"
    using load_stored by blast
  note table = stacked_routes [OF assms(1)]
  have empty: "stacked db0 = []" "route_map db0 = Map.empty"
    using db0(3) stacked_routes [OF db0(2)] by (simp_all add: stacked_def)
  have reg: "\<forall>e \<in> set ?es. registered db0 (re_destination e)"
    using stacked_registered [OF assms(1)] assms(4) by (auto simp: registered_stored [OF db0(4)] dest!: in_set_dropD)
  obtain db' where db': "fold_res put_route ?es db0 = Inr db'" "db_ok db'"
      "route_map db' = map_of (map ?route (rev ?es))"
    using put_routes_map [OF db0(2) reg] empty(2) by auto
  have read: "ReadDBFromDisk dataPath (SaveRoutingDBToFile db dk) = Inr (db', SaveRoutingDBToFile db dk)"
    using ReadDBFromDisk_files [of "SaveRoutingDBToFile db dk" h infos ?es dataPath] assms(2) db0(1) db'(1) saved
    by simp
  have "map_of (map ?route (rev (stacked db))) = map_of (map ?route (stacked db))"
    using table by (intro map_of_inject_set [THEN iffD2]) (simp_all add: comp_def rev_map [symmetric])
  then have routes: "route_map db' = route_map db ++ map_of (map ?route (rev ?kept))"
    using db'(3) table by simp
  have turned: "stacked db' = rev (stacked db)" if "length old \<le> length (stacked db)"
    using put_routes [OF db0(2), of "stacked db"] db'(1) reg table empty(1) that by auto
  have "getLastRoutingEntries db' b = []"
    if "length old \<le> length (stacked db)" "db_routingEntriesStack db \<noteq> []"
      "re_height (db_entries db (last (db_routingEntriesStack db))) < b"
  proof -
    have "hd (stacked db') = db_entries db (last (db_routingEntriesStack db))" "stacked db' \<noteq> []"
      using that(2) turned [OF that(1)] by (simp_all add: hd_rev last_map stacked_def)
    then show ?thesis
      using that(3) by (cases "db_routingEntriesStack db'") (auto simp: getLastRoutingEntries_def stacked_def)
  qed
  then show ?thesis
    using read db'(2) routes turned by (auto simp: stacked_def)
qed

theorem restart_reverses_stack_witness:
  "\<exists>db db' dk'. getLastRoutingEntries db 5 \<noteq> [] \<and>
     ReadDBFromDisk ''data'' (SaveRoutingDBToFile db
       \<lparr>dk_address = Some (address_file 9 [example_info [0, 0, 0, 1] [2, 1], example_info [0, 0, 0, 2] [2, 2]]),
        dk_routing = Some (routing_file [example_route 1 1 20 2])\<rparr>) = Inr (db', dk') \<and>
     getLastRoutingEntries db' 5 = []"
proof -
  let ?infos = "[example_info [0, 0, 0, 1] [2, 1], example_info [0, 0, 0, 2] [2, 2]]"
  let ?dk = "\<lparr>dk_address = Some (address_file 9 ?infos), dk_routing = Some (routing_file [example_route 1 1 20 2])\<rparr>"
  let ?old = "example_route 1 1 50 3" and ?new = "example_route 2 1 50 7"
  have e: "re_destination ?old = example_address 1" "re_destination ?new = example_address 2"
    "re_height ?old = 3" "re_height ?new = 7"
    by (simp_all add: example_route_def)
  obtain db where db: "fresh_db [1, 2] db"
    using example_db_fresh by blast
  note ok = fresh_db_facts(1) [OF db]
  have reg: "registered db (example_address 1)" "registered db (example_address 2)"
    using fresh_db_facts(2) [OF db] by simp_all
  have none: "stacked db = []"
    using db by (simp add: fresh_db_def stacked_def)
  obtain db1 where db1: "db_ok db1" "\<forall>a. registered db1 a = registered db a" "stacked db1 = [?old]"
    using put_route_spec [OF ok, of ?old] reg e none by auto
  obtain db2 where db2: "db_ok db2" "\<forall>a. registered db2 a = registered db1 a" "stacked db2 = [?new, ?old]"
    using put_route_spec [OF db1(1), of ?new] reg db1(2,3) e by auto
  have "length (db_routingEntriesStack db2) = 2"
    using arg_cong [OF db2(3), of length] by (simp add: stacked_def)
  then obtain q r where stack: "db_routingEntriesStack db2 = [q, r]"
    by (auto simp: numeral_2_eq_2 length_Suc_conv)
  then have entries: "db_entries db2 q = ?new" "db_entries db2 r = ?old"
    using db2(3) by (simp_all add: stacked_def)
  have "\<forall>a. registered db2 a \<or> a \<in> re_destination ` set [example_route 1 1 20 2] \<longrightarrow> a \<in> ai_address ` set ?infos"
    using db db1(2) db2(2) by (auto simp: fresh_db_def example_info_def example_route_def example_address_def)
  from restart_reverses_stack [OF db2(1) _ _ this, of ?dk 9 "''data''" 5]
  obtain db' dk' where "ReadDBFromDisk ''data'' (SaveRoutingDBToFile db2 ?dk) = Inr (db', dk')"
      "getLastRoutingEntries db' 5 = []"
    using stack entries e by auto
  moreover have "getLastRoutingEntries db2 5 \<noteq> []"
    using stack entries e by (simp add: getLastRoutingEntries_def)
  ultimately show ?thesis
    by blast
qed

end
