(* ===== verification/Node_Frame.thy ===== *)
theory Node_Frame
  imports Startup Disk_State
begin

text \<open>
  What the operations on a running node leave alone. \<open>quiet\<close> relates a node before and after an
  operation that registers nothing: the registry and the height are as before, and if the connections of the
  database were in order they still are. Every operation of \<open>networking.go\<close> and \<open>routing.go\<close> is
  quiet; \<open>post\<close> states it of results that may be a fault.
\<close>

section \<open>The connections of a node\<close>

text \<open>
  Peers are reached over sessions, announced destinations over connections without a key; both refer
  to connections that have been made.
\<close>

definition conns_ok :: "Node \<Rightarrow> bool" where
  "conns_ok node \<longleftrightarrow>
     (\<forall>a r. peer_ref (nd_db node) a = Some r \<longrightarrow> r < nd_nextConn node \<and> session_ok (nd_conns node r)) \<and>
     (\<forall>t r. db_destConns (nd_db node) t = Some r \<longrightarrow> r < nd_nextConn node \<and> ci_sessionKey (nd_conns node r) = [])"

text \<open>What an operation that registers nothing does to a node.\<close>

definition quiet :: "Node \<Rightarrow> Node \<Rightarrow> bool" where
  "quiet node node' \<longleftrightarrow> (node_inv (nd_db node) \<longrightarrow> node_inv (nd_db node') \<and>
     owner (nd_db node') = owner (nd_db node) \<and> db_height (nd_db node') = db_height (nd_db node) \<and>
     db_keyToAddressMap (nd_db node') = db_keyToAddressMap (nd_db node) \<and> (conns_ok node \<longrightarrow> conns_ok node'))"

lemma quiet_refl [simp]: "quiet node node"
  by (simp add: quiet_def)

lemma quiet_trans [trans]: "quiet a b \<Longrightarrow> quiet b c \<Longrightarrow> quiet a c"
  by (auto simp: quiet_def)

lemma quiet_same_db:
  assumes "nd_db node' = nd_db node" and "nd_nextConn node' = nd_nextConn node"
    and "\<forall>r. ci_sessionKey (nd_conns node' r) = ci_sessionKey (nd_conns node r) \<and>
      (session_ok (nd_conns node r) \<longrightarrow> session_ok (nd_conns node' r))"
  shows "quiet node node'"
  using assms by (auto simp: quiet_def conns_ok_def)

lemma upd_conn_next [simp]: "nd_nextConn (upd_conn r f node) = nd_nextConn node"
  by (simp add: upd_conn_def)

lemma conn_next [simp]:
  "nd_nextConn (conn_write r bs node) = nd_nextConn node"
  "nd_nextConn (mutex_lock r node) = nd_nextConn node"
  "nd_nextConn (mutex_unlock r node) = nd_nextConn node"
  by (simp_all add: conn_write_def mutex_lock_def mutex_unlock_def)

lemma quiet_io [simp]:
  "quiet node (mutex_lock r node)" "quiet node (mutex_unlock r node)"
  "quiet node (upd_conn r incrementSeqNumber node)"
  "quiet node (conn_write r bs node)" "quiet node (tcp_write conn bs node)"
  by (auto intro!: quiet_same_db)

lemma map_le_SomeD: "m \<subseteq>\<^sub>m m' \<Longrightarrow> m x = Some y \<Longrightarrow> m' x = Some y"
  by (force simp: map_le_def)

lemma quiet_evolves:
  assumes "node_inv (nd_db node) \<Longrightarrow> evolves (nd_db node) db'"
  shows "quiet node (node\<lparr>nd_db := db'\<rparr>)"
  unfolding quiet_def conns_ok_def
  using assms by (auto simp: evolves_def) (blast dest: map_le_SomeD)+

lemma evolves_close: "node_inv db \<Longrightarrow> evolves db (removeDestConnFromDB token db)"
  by (auto simp: removeDestConnFromDB_def evolves_def map_le_def)

section \<open>Sending and receiving\<close>

lemma quiet_send: "post (send_message c r m node) (quiet node)"
  by (auto simp: send_message_def intro!: postI intro: quiet_trans [OF quiet_io(4) quiet_io(3)])

lemma quiet_forward: "post (ForwardRoute c route a node) (quiet node)"
  by (auto simp: ForwardRoute_def split: option.split sum.split intro!: postI intro: postD [OF quiet_send])

lemma quiet_closed: "quiet node (node\<lparr>nd_closed := cs\<rparr>)"
  by (rule quiet_same_db) auto

lemma quiet_close: "post (closeDestConnection token node) (quiet node)"
proof (rule postI)
  fix node' assume "closeDestConnection token node = Inr node'"
  then obtain cs where "node' = (node\<lparr>nd_closed := cs\<rparr>)\<lparr>nd_db := removeDestConnFromDB token (nd_db node)\<rparr>"
    by (auto simp: closeDestConnection_def split: option.split_asm)
  then show "quiet node node'"
    using quiet_trans [OF quiet_closed quiet_evolves] evolves_close by simp
qed

lemma quiet_return: "post (sendRouteToSender route node) (quiet node)"
  by (auto simp: sendRouteToSender_def split: option.split
      intro!: postI intro: quiet_trans [OF quiet_io(4) postD [OF quiet_close]])

lemma quiet_handle_forward: "post (handle_forward c lnClient message node) (quiet node)"
  by (auto simp: handle_forward_def split: sum.split intro!: postI
      intro: postD [OF quiet_forward] postD [OF quiet_return])

section \<open>The message handler\<close>

fun outcome_node :: "outcome \<Rightarrow> Node" where
  "outcome_node (Continues node) = node"
| "outcome_node (Returns node) = node"
| "outcome_node (Blocks node) = node"

lemma response_evolves:
  assumes "node_inv db"
  shows "post (processTableResponse lnClient pk response db) (\<lambda>(err, db'). evolves db db')"
proof -
  have "evolves db db'" if "fold_res (\<lambda>n db. bind_res (slice (f n) (g n) response) (\<lambda>serializedDest.
      bind_res (deserializeDestination serializedDest) (\<lambda>dest. addNewDestinationToDB lnClient dest pk db))) ns db = Inr db'"
    for f g ns db'
    using that evolves_refl [OF assms]
  proof (rule fold_res_invariant)
    fix n db1 db2
    assume so_far: "evolves db db1" and "bind_res (slice (f n) (g n) response) (\<lambda>serializedDest.
      bind_res (deserializeDestination serializedDest) (\<lambda>dest. addNewDestinationToDB lnClient dest pk db1)) = Inr db2"
    then obtain dest where "addNewDestinationToDB lnClient dest pk db1 = Inr db2"
      by (auto simp: bind_res_eq_Inr)
    moreover have "node_inv db1"
      using so_far by (simp add: evolves_def)
    ultimately show "evolves db db2"
      using evolves_trans [OF so_far] learn_evolves by blast
  qed
  then show ?thesis
    using assms by (auto simp: processTableResponse_def intro!: postI)
qed

lemma quiet_response:
  "post (processTableResponse lnClient pk response (nd_db node)) (\<lambda>(err, db). quiet node (node\<lparr>nd_db := db\<rparr>))"
  using response_evolves [of "nd_db node" lnClient pk response]
  by (auto simp: post_def intro!: quiet_evolves)

lemma quiet_unlock: "quiet node n \<Longrightarrow> quiet node (mutex_unlock r n)"
  by (rule quiet_trans [OF _ quiet_io(2)])

lemma quiet_handle_plain: "post (handle_plain c lnClient pk r message node) (\<lambda>out. quiet node (outcome_node out))"
  using quiet_response [of lnClient pk message node]
  by (auto simp: handle_plain_def split: sum.split option.split option.split_asm intro!: postI quiet_unlock
      intro: postD [OF quiet_send] postD [OF quiet_handle_forward] dest: postD)

lemma quiet_handle_message:
  "post (handle_message c lnClient pk r encrypted node) (\<lambda>out. quiet node (outcome_node out))"
  by (auto simp: handle_message_def Let_def intro!: postI
      intro: quiet_trans [OF quiet_trans [OF quiet_io(1) quiet_io(3)] postD [OF quiet_handle_plain]])

lemma quiet_table_request: "post (send_table_request c r node) (\<lambda>out. quiet node (outcome_node out))"
  by (auto simp: send_table_request_def request_sealed_def request_sent_def Let_def bind_res_eq_Inr split: sum.split
      intro!: postI quiet_unlock quiet_trans [OF quiet_trans [OF quiet_io(1) quiet_io(4)] quiet_io(3)])

section \<open>New connections\<close>

lemma quiet_announced: "quiet node (announced conn t node)"
  by (auto simp: quiet_def conns_ok_def addDestConnToDB_def dest_conn_def less_Suc_eq)

lemma quiet_destination:
  assumes "ConnectToDestination env k ip t node = (err, node')"
  shows "quiet node node'"
proof -
  have "quiet node (announced conn t (tcp_write conn t (tcp_write conn [destinationConn] node)))" for conn
    using quiet_trans [OF quiet_trans [OF quiet_io(5) quiet_io(5)] quiet_announced] .
  then show ?thesis
    using assms by (auto simp: ConnectToDestination_eq split: sum.split_asm option.split_asm)
qed

lemma quiet_try_destination: "quiet node (try_destination env t ips k node)"
proof (induction ips arbitrary: k node)
  case (Cons ip ips)
  then show ?case
    by (auto split: prod.split option.split intro: quiet_destination quiet_trans [OF quiet_destination])
qed simp

lemma quiet_destination_auto: "post (ConnectToDestinationAuto env client a t node) (quiet node)"
  by (auto simp: ConnectToDestinationAuto_def intro!: postI quiet_try_destination)

text \<open>A session that starts with a key, an IV and a sequence number of the right sizes.\<close>

definition session_sizes :: "session \<Rightarrow> bool" where
  "session_sizes s \<longleftrightarrow> length (ss_key s) = AESKeySize \<and> length (ss_baseIV s) = AESBaseIVSize \<and>
     length (ss_startSeq s) = AESStartSeqSize"

lemma quiet_writes: "quiet node (foldl (\<lambda>node m. tcp_write conn m node) node messages)"
proof (induction messages arbitrary: node)
  case (Cons m messages)
  then show ?case
    using quiet_trans [OF quiet_io(5) Cons.IH] by simp
qed simp

lemma quiet_open_session:
  assumes "length sessionKey = AESKeySize" and "length baseIV = AESBaseIVSize" and "length startSeq = AESStartSeqSize"
  shows "post (open_peer_session conn sessionKey baseIV startSeq pk node) (\<lambda>(r, node'). quiet node node')"
proof -
  let ?c = "\<lparr>ci_locked = False, ci_conn = conn, ci_sessionKey = sessionKey, ci_baseIV = baseIV, ci_seqNumber = startSeq\<rparr>"
  let ?node = "node\<lparr>nd_conns := (nd_conns node)(nd_nextConn node := ?c), nd_nextConn := Suc (nd_nextConn node)\<rparr>"
  have new: "session_ok ?c"
    using assms by (simp add: session_ok_def)
  have "quiet node (?node\<lparr>nd_db := db\<rparr>)" if "addPeerConnToDB a (nd_nextConn node) (nd_db node) = Inr db" for a db
    using peer_evolves [OF _ that] new by (auto simp: quiet_def conns_ok_def less_Suc_eq)
  from this show ?thesis
    by (auto simp: open_peer_session_def new_conn_def Let_def bind_res_eq_Inr intro!: postI)
qed

lemma quiet_session:
  assumes "session_sizes s"
  shows "post (start_session conn (messages, s) node) (quiet node)"
proof (rule postI)
  fix node' assume "start_session conn (messages, s) node = Inr node'"
  then obtain r where "open_peer_session conn (ss_key s) (ss_baseIV s) (ss_startSeq s) (ss_peer s)
      (foldl (\<lambda>node m. tcp_write conn m node) node messages) = Inr (r, node')"
    by (auto simp: start_session_def bind_res_eq_Inr)
  then have "quiet (foldl (\<lambda>node m. tcp_write conn m node) node messages) node'"
    using postD [OF quiet_open_session] assms by (fastforce simp: session_sizes_def)
  with quiet_writes show "quiet node node'"
    by (rule quiet_trans)
qed

text \<open>The random source fills the buffers it is asked to fill.\<close>

definition random_ok :: "Env \<Rightarrow> bool" where
  "random_ok env \<longleftrightarrow> (\<forall>conn n. (\<exists>b. env_randKey env conn n = Inr b \<and> length b = n) \<and>
     (\<exists>b. env_randIV env conn n = Inr b \<and> length b = n) \<and> (\<exists>b. env_randSeq env conn n = Inr b \<and> length b = n))"

lemma random_bytes: "(\<exists>b. rand n = Inr b \<and> length b = n) \<Longrightarrow> length (or_nil (generateNRandomBytes rand n)) = n"
  by (auto simp: generateNRandomBytes_def or_nil_def)

lemma offered_sizes:
  assumes "offerPeerHandshake rs client db rngPair rng randKey randIV randSeq read1 read2 = Inr (messages, s)"
    and "\<forall>n. \<exists>b. randKey n = Inr b \<and> length b = n" and "\<forall>n. \<exists>b. randIV n = Inr b \<and> length b = n"
    and "\<forall>n. \<exists>b. randSeq n = Inr b \<and> length b = n"
  shows "session_sizes s"
  using assms random_bytes by (auto simp: offerPeerHandshake_def bind_res_eq_Inr Let_def session_sizes_def
      createAESKey_def split: if_split_asm)

lemma quiet_dial:
  assumes "random_ok env"
  shows "post (ConnectToPeer env client k ip node) (\<lambda>(err, node'). quiet node node')"
proof -
  have "quiet node node'"
    if "offerPeerHandshake (env_rsa env) client db n1 n2 (env_randKey env conn) (env_randIV env conn)
        (env_randSeq env conn) r1 r2 = Inr (messages, s)"
      "start_session conn (messages, s) (tcp_write conn [peerConn] node) = Inr node'"
    for conn db n1 n2 r1 r2 messages s node'
    using quiet_trans [OF quiet_io(5) postD [OF quiet_session that(2)]] offered_sizes [OF that(1)] assms
    by (simp add: random_ok_def)
  then show ?thesis
    by (auto simp: ConnectToPeer_def writeConnectionType_def bind_res_eq_Inr split: sum.split intro!: postI)
qed

lemma quiet_try_addresses:
  assumes "random_ok env"
  shows "post (try_addresses env client ips (k, node)) (\<lambda>(k', node'). quiet node node')"
proof (induction ips arbitrary: k node)
  case (Cons ip ips)
  show ?case
  proof (rule postI)
    fix st assume "try_addresses env client (ip # ips) (k, node) = Inr st"
    then obtain err node1 where step: "ConnectToPeer env client k (ip @ '':'' @ DefaultPort) node = Inr (err, node1)"
        "(case err of None \<Rightarrow> Inr (Suc k, node1) | Some _ \<Rightarrow> try_addresses env client ips (Suc k, node1)) = Inr st"
      by (auto simp: bind_res_eq_Inr)
    have "quiet node node1"
      using postD [OF quiet_dial [OF assms] step(1)] by simp
    then show "case st of (k', node') \<Rightarrow> quiet node node'"
      using step(2) Cons.IH [of "Suc k" node1] by (auto simp: post_def split: option.split_asm intro: quiet_trans)
  qed
qed simp

lemma quiet_dial_all:
  assumes "random_ok env"
  shows "post (ConnectToPeersAuto env client node) (quiet node)"
proof (rule postI)
  fix node' assume "ConnectToPeersAuto env client node = Inr node'"
  then obtain ns k where loop: "fold_res (\<lambda>neighbor (k, node).
         if IsNodeRegistered (nd_db node) neighbor then
           bind_res (GetNodeIPs client neighbor) (\<lambda>neighborIPs. try_addresses env client neighborIPs (k, node))
         else Inr (k, node)) ns (0, node) = Inr (k, node')"
    by (auto simp: ConnectToPeersAuto_def bind_res_eq_Inr)
  have "case (k, node') of (k, n) \<Rightarrow> quiet node n"
    using loop
    by (rule fold_res_invariant)
      (auto simp: bind_res_eq_Inr split: if_split_asm dest!: postD [OF quiet_try_addresses [OF assms]] intro: quiet_trans)
  then show "quiet node node'"
    by simp
qed

lemma accepted_sizes:
  assumes "acceptPeerHandshake rs client db rngPair rng read1 read2 = Inr (messages, s)"
  shows "session_sizes s"
proof -
  obtain m1 ack where "messages = [m1, ack]"
    using assms by (auto simp: acceptPeerHandshake_def bind_res_eq_Inr)
  then show ?thesis
    using accept_parts assms by (simp add: session_sizes_def)
qed

lemma quiet_accept: "post (accept_connection env lnClient conn node) (quiet node)"
proof (rule postI)
  fix node' assume ok: "accept_connection env lnClient conn node = Inr node'"
  consider "readConnectionType (env_reads env conn 0) = peerConn"
    | "readConnectionType (env_reads env conn 0) = destinationConn"
    | "readConnectionType (env_reads env conn 0) \<notin> {peerConn, destinationConn}"
    by auto
  then show "quiet node node'"
  proof cases
    case 1
    then obtain messages s where "acceptPeerHandshake (env_rsa env) lnClient (nd_db node) (env_rngPair env conn)
        (env_rng env conn) (env_reads env conn 1) (env_reads env conn 2) = Inr (messages, s)"
        "start_session conn (messages, s) node = Inr node'"
      using ok by (auto simp: accept_connection_def bind_res_eq_Inr)
    then show ?thesis
      using postD [OF quiet_session] accepted_sizes by blast
  next
    case 2
    then show ?thesis
      using ok quiet_announced by (auto simp: accept_destination_eq)
  next
    case 3
    then show ?thesis
      using ok by (simp add: accept_connection_def)
  qed
qed

section \<open>Searching a route\<close>

lemma quiet_receive: "post (ReceiveRouteFromDestination delivered t node) (\<lambda>(route, node'). quiet node node')"
  by (auto simp: ReceiveRouteFromDestination_def Let_def split: option.split intro!: postI
      intro: postD [OF quiet_close])

lemma quiet_probe: "post (probe_route env c client route node) (\<lambda>(result, node'). quiet node node')"
proof (rule postI, clarify)
  fix result node' assume probe: "probe_route env c client route node = Inr (result, node')"
  then obtain hop where hop: "addHopToRoute client (nd_db node) route = Inr hop"
    by (auto simp: probe_route_def bind_res_eq_Inr)
  show "quiet node node'"
  proof (cases hop)
    case (Inl err)
    then show ?thesis
      using probe hop by (simp add: probe_route_def)
  next
    case (Inr next_hop)
    have "quiet node node'"
      if "ForwardRoute c route1 a node = Inr n" "ReceiveRouteFromDestination delivered t n = Inr (route2, node')"
      for a route1 n delivered t route2
      using quiet_trans [OF postD [OF quiet_forward that(1)]] postD [OF quiet_receive that(2)] by simp
    then show ?thesis
      using probe hop Inr by (cases next_hop) (auto simp: probe_route_def bind_res_eq_Inr Let_def)
  qed
qed

lemma quiet_manual: "post (GetRouteManual env c client t d ip node) (\<lambda>(result, node'). quiet node node')"
proof (rule postI, clarify)
  fix result node' assume ok: "GetRouteManual env c client t d ip node = Inr (result, node')"
  obtain err n where dial: "ConnectToDestination env 0 ip t node = (err, n)"
    by fastforce
  have "node' = node \<or> probe_route env c client (createRoute t d) n = Inr (result, node')"
    using ok dial by (auto simp: GetRouteManual_def bind_res_eq_Inr Let_def split: if_split_asm)
  then show "quiet node node'"
    using quiet_trans [OF quiet_destination [OF dial]] postD [OF quiet_probe] by fastforce
qed

lemma quiet_auto: "post (GetRouteAuto env c client t d node) (\<lambda>(result, node'). quiet node node')"
proof (rule postI, clarify)
  fix result node' assume "GetRouteAuto env c client t d node = Inr (result, node')"
  then have "node' = node \<or> (\<exists>n. ConnectToDestinationAuto env client d t node = Inr n \<and>
      probe_route env c client (createRoute t d) n = Inr (result, node'))"
    by (auto simp: GetRouteAuto_def bind_res_eq_Inr Let_def split: if_split_asm)
  then show "quiet node node'"
    using postD [OF quiet_destination_auto] postD [OF quiet_probe] by (fastforce intro: quiet_trans)
qed

end
