(* ===== verification/Node_Steps.thy ===== *)
theory Node_Steps
  imports Node_Frame
begin

text \<open>
  The whole node as a state machine: the state is the \<open>Node\<close> with its database and connections, and the
  files; a step is one operation of one of its goroutines, or a restart. The operations come in any
  order, as the goroutines of \<open>main\<close> run side by side.
\<close>

section \<open>Steps\<close>

inductive node_step :: "Node \<times> disk \<Rightarrow> Node \<times> disk \<Rightarrow> bool" where
  message: "handle_message c lnClient pk r encrypted node = Inr out \<Longrightarrow> node_step (node, dk) (outcome_node out, dk)"
| request: "send_table_request c r node = Inr out \<Longrightarrow> node_step (node, dk) (outcome_node out, dk)"
| accept: "accept_connection env lnClient conn node = Inr node' \<Longrightarrow> node_step (node, dk) (node', dk)"
| dial: "random_ok env \<Longrightarrow> ConnectToPeer env lnClient k ipAddress node = Inr (err, node') \<Longrightarrow>
    node_step (node, dk) (node', dk)"
| dial_all: "random_ok env \<Longrightarrow> ConnectToPeersAuto env lnClient node = Inr node' \<Longrightarrow> node_step (node, dk) (node', dk)"
| search_manual: "GetRouteManual env c lnClient token a ipAddress node = Inr (result, node') \<Longrightarrow>
    node_step (node, dk) (node', dk)"
| search_auto: "GetRouteAuto env c lnClient token a node = Inr (result, node') \<Longrightarrow> node_step (node, dk) (node', dk)"
| balance: "sync_channel lnClient routingEntries localChannel (nd_db node) = Inr db \<Longrightarrow>
    node_step (node, dk) (node\<lparr>nd_db := db\<rparr>, dk)"
| register: "take_registration lnClient registration (nd_db node, dk) = Inr (db, dk') \<Longrightarrow>
    node_step (node, dk) (node\<lparr>nd_db := db\<rparr>, dk')"
| block: "updateBlockHeight h (nd_db node, dk) = Inr (db, dk') \<Longrightarrow> node_step (node, dk) (node\<lparr>nd_db := db\<rparr>, dk')"
| local: "node_step (node, dk) (node\<lparr>nd_db := SaveLocalAddress a (nd_db node)\<rparr>, dk)"
| save: "node_step (node, dk) (node, SaveRoutingDBToFile (nd_db node) dk)"
| restart: "ReadDBFromDisk dataPath dk = Inr (db, dk') \<Longrightarrow> node_step (node, dk) (fresh_node db, dk')"

inductive node_reachable :: "Node \<times> disk \<Rightarrow> bool" where
  first: "ReadDBFromDisk dataPath \<lparr>dk_address = None, dk_routing = None\<rparr> = Inr (db, dk) \<Longrightarrow>
    node_reachable (fresh_node db, dk)"
| step: "node_reachable st \<Longrightarrow> node_step st st' \<Longrightarrow> node_reachable st'"

inductive_cases node_stepE [elim]: "node_step (node, dk) st'"

section \<open>The invariant\<close>

definition node_ok :: "Node \<times> disk \<Rightarrow> bool" where
  "node_ok = (\<lambda>(node, dk). node_inv (nd_db node) \<and> conns_ok node \<and> (\<exists>infos. on_disk infos (nd_db node, dk)))"

text \<open>Nothing that is registered changes its owner.\<close>

definition owners_kept :: "Node \<times> disk \<Rightarrow> Node \<times> disk \<Rightarrow> bool" where
  "owners_kept st st' \<longleftrightarrow> owner (nd_db (fst st)) \<subseteq>\<^sub>m owner (nd_db (fst st'))"

lemma quiet_step:
  assumes "quiet node node'" and "node_ok (node, dk)"
  shows "node_ok (node', dk) \<and> owners_kept (node, dk) (node', dk)"
  using assms by (auto simp: quiet_def node_ok_def on_disk_def owners_kept_def)

lemma same_conns:
  assumes "conns_ok node" and "peer_ref db = peer_ref (nd_db node)" and "db_destConns db = db_destConns (nd_db node)"
  shows "conns_ok (node\<lparr>nd_db := db\<rparr>)"
  using assms by (simp add: conns_ok_def)

lemma conns_ok_fresh: "peer_ref db = Map.empty \<Longrightarrow> db_destConns db = Map.empty \<Longrightarrow> conns_ok (fresh_node db)"
  by (simp add: conns_ok_def fresh_node_def)

lemma node_step_ok:
  assumes "node_step st st'" and "node_ok st"
  shows "node_ok st' \<and> owners_kept st st'"
  using assms
proof (induction rule: node_step.induct)
  case (message c lnClient pk r encrypted node out dk)
  then show ?case
    using quiet_step postD [OF quiet_handle_message] by blast
next
  case (request c r node out dk)
  then show ?case
    using quiet_step postD [OF quiet_table_request] by blast
next
  case (accept env lnClient conn node node' dk)
  then show ?case
    using quiet_step postD [OF quiet_accept] by blast
next
  case (dial env lnClient k ipAddress node err node' dk)
  then show ?case
    using quiet_step postD [OF quiet_dial] by fastforce
next
  case (dial_all env lnClient node node' dk)
  then show ?case
    using quiet_step postD [OF quiet_dial_all] by blast
next
  case (search_manual env c lnClient token a ipAddress node result node' dk)
  then show ?case
    using quiet_step postD [OF quiet_manual] by fastforce
next
  case (search_auto env c lnClient token a node result node' dk)
  then show ?case
    using quiet_step postD [OF quiet_auto] by fastforce
next
  case (balance lnClient routingEntries localChannel node db dk)
  then show ?case
    using quiet_step [OF quiet_evolves] balance_evolves by blast
next
  case (register lnClient registration node dk db dk')
  then obtain infos new where "on_disk (infos @ new) (db, dk')" "node_inv db" "peer_ref db = peer_ref (nd_db node)"
      "db_destConns db = db_destConns (nd_db node)" "\<forall>a. registered (nd_db node) a \<longrightarrow> owner db a = owner (nd_db node) a"
    using on_disk_register unfolding node_ok_def by fastforce
  then show ?case
    using register.prems same_conns
    by (auto simp: node_ok_def owners_kept_def map_le_def owner_registered dom_def)
next
  case (block h node dk db dk')
  then show ?case
    using on_disk_height same_conns by (fastforce simp: node_ok_def owners_kept_def)
next
  case (local node dk a)
  then show ?case
    using same_conns by (auto simp: node_ok_def owners_kept_def SaveLocalAddress_def)
next
  case (save node dk)
  then show ?case
    using on_disk_save by (auto simp: node_ok_def owners_kept_def)
next
  case (restart dataPath dk db dk' node)
  then show ?case
    using on_disk_boot [of _ "nd_db node" dk dataPath] conns_ok_fresh
    by (fastforce simp: node_ok_def owners_kept_def fresh_node_def)
qed

lemma node_reachable_ok: "node_reachable st \<Longrightarrow> node_ok st"
proof (induction rule: node_reachable.induct)
  case (first dataPath db dk)
  then show ?case
    using on_disk_first [of dataPath] conns_ok_fresh by (auto simp: node_ok_def fresh_node_def)
next
  case (step st st')
  then show ?case
    using node_step_ok by blast
qed

lemma owners_kept_trans: "owners_kept a b \<Longrightarrow> owners_kept b c \<Longrightarrow> owners_kept a c"
  unfolding owners_kept_def by (rule map_le_trans)

lemma node_steps_ok: "node_step\<^sup>*\<^sup>* st st' \<Longrightarrow> node_ok st \<Longrightarrow> node_ok st' \<and> owners_kept st st'"
proof (induction rule: rtranclp_induct)
  case (step st1 st2)
  then show ?case
    using node_step_ok owners_kept_trans by blast
qed (simp add: owners_kept_def)

lemma node_reachable_steps: "node_step\<^sup>*\<^sup>* st st' \<Longrightarrow> node_reachable st \<Longrightarrow> node_reachable st'"
  by (induction rule: rtranclp_induct) (auto intro: node_reachable.step)

section \<open>The program takes these steps\<close>

lemma registrations_are_steps:
  assumes "fold_res (take_registration lnClient) registrations (nd_db node, dk) = Inr (db, dk')"
  shows "node_step\<^sup>*\<^sup>* (node, dk) (node\<lparr>nd_db := db\<rparr>, dk')"
  using assms
proof (induction registrations arbitrary: node dk)
  case (Cons registration registrations)
  then obtain db1 dk1 where "take_registration lnClient registration (nd_db node, dk) = Inr (db1, dk1)"
      "fold_res (take_registration lnClient) registrations (db1, dk1) = Inr (db, dk')"
    by (auto simp: bind_res_eq_Inr)
  then have "node_step (node, dk) (node\<lparr>nd_db := db1\<rparr>, dk1)"
      "node_step\<^sup>*\<^sup>* (node\<lparr>nd_db := db1\<rparr>, dk1) (node\<lparr>nd_db := db\<rparr>, dk')"
    using node_step.register Cons.IH [of "node\<lparr>nd_db := db1\<rparr>" dk1] by simp_all
  then show ?case
    by (rule converse_rtranclp_into_rtranclp)
next
  case Nil
  then have "nd_db node = db" "dk = dk'"
    by simp_all
  then show ?case
    by (cases node) auto
qed

lemma update_is_steps:
  assumes "UpdateAddressDB bitcoind lnClient (nd_db node, dk) = Some (Inr (db, dk'))"
  shows "node_step\<^sup>*\<^sup>* (node, dk) (node\<lparr>nd_db := db\<rparr>, dk')"
proof -
  obtain registrations db1 dk1 h where steps:
      "fold_res (take_registration lnClient) registrations (nd_db node, dk) = Inr (db1, dk1)"
      "updateBlockHeight h (db1, dk1) = Inr (db, dk')"
    using assms by (auto simp: UpdateAddressDB_def sync_addresses_def bind_res_eq_Inr
        split: sum.split_asm option.split_asm)
  have "node_step (node\<lparr>nd_db := db1\<rparr>, dk1) (node\<lparr>nd_db := db1\<rparr>\<lparr>nd_db := db\<rparr>, dk')"
    using steps(2) by (intro node_step.block) simp
  then show ?thesis
    using registrations_are_steps [OF steps(1)] by simp
qed

text \<open>The start, from the database that has been read from the files.\<close>

lemma start_is_steps:
  assumes "main_start env dataPath parse6 lib bitcoind lnClient dk input = Some (Inr (node, dk', rest))"
    and "random_ok env"
  shows "\<exists>db0 dk0. ReadDBFromDisk dataPath dk = Inr (db0, dk0) \<and> node_step\<^sup>*\<^sup>* (fresh_node db0, dk0) (node, dk')"
proof -
  obtain db0 dk0 db a where start: "ReadDBFromDisk dataPath dk = Inr (db0, dk0)"
      "UpdateAddressDB bitcoind lnClient (db0, dk0) = Some (Inr (db, dk'))"
      "ConnectToPeersAuto env lnClient (fresh_node (SaveLocalAddress a db)) = Inr node"
    using assms(1) by (auto simp: main_start_def start_database_def bind_opt_eq_Inr bind_res_eq_Inr)
  have "node_step\<^sup>*\<^sup>* (fresh_node db0, dk0) (fresh_node db, dk')"
    using update_is_steps [of bitcoind lnClient "fresh_node db0" dk0] start(2) by (simp add: fresh_node_def)
  also have "node_step (fresh_node db, dk') (fresh_node (SaveLocalAddress a db), dk')"
    using node_step.local [of "fresh_node db" dk' a] by (simp add: fresh_node_def)
  also have "node_step (fresh_node (SaveLocalAddress a db), dk') (node, dk')"
    using node_step.dial_all [OF assms(2) start(3)] .
  finally show ?thesis
    using start(1) by blast
qed

lemma menu_round_is_step:
  assumes "menu_round env c lnClient parse6 token input node dk = Inr (MenuGoesOn screen rest node')" and "random_ok env"
  shows "node' = node \<or> node_step (node, dk) (node', dk)"
  using assms by (auto simp: menu_round_def bind_res_eq_Inr Let_def split: if_split_asm option.split_asm prod.split_asm
      intro: node_step.intros)

lemma menu_is_steps:
  assumes "optionMenu env c lnClient parse6 token k input node dk = Inr (MenuExits dk')" and "\<forall>k. random_ok (env k)"
  shows "\<exists>node'. node_step\<^sup>*\<^sup>* (node, dk) (node', dk) \<and> dk' = SaveRoutingDBToFile (nd_db node') dk"
  using assms
proof (induction env c lnClient parse6 token k input node dk rule: optionMenu.induct)
  case (1 env c lnClient parse6 token k input node dk)
  note exits = "1.prems"(1)
  obtain out where out: "menu_round (env k) c lnClient parse6 (token k) input node dk = Inr out"
    using exits by (subst (asm) optionMenu.simps) (auto simp: bind_res_eq_Inr)
  show ?case
  proof (cases out)
    case (MenuGoesOn screen rest node1)
    then have "node1 = node \<or> node_step (node, dk) (node1, dk)"
      using menu_round_is_step out "1.prems"(2) by blast
    moreover have "optionMenu env c lnClient parse6 token (Suc k) rest node1 dk = Inr (MenuExits dk')"
      using exits out MenuGoesOn by (subst (asm) optionMenu.simps) simp
    ultimately show ?thesis
      using "1.IH" [OF out MenuGoesOn] "1.prems"(2) by (blast intro: converse_rtranclp_into_rtranclp)
  next
    case (MenuExits dk1)
    then have "dk1 = SaveRoutingDBToFile (nd_db node) dk"
      using out by (auto simp: menu_round_def bind_res_eq_Inr Let_def split: if_split_asm option.split_asm prod.split_asm)
    then show ?thesis
      using exits out MenuExits by (subst (asm) optionMenu.simps) auto
  next
    case MenuHangs
    then show ?thesis
      using exits out by (subst (asm) optionMenu.simps) simp
  qed
qed

section \<open>Properties\<close>

lemma on_disk_restart:
  assumes "on_disk infos (db, dk)" and "node_inv db"
  shows "\<exists>db' dk'. ReadDBFromDisk dataPath dk = Inr (db', dk') \<and> getBlockHeight db' = getBlockHeight db \<and>
    (\<forall>a. IsAddressRegistered db' a = IsAddressRegistered db a \<and> GetAddressNode db' a = GetAddressNode db a) \<and>
    (\<forall>pk. GetNodeAddress db' pk = GetNodeAddress db pk)"
proof -
  obtain db' dk' where read: "ReadDBFromDisk dataPath dk = Inr (db', dk')" and inv: "node_inv db'"
    and disk: "on_disk infos (db', dk')" and owner: "owner db' = owner db" and height: "db_height db' = db_height db"
    using on_disk_boot [OF assms] by blast
  have "db_ok db" "db_ok db'" "db_keyToAddressMap db' = db_keyToAddressMap db"
    using assms inv disk by (simp_all add: node_inv_def on_disk_def)
  moreover from this have "GetAddressNode db' a = GetAddressNode db a" for a
    using fun_cong [OF owner, of a] by (auto simp: GetAddressNode_eq owner_def split: option.splits)
  ultimately show ?thesis
    using read owner height by (auto simp: getBlockHeight_def IsAddressRegistered_eq owner_registered GetNodeAddress_eq)
qed

text \<open>
  C1: a node can restart at any time. Whatever the goroutines of a node have done and in whatever order,
  restarts included, reading its two files succeeds and gives a database with the same registered
  addresses, the same node for every address, the same address for every node and the same height
  as the one in memory.
\<close>

theorem reachable_node_can_restart:
  assumes "node_reachable (node, dk)"
  shows "\<exists>db' dk'. ReadDBFromDisk dataPath dk = Inr (db', dk') \<and> getBlockHeight db' = getBlockHeight (nd_db node) \<and>
    (\<forall>a. IsAddressRegistered db' a = IsAddressRegistered (nd_db node) a \<and>
      GetAddressNode db' a = GetAddressNode (nd_db node) a) \<and>
    (\<forall>pk. GetNodeAddress db' pk = GetNodeAddress (nd_db node) pk)"
  using node_reachable_ok [OF assms] on_disk_restart unfolding node_ok_def by blast

text \<open>
  C8: connections are of their kind. In every reachable node the connection of a peer has a key, an
  IV and a sequence number of the right sizes, so any message can be sent on it without a fault; it
  is never the connection of an announced token, which has no key; and both have been made.
\<close>

theorem reachable_connections_typed:
  assumes "node_reachable (node, dk)" and "getPeerConn (nd_db node) a = Inr (Some r)"
  shows "session_ok (nd_conns node r) \<and> (\<exists>node'. send_message c r message node = Inr node') \<and>
    r < nd_nextConn node \<and>
    (getDestConn (nd_db node) token = Some r' \<longrightarrow>
       r' \<noteq> r \<and> ci_sessionKey (nd_conns node r') = [] \<and> r' < nd_nextConn node)"
proof -
  have ok: "node_inv (nd_db node)" "conns_ok node"
    using node_reachable_ok [OF assms(1)] by (auto simp: node_ok_def)
  then have "peer_ref (nd_db node) a = Some r"
    using assms(2) by (auto simp: getPeerConn_eq node_inv_def peer_ref_def split: option.splits)
  then have r: "r < nd_nextConn node" "session_ok (nd_conns node r)"
    using ok(2) by (auto simp: conns_ok_def)
  then have "ci_sessionKey (nd_conns node r) \<noteq> []"
    by (auto simp: session_ok_def aes_sizes)
  then show ?thesis
    using r ok(2) send_message_eq [OF r(2), of c message] by (auto simp: conns_ok_def getDestConn_def)
qed

lemma registered_kept:
  assumes "node_reachable (node, dk)" and "node_step\<^sup>*\<^sup>* (node, dk) (node', dk')"
    and "IsAddressRegistered (nd_db node) a = Inr True"
  shows "IsAddressRegistered (nd_db node') a = Inr True \<and>
    GetAddressNode (nd_db node') a = GetAddressNode (nd_db node) a"
proof -
  have "node_ok (node, dk)" "node_ok (node', dk')" "owner (nd_db node) \<subseteq>\<^sub>m owner (nd_db node')"
    using node_steps_ok [OF assms(2)] node_reachable_ok [OF assms(1)] by (simp_all add: owners_kept_def)
  moreover from this have ok: "db_ok (nd_db node)" "db_ok (nd_db node')"
    by (simp_all add: node_ok_def node_inv_def)
  moreover obtain info where "addr_map (nd_db node) a = Some info"
    using assms(3) ok by (auto simp: IsAddressRegistered_eq registered_def)
  ultimately show ?thesis
    using map_le_SomeD [of "owner (nd_db node)" "owner (nd_db node')" a]
    by (auto simp: GetAddressNode_eq IsAddressRegistered_eq registered_def owner_def)
qed

text \<open>
  C6: a registration is permanent. An address registered in a reachable node keeps its node
  through everything the node does later, restarts included.
\<close>

theorem registrations_survive_restarts:
  assumes "node_reachable (node, dk)" and "node_step\<^sup>*\<^sup>* (node, dk) (node', dk')"
    and "IsAddressRegistered (nd_db node) a = Inr True"
  shows "IsAddressRegistered (nd_db node') a = Inr True \<and>
    GetAddressNode (nd_db node') a = GetAddressNode (nd_db node) a"
  by (rule registered_kept [OF assms])

text \<open>
  C7: a run of the program. Let the program start without files, or with those of a reachable
  node, run its start-up and its menu until it exits. Then the state the menu started in and the one
  it has left are reachable, and the next start reads from the files every registration the menu
  started with, with its node.
\<close>

theorem program_run_is_reachable:
  assumes "dk = \<lparr>dk_address = None, dk_routing = None\<rparr> \<or> (\<exists>node0. node_reachable (node0, dk))"
    and "main_start env dataPath parse6 lib bitcoind lnClient dk input = Some (Inr (node, dk1, rest))"
    and "optionMenu envs c lnClient parse6 tokens k rest node dk1 = Inr (MenuExits dk2)"
    and "random_ok env" and "\<forall>k. random_ok (envs k)"
  shows "node_reachable (node, dk1) \<and> (\<exists>node2 db dk3. node_reachable (node2, dk2) \<and>
    ReadDBFromDisk dataPath dk2 = Inr (db, dk3) \<and>
    (\<forall>a. IsAddressRegistered (nd_db node) a = Inr True \<longrightarrow>
       IsAddressRegistered db a = Inr True \<and> GetAddressNode db a = GetAddressNode (nd_db node) a))"
proof -
  obtain db0 dk0 where start: "ReadDBFromDisk dataPath dk = Inr (db0, dk0)" "node_step\<^sup>*\<^sup>* (fresh_node db0, dk0) (node, dk1)"
    using start_is_steps [OF assms(2,4)] by blast
  have "node_reachable (fresh_node db0, dk0)"
    using assms(1) start(1) node_reachable.first node_reachable.step node_step.restart by blast
  then have reach: "node_reachable (node, dk1)"
    by (rule node_reachable_steps [OF start(2)])
  obtain node2 where run: "node_step\<^sup>*\<^sup>* (node, dk1) (node2, dk1)" "dk2 = SaveRoutingDBToFile (nd_db node2) dk1"
    using menu_is_steps [OF assms(3,5)] by blast
  then have steps: "node_step\<^sup>*\<^sup>* (node, dk1) (node2, dk2)"
    using node_step.save by (metis rtranclp.rtrancl_into_rtrancl)
  have "node_reachable (node2, dk2)"
    by (rule node_reachable_steps [OF steps reach])
  moreover obtain db dk3 where restart: "ReadDBFromDisk dataPath dk2 = Inr (db, dk3)"
    using node_reachable_ok [OF calculation] on_disk_restart unfolding node_ok_def by blast
  moreover have "IsAddressRegistered db a = Inr True \<and> GetAddressNode db a = GetAddressNode (nd_db node) a"
    if "IsAddressRegistered (nd_db node) a = Inr True" for a
    using registered_kept [OF reach _ that, of "fresh_node db" dk3]
      rtranclp.rtrancl_into_rtrancl [OF steps node_step.restart [OF restart]]
    by (simp add: fresh_node_def)
  ultimately show ?thesis
    using reach by blast
qed

section \<open>An example\<close>

lemma example_random: "random_ok example_env"
  by (simp add: random_ok_def example_env_def)

text \<open>The first start of a node whose registration is in the first block.\<close>

lemma example_first_start:
  "\<exists>node dk. main_start example_env ''data'' parse6 lib (example_chain a) (example_lnd [])
      \<lparr>dk_address = None, dk_routing = None\<rparr> input = Some (Inr (node, dk, input)) \<and>
    node_reachable (node, dk) \<and> nd_nextConn node = 0 \<and>
    IsAddressRegistered (nd_db node) a = Inr True \<and> IsNodeRegistered (nd_db node) (example_key 1) \<and>
    GetNodeAddress (nd_db node) (example_key 1) = Inr (a, True)"
proof -
  obtain db0 dk0 where first: "ReadDBFromDisk ''data'' \<lparr>dk_address = None, dk_routing = None\<rparr> = Inr (db0, dk0)"
      "node_inv db0" "on_disk [] (db0, dk0)" "db_height db0 = genesisBlock"
    using on_disk_first [of "''data''"] by blast
  have empty: "mirrored [] (db0, dk0)" "db_height db0 = 0" "db_keyToAddressMap db0 (example_key 1) = None"
    using first on_disk_registered [OF first(3)]
    by (simp_all add: mirrored_def on_disk_def node_inv_def file_keys_def genesisBlock_def)
  obtain db dk where synced: "UpdateAddressDB (example_chain a) (example_lnd []) (db0, dk0) = Some (Inr (db, dk))"
      "registered db a" "GetNodeAddress db (example_key 1) = Inr (a, True)"
    using example_synchronised [OF empty] by blast
  let ?node = "fresh_node (SaveLocalAddress a db)"
  have read: "start_database ''data'' (example_chain a) (example_lnd []) \<lparr>dk_address = None, dk_routing = None\<rparr> =
      Some (Inr (db, dk))"
    using first(1) synced(1) by (simp add: start_database_def)
  have "GetLocalNodePubKey (example_lnd []) = Inr (example_key 1)"
    by (simp add: GetLocalNodePubKey_def example_lnd_def example_key_def)
  then have addr: "local_address parse6 lib (example_chain a) (example_lnd []) db input = Some (Inr (a, input))"
    using synced(3) by (simp add: local_address_def verifyLocalAddressRegistration_def)
  have "GetLocalNodeNeighboursPubKeys (example_lnd []) = Inr []"
    by (simp add: GetLocalNodeNeighboursPubKeys_def example_lnd_def)
  then have "ConnectToPeersAuto example_env (example_lnd []) ?node = Inr ?node"
    by (simp add: ConnectToPeersAuto_def)
  then have started: "main_start example_env ''data'' parse6 lib (example_chain a) (example_lnd [])
      \<lparr>dk_address = None, dk_routing = None\<rparr> input = Some (Inr (?node, dk, input))"
    using read addr by (simp add: main_start_def)
  have "node_reachable (fresh_node db0, dk0)"
    by (rule node_reachable.first [OF first(1)])
  then have reach: "node_reachable (?node, dk)"
    using start_is_steps [OF started example_random] first(1) node_reachable_steps by auto
  then have ok: "db_ok (nd_db ?node)"
    using node_reachable_ok by (fastforce simp: node_ok_def node_inv_def)
  have "registered (nd_db ?node) a" "GetNodeAddress (nd_db ?node) (example_key 1) = Inr (a, True)"
    using synced(2,3) by (simp_all add: fresh_node_def SaveLocalAddress_def registered_def GetNodeAddress_def
        split: option.splits)
  moreover from this have "IsNodeRegistered (nd_db ?node) (example_key 1)"
    using ok by (simp add: IsNodeRegistered_eq GetNodeAddress_eq split: option.splits)
  moreover have "nd_nextConn ?node = 0"
    by (simp add: fresh_node_def)
  ultimately show ?thesis
    using started reach ok by (intro exI [of _ ?node] exI [of _ dk]) (simp add: IsAddressRegistered_eq)
qed

text \<open>Peer 1 connects to it.\<close>

definition example_peer_env :: Env where
  "example_peer_env = example_env\<lparr>env_reads := (\<lambda>conn k. [[0], example_key_message, 40 # replicate 40 7 @ replicate 215 0] ! k)\<rparr>"

lemma example_with_peer:
  "\<exists>node dk. node_reachable (node, dk) \<and> getPeerConn (nd_db node) (example_address 7) = Inr (Some 0)"
proof -
  obtain node dk where node: "node_reachable (node, dk)" "IsNodeRegistered (nd_db node) (example_key 1)"
      "IsAddressRegistered (nd_db node) (example_address 7) = Inr True" "nd_nextConn node = 0"
      "GetNodeAddress (nd_db node) (example_key 1) = Inr (example_address 7, True)"
    using example_first_start by blast
  have ok: "db_ok (nd_db node)"
    using node_reachable_ok [OF node(1)] by (auto simp: node_ok_def node_inv_def)
  obtain m1 ack s where shaken: "acceptPeerHandshake example_rsa (example_lnd [example_channel 1 10]) (nd_db node) 0 0
       example_key_message (40 # replicate 40 7 @ replicate 215 0) = Inr ([m1, ack], s)" "ss_peer s = example_key 1"
    using example_accept [OF node(2)] by blast
  obtain db where db: "addPeerConnToDB (example_address 7) 0 (nd_db node) = Inr db"
      "getPeerConn db (example_address 7) = Inr (Some 0)"
    using addPeerConnToDB_spec [OF ok, of "example_address 7" 0] node(3) ok by (auto simp: IsAddressRegistered_eq)
  have "\<exists>node'. accept_connection example_peer_env (example_lnd [example_channel 1 10]) 3 node = Inr node' \<and> nd_db node' = db"
    using shaken node(4,5) db(1) by (simp add: accept_connection_def readConnectionType_def peerConn_def example_peer_env_def
        example_env_def start_session_def open_peer_session_def new_conn_def Let_def)
  then show ?thesis
    using node_reachable.step [OF node(1) node_step.accept] db(2) by blast
qed

theorem reachable_node_can_restart_witness:
  "\<exists>node dk db' dk'. node_reachable (node, dk) \<and> ReadDBFromDisk ''data'' dk = Inr (db', dk') \<and>
    GetNodeAddress db' (example_key 1) = Inr (example_address 7, True)"
  using example_first_start reachable_node_can_restart by metis

theorem reachable_connections_typed_witness:
  "\<exists>node dk node'. node_reachable (node, dk) \<and> getPeerConn (nd_db node) (example_address 7) = Inr (Some 0) \<and>
    send_message example_aead 0 [0, 0] node = Inr node'"
  using example_with_peer reachable_connections_typed by blast

theorem registrations_survive_restarts_witness:
  "\<exists>node dk db dk'. node_reachable (node, dk) \<and> node_step (node, dk) (fresh_node db, dk') \<and>
    IsAddressRegistered db (example_address 7) = Inr True"
proof -
  obtain node dk where node: "node_reachable (node, dk)" "IsAddressRegistered (nd_db node) (example_address 7) = Inr True"
    using example_first_start by blast
  then obtain infos where "on_disk infos (nd_db node, dk)" "node_inv (nd_db node)"
    using node_reachable_ok by (auto simp: node_ok_def)
  then obtain db dk' where "ReadDBFromDisk ''data'' dk = Inr (db, dk')"
    using on_disk_boot by blast
  then have restarted: "node_step (node, dk) (fresh_node db, dk')"
    by (rule node_step.restart)
  show ?thesis
    using registrations_survive_restarts [OF node(1) r_into_rtranclp [where r = node_step, OF restarted] node(2)]
      node(1) restarted by (auto simp: fresh_node_def)
qed

theorem program_run_is_reachable_witness:
  "\<forall>lib. \<exists>node dk dk2. main_start example_env ''data'' (\<lambda>_. None) lib (example_chain (example_address 7)) (example_lnd [])
      \<lparr>dk_address = None, dk_routing = None\<rparr> [''0'' @ [newline]] = Some (Inr (node, dk, [''0'' @ [newline]])) \<and>
    node_reachable (node, dk) \<and>
    optionMenu (\<lambda>_. example_env) example_aead (example_lnd []) (\<lambda>_. None) (\<lambda>_. []) 0 [''0'' @ [newline]] node dk =
      Inr (MenuExits dk2) \<and> (\<exists>node2. node_reachable (node2, dk2))" (is "\<forall>lib. ?P lib")
proof
  fix lib
  obtain node dk where node: "main_start example_env ''data'' (\<lambda>_. None) lib (example_chain (example_address 7))
      (example_lnd []) \<lparr>dk_address = None, dk_routing = None\<rparr> [''0'' @ [newline]] = Some (Inr (node, dk, [''0'' @ [newline]]))"
    using example_first_start by blast
  have "Atoi (trim_newline (''0'' @ [newline])) = Inr 0"
    by code_simp
  then have exits: "optionMenu (\<lambda>_. example_env) example_aead (example_lnd []) (\<lambda>_. None) (\<lambda>_. []) 0 [''0'' @ [newline]] node dk =
      Inr (MenuExits (SaveRoutingDBToFile (nd_db node) dk))"
    by (subst optionMenu.simps) (simp add: menu_round_def)
  show "?P lib"
    using program_run_is_reachable [OF disjI1 [OF refl] node exits example_random] example_random node exits by fast
qed

end
