(* ===== verification/Session_Link.thy ===== *)
theory Session_Link
  imports Session_Handler
begin

text \<open>
  A session as a link between two ends that take turns. \<open>link\<close> is what a client of such a link
  relies on: while the ends match and the network delivers the frames of a sender uncut, a message that is
  sent is received unchanged, whatever follows it, and the ends match again. Whole conversations are
  derived from it once; the session of the code, sealing on one end and reading, opening and
  counting on the other, provides it.
\<close>

section \<open>Frames and conversations\<close>

fun send_all :: "('m \<Rightarrow> 'e \<Rightarrow> ('f \<times> 'e) option) \<Rightarrow> 'm list \<Rightarrow> 'e \<Rightarrow> ('f list \<times> 'e) option" where
  "send_all send [] a = Some ([], a)"
| "send_all send (m # ms) a =
     (case send m a of None \<Rightarrow> None
      | Some (frame, a) \<Rightarrow> map_option (\<lambda>(frames, a). (frame # frames, a)) (send_all send ms a))"

fun recv_all :: "('s \<Rightarrow> 'e \<Rightarrow> ('m \<times> 's \<times> 'e) option) \<Rightarrow> nat \<Rightarrow> 's \<Rightarrow> 'e \<Rightarrow> ('m list \<times> 's \<times> 'e) option" where
  "recv_all recv 0 incoming b = Some ([], incoming, b)"
| "recv_all recv (Suc n) incoming b =
     (case recv incoming b of None \<Rightarrow> None
      | Some (m, incoming, b) \<Rightarrow> map_option (\<lambda>(ms, incoming, b). (m # ms, incoming, b)) (recv_all recv n incoming b))"

text \<open>The ends in the order of the side that sends in a turn.\<close>

fun oriented :: "bool \<Rightarrow> 'e \<times> 'e \<Rightarrow> 'e \<times> 'e" where
  "oriented first (a, b) = (if first then (a, b) else (b, a))"

text \<open>
  A conversation: in each turn one side sends messages, the network delivers their frames in some way,
  and the other side reads them.
\<close>

fun converse :: "('m \<Rightarrow> 'e \<Rightarrow> ('f \<times> 'e) option) \<Rightarrow> ('s \<Rightarrow> 'e \<Rightarrow> ('m \<times> 's \<times> 'e) option) \<Rightarrow> ('f list \<Rightarrow> 's) \<Rightarrow>
    (bool \<times> 'm list) list \<Rightarrow> 'e \<times> 'e \<Rightarrow> ('m list list \<times> 'e \<times> 'e) option" where
  "converse send recv network [] ends = Some ([], ends)"
| "converse send recv network ((first, ms) # turns) ends =
     (let (sender, receiver) = oriented first ends in
      case send_all send ms sender of None \<Rightarrow> None
      | Some (frames, sender) \<Rightarrow>
          (case recv_all recv (length ms) (network frames) receiver of None \<Rightarrow> None
           | Some (received, _, receiver) \<Rightarrow>
               map_option (map_prod (\<lambda>more. received # more) id)
                 (converse send recv network turns (oriented first (sender, receiver)))))"

section \<open>The contract\<close>

locale link =
  fixes send :: "'m \<Rightarrow> 'e \<Rightarrow> ('f \<times> 'e) option"
    and recv :: "'s \<Rightarrow> 'e \<Rightarrow> ('m \<times> 's \<times> 'e) option"
    and delivers :: "'f list \<Rightarrow> 's \<Rightarrow> bool"
    and matched :: "'e \<Rightarrow> 'e \<Rightarrow> bool"
    and fits :: "'m \<Rightarrow> bool"
  assumes matched_sym: "matched a b \<Longrightarrow> matched b a"
    and transfer: "matched a b \<Longrightarrow> fits m \<Longrightarrow>
      \<exists>frame a' b'. send m a = Some (frame, a') \<and> matched a' b' \<and>
        (\<forall>frames incoming. delivers (frame # frames) incoming \<longrightarrow>
           (\<exists>rest. recv incoming b = Some (m, rest, b') \<and> delivers frames rest))"
begin

lemma batch:
  assumes "matched a b" and "\<forall>m \<in> set ms. fits m"
  shows "\<exists>frames a' b'. send_all send ms a = Some (frames, a') \<and> matched a' b' \<and>
    (\<forall>later incoming. delivers (frames @ later) incoming \<longrightarrow>
       (\<exists>rest. recv_all recv (length ms) incoming b = Some (ms, rest, b') \<and> delivers later rest))"
  using assms
proof (induction ms arbitrary: a b)
  case (Cons m ms)
  obtain frame a1 b1 where one: "send m a = Some (frame, a1)" "matched a1 b1"
      "\<And>frames incoming. delivers (frame # frames) incoming \<Longrightarrow>
         \<exists>rest. recv incoming b = Some (m, rest, b1) \<and> delivers frames rest"
    using transfer [OF Cons.prems(1)] Cons.prems(2) by force
  obtain frames a' b' where rest: "send_all send ms a1 = Some (frames, a')" "matched a' b'"
      "\<And>later incoming. delivers (frames @ later) incoming \<Longrightarrow>
         \<exists>rest. recv_all recv (length ms) incoming b1 = Some (ms, rest, b') \<and> delivers later rest"
    using Cons.IH [OF one(2)] Cons.prems(2) by auto
  have "\<exists>rest. recv_all recv (length (m # ms)) incoming b = Some (m # ms, rest, b') \<and> delivers later rest"
    if "delivers ((frame # frames) @ later) incoming" for later incoming
    using one(3) [of "frames @ later" incoming] rest(3) [of later] that by fastforce
  then show ?case
    using one(1) rest(1,2) by auto
qed auto

lemma conversation:
  assumes "matched a b" and "\<forall>(first, ms) \<in> set turns. \<forall>m \<in> set ms. fits m"
    and network: "\<And>frames. delivers frames (network frames)"
  shows "\<exists>a' b'. converse send recv network turns (a, b) = Some (map snd turns, a', b') \<and> matched a' b'"
  using assms(1,2)
proof (induction turns arbitrary: a b)
  case (Cons turn turns)
  obtain first ms where turn: "turn = (first, ms)"
    by fastforce
  obtain x y where ends: "oriented first (a, b) = (x, y)" "matched x y"
    using Cons.prems(1) matched_sym by (cases first) auto
  obtain frames x' y' where sent: "send_all send ms x = Some (frames, x')" "matched x' y'"
      "\<And>later incoming. delivers (frames @ later) incoming \<Longrightarrow>
         \<exists>rest. recv_all recv (length ms) incoming y = Some (ms, rest, y') \<and> delivers later rest"
    using batch [OF ends(2), of ms] Cons.prems(2) turn by auto
  obtain rest where received: "recv_all recv (length ms) (network frames) y = Some (ms, rest, y')"
    using sent(3) [of "[]" "network frames"] network [of frames] by auto
  obtain a1 b1 where again: "oriented first (x', y') = (a1, b1)" "matched a1 b1"
    using sent(2) matched_sym by (cases first) auto
  obtain a' b' where "converse send recv network turns (a1, b1) = Some (map snd turns, a', b')" "matched a' b'"
    using Cons.IH [OF again(2)] Cons.prems(2) by auto
  then show ?case
    using turn ends(1) sent(1) received again(1) by simp
qed simp

end

section \<open>The session as a link\<close>

text \<open>The documented behaviour of AES-GCM: what was sealed opens, and is longer by the tag.\<close>

definition cipher_ok :: "aead \<Rightarrow> bool" where
  "cipher_ok c \<longleftrightarrow> (\<forall>k n m. length k = AESKeySize \<longrightarrow> length n = AESBaseIVSize \<longrightarrow>
     gcm_Open c k n (gcm_Seal c k n m) = Inr m \<and> length (gcm_Seal c k n m) = length m + 16)"

lemma cipher_session:
  assumes "cipher_ok c" and "session_ok a"
  shows "gcm_Open c (ci_sessionKey a) (nonce_of a) (gcm_Seal c (ci_sessionKey a) (nonce_of a) m) = Inr m"
    "length (gcm_Seal c (ci_sessionKey a) (nonce_of a) m) = length m + 16"
  using assms by (simp_all add: cipher_ok_def session_ok_def nonce_of_def aes_sizes)

text \<open>An end that sends, and one that takes the next message from what has arrived.\<close>

definition end_send :: "aead \<Rightarrow> u8 list \<Rightarrow> connInfo \<Rightarrow> (u8 list \<times> connInfo) option" where
  "end_send c message conn = (case seal_message c message conn of
     Inl _ \<Rightarrow> None | Inr encryptedMessage \<Rightarrow> Some (encryptedMessage, incrementSeqNumber conn))"

definition end_recv :: "aead \<Rightarrow> u8 list list \<Rightarrow> connInfo \<Rightarrow> (u8 list \<times> u8 list list \<times> connInfo) option" where
  "end_recv c segments conn = (case read_frame segments of
     None \<Rightarrow> None
   | Some (encryptedMessage, rest) \<Rightarrow> (case open_message c encryptedMessage conn of
       Inl _ \<Rightarrow> None | Inr message \<Rightarrow> Some (message, rest, incrementSeqNumber conn)))"

lemma frame_opens:
  assumes "cipher_ok c" and "session_ok a" and "in_step a b" and "length m < 65520"
  obtains frame encrypted where "seal_message c m a = Inr frame" and "open_message c encrypted b = Inr m"
    and "\<forall>frames segments. intact (frame # frames) segments \<longrightarrow>
      (\<exists>rest. read_frame segments = Some (encrypted, rest) \<and> intact frames rest)"
proof -
  have "length (gcm_Seal c (ci_sessionKey a) (nonce_of a) m) < 65536" "gcm_Seal c (ci_sessionKey a) (nonce_of a) m \<noteq> []"
    using cipher_session(2) [OF assms(1,2), of m] assms(4) by auto
  then show thesis
    using session_transfer [OF assms(2,3), of c m] cipher_session(1) [OF assms(1,2)] that by blast
qed

lemma in_step_locked [simp]:
  "in_step (a\<lparr>ci_locked := l\<rparr>) b = in_step a b" "in_step a (b\<lparr>ci_locked := l\<rparr>) = in_step a b"
  by (simp_all add: in_step_def)

interpretation session: link "end_send c" "end_recv c" intact
    "\<lambda>a b. cipher_ok c \<and> session_ok a \<and> in_step a b" "\<lambda>m. length m < 65520"
proof (unfold_locales, goal_cases)
  case (1 a b)
  then show ?case
    by (auto simp: session_ok_def in_step_def)
next
  case (2 a b m)
  then obtain frame encrypted where "seal_message c m a = Inr frame" "open_message c encrypted b = Inr m"
      "\<forall>frames segments. intact (frame # frames) segments \<longrightarrow>
        (\<exists>rest. read_frame segments = Some (encrypted, rest) \<and> intact frames rest)"
    using frame_opens [of c a b m] by blast
  then show ?case
    using 2 in_step_increment [of a b] by (fastforce simp: end_send_def end_recv_def)
qed

section \<open>Properties\<close>

text \<open>
  C5: a session is a reliable link for two ends that take turns, as long as TCP does not cut what is
  read at once. Let two ends of a session be in step, let each read all the other has sent before
  it sends again, and let the network deliver the frames so that every length and every ciphertext lies
  within one segment; it may join any number of them. Then every message of the conversation, of any
  number of turns and messages of less than 65520 bytes, is received as it was sent and in the
  order it was sent, and the ends are in step again.
\<close>

theorem conversation_is_delivered:
  assumes "cipher_ok c" and "session_ok a" and "in_step a b"
    and "\<forall>(first, messages) \<in> set turns. \<forall>m \<in> set messages. length m < 65520"
    and "\<forall>frames. intact frames (network frames)"
  shows "\<exists>a' b'. converse (end_send c) (end_recv c) network turns (a, b) = Some (map snd turns, a', b') \<and>
    session_ok a' \<and> in_step a' b'"
  using session.conversation [of c a b turns network] assms by auto

lemma example_cipher_ok: "cipher_ok example_aead"
  by (simp add: cipher_ok_def example_aead_opens aes_sizes) (simp add: example_aead_def)

text \<open>A network that delivers everything in two kinds of segments: the lengths and the bodies.\<close>

definition example_network :: "u8 list list \<Rightarrow> u8 list list" where
  "example_network frames = concat (map (\<lambda>frame. [take 2 frame, drop 2 frame]) frames)"

lemma example_network_intact: "intact frames (example_network frames)"
proof -
  have "uncut pieces pieces" for pieces
    by (induction pieces) (auto intro: uncut.intros)
  then show ?thesis by (simp add: intact_def example_network_def)
qed

theorem conversation_is_delivered_witness:
  "\<exists>a b. converse (end_send example_aead) (end_recv example_aead) example_network
       [(True, [[0, 0, 7], [0, 2]]), (False, [[0, 1]])] (example_conn, example_conn) =
     Some ([[[0, 0, 7], [0, 2]], [[0, 1]]], a, b) \<and> in_step a b"
  using conversation_is_delivered [OF example_cipher_ok example_conn_ok, of example_conn
      "[(True, [[0, 0, 7], [0, 2]]), (False, [[0, 1]])]" example_network] example_network_intact
  by (auto simp: in_step_def)

end
