(* ===== verification/Table_Learning.thy ===== *)
theory Table_Learning
  imports Disk_State
begin

text \<open>
  Learning the whole table of a peer: what the loop of \<open>processTableResponse\<close> over its entries, each
  passed to \<open>addNewDestinationToDB\<close>, does to the routes of the database.
\<close>

section \<open>Learning a whole table\<close>

abbreviation learn :: "Lnd \<Rightarrow> pubkey \<Rightarrow> destination list \<Rightarrow> DB \<Rightarrow> DB res" where
  "learn lnClient pk \<equiv> fold_res (\<lambda>d. addNewDestinationToDB lnClient d pk)"

text \<open>Learning changes routes only: neither the registry nor who is who.\<close>

definition taught :: "DB \<Rightarrow> DB \<Rightarrow> bool" where
  "taught db db' \<longleftrightarrow> node_inv db' \<and> same_registry db db' \<and> owner db' = owner db"

lemma taught_refl [simp]: "node_inv db \<Longrightarrow> taught db db"
  by (simp add: taught_def)

lemma taught_trans: "taught a b \<Longrightarrow> taught b c \<Longrightarrow> taught a c"
  by (auto simp: taught_def intro: same_registry_trans)

lemma taught_facts:
  assumes "taught db db'"
  shows "node_inv db'" "db_ok db'" "registered db' a = registered db a" "peer_address db' = peer_address db"
    "owner db' = owner db" "db_localAddress db' = db_localAddress db"
    "re_nextHop (offered db' chs dest pk) = peer_address db pk"
  using assms by (auto simp: taught_def node_inv_def same_registry_def peer_address_def fun_eq_iff offered_def)

text \<open>
  The routes afterwards. An address the table does not name keeps its route, and so does the node's own
  and one whose route has a greater capacity than the offer; every other one gets the offer.
\<close>

definition chosen :: "DB \<Rightarrow> Channel list \<Rightarrow> pubkey \<Rightarrow> destination \<Rightarrow> routingEntry option" where
  "chosen db chs pk dest =
     (if d_address dest = getLocalAddress db \<or> worse db (offered db chs dest pk)
      then route_map db (d_address dest) else Some (offered db chs dest pk))"

lemma learn_one:
  assumes "node_inv db" and "rpc_ListChannels lnClient = Inr chs" and "registered db (d_address dest)"
  obtains db' where "addNewDestinationToDB lnClient dest pk db = Inr db'" and "taught db db'"
    and "\<And>a. a \<noteq> d_address dest \<Longrightarrow> route_map db' a = route_map db a"
    and "route_map db' (d_address dest) = chosen db chs pk dest"
proof -
  have ok: "db_ok db" using assms(1) by (simp add: node_inv_def)
  obtain db' where db': "addNewDestinationToDB lnClient dest pk db = Inr db'" "same_registry db db'"
      "route_map db' = (if d_address dest = db_localAddress db \<or> worse db (offered db chs dest pk)
        then route_map db else (route_map db)(d_address dest \<mapsto> offered db chs dest pk))"
    by (rule addNewDestinationToDB_spec [OF ok assms(2,3), of pk])
  have "taught db db'"
    using learn_evolves [OF assms(1) db'(1)] db'(2) by (simp add: taught_def evolves_def)
  then show thesis
    using that [OF db'(1)] db'(3) by (simp add: chosen_def getLocalAddress_def)
qed

lemma chosen_taught:
  assumes "taught db db1" and "route_map db1 (d_address dest) = route_map db (d_address dest)"
  shows "chosen db1 chs pk dest = chosen db chs pk dest"
proof -
  have same: "offered db1 chs dest pk = offered db chs dest pk"
    using assms(1) by (simp add: taught_def same_registry_def offered_def peer_address_def)
  then show ?thesis
    by (simp only: chosen_def worse_def getLocalAddress_def offered_simps same assms(2) taught_facts(6) [OF assms(1)])
qed

lemma learn_routes:
  assumes "node_inv db" and "rpc_ListChannels lnClient = Inr chs" and "\<forall>x \<in> set dests. registered db (d_address x)"
    and "distinct (map d_address dests)"
  shows "\<exists>db'. learn lnClient pk dests db = Inr db' \<and> taught db db' \<and>
    (\<forall>a. a \<notin> d_address ` set dests \<longrightarrow> route_map db' a = route_map db a) \<and>
    (\<forall>x \<in> set dests. route_map db' (d_address x) = chosen db chs pk x)"
  using assms
proof (induction dests arbitrary: db)
  case (Cons x dests)
  obtain db1 where db1: "addNewDestinationToDB lnClient x pk db = Inr db1" "taught db db1"
      "\<And>a. a \<noteq> d_address x \<Longrightarrow> route_map db1 a = route_map db a" "route_map db1 (d_address x) = chosen db chs pk x"
    using learn_one [of db lnClient chs x pk thesis] Cons.prems(1-3) by fastforce
  note kept = taught_facts [OF db1(2)]
  obtain db' where db': "learn lnClient pk dests db1 = Inr db'" "taught db1 db'"
      "\<And>a. a \<notin> d_address ` set dests \<Longrightarrow> route_map db' a = route_map db1 a"
      "\<And>y. y \<in> set dests \<Longrightarrow> route_map db' (d_address y) = chosen db1 chs pk y"
    using Cons.IH [of db1] Cons.prems kept by auto
  have "chosen db1 chs pk y = chosen db chs pk y" if "y \<in> set dests" for y
  proof (rule chosen_taught [OF db1(2)])
    have "d_address y \<in> d_address ` set dests"
      using that by simp
    then show "route_map db1 (d_address y) = route_map db (d_address y)"
      using Cons.prems(4) by (intro db1(3)) auto
  qed
  then show ?case
    using db1 db' Cons.prems(4) by (intro exI [of _ db']) (auto intro: taught_trans)
qed simp

end
