(* ===== verification/Table_Exchange.thy ===== *)
theory Table_Exchange
  imports Session_Link Table_Learning
begin

text \<open>
  A table request between two nodes from end to end: the periodic request of one, the handler of
  the other, and the handler of the first on the response, over the frames the two write.
\<close>

section \<open>A node that handles a message in step\<close>

text \<open>
  What a node on which nothing else happens does with the frame of a message: its handler is entered with
  the mutex taken and the sequence number advanced.
\<close>

definition entered :: "conn_ref \<Rightarrow> Node \<Rightarrow> Node" where
  "entered r node = upd_conn r incrementSeqNumber (mutex_lock r node)"

lemma entered_simps [simp]:
  "nd_db (entered r node) = nd_db node" "nd_written (entered r node) = nd_written node"
  "nd_conns (entered r node) r = incrementSeqNumber ((nd_conns node r)\<lparr>ci_locked := True\<rparr>)"
  by (simp_all add: entered_def)

lemma handle_opened:
  assumes "open_message c encrypted ((nd_conns node r)\<lparr>ci_locked := True\<rparr>) = Inr message"
    and "\<not> ci_locked (nd_conns node r)"
  shows "handle_message c lnClient pk r encrypted node = handle_plain c lnClient pk r message (entered r node)"
  using assms by (simp add: handle_message_def entered_def)

text \<open>Sending on a session whose other end is in step.\<close>

lemma send_in_step:
  assumes "cipher_ok c" and "session_ok (nd_conns node r)" and "in_step (nd_conns node r) b" and "length m < 65520"
  obtains frame encrypted where "seal_message c m (nd_conns node r) = Inr frame"
    and "send_message c r m node = Inr (upd_conn r incrementSeqNumber (conn_write r frame node))"
    and "open_message c encrypted b = Inr m"
    and "\<forall>segments. intact [frame] segments \<longrightarrow> read_frame segments = Some (encrypted, [])"
proof -
  obtain frame encrypted where *: "seal_message c m (nd_conns node r) = Inr frame" "open_message c encrypted b = Inr m"
      "\<forall>frames segments. intact (frame # frames) segments \<longrightarrow>
        (\<exists>rest. read_frame segments = Some (encrypted, rest) \<and> intact frames rest)"
    using frame_opens [OF assms] by blast
  have "read_frame segments = Some (encrypted, [])" if "intact [frame] segments" for segments
    using *(3) that by (fastforce simp: intact_def elim: uncut_NilE)
  then show thesis
    using that [of frame encrypted] *(1,2) by (simp add: send_message_def)
qed

text \<open>A node that gets one frame, handles its message and waits for more until the stream ends.\<close>

lemma read_frame_Nil [simp]: "read_frame [] = None"
  by (simp add: read_frame_def conn_read_def)

lemma one_message:
  assumes "read_frame segments = Some (encrypted, [])"
    and "handle_message c lnClient pk r encrypted node = Inr (Continues node')"
  shows "handlePeerConnection c lnClient pk r segments node = Inr (Returns node')"
  using assms by (simp add: handlePeerConnection.simps [of c lnClient pk r segments]
      handlePeerConnection.simps [of c lnClient pk r "[]"])

section \<open>The three steps\<close>

definition request_of :: "u64 \<Rightarrow> u8 list" where
  "request_of b = be_bytes 2 tableRequestType @ be_bytes 8 b"

definition shared_table :: "DB \<Rightarrow> destination list" where
  "shared_table db = map (\<lambda>r. routingEntryToDestination (db_entries db r)) (getLastRoutingEntries db genesisBlock)"

definition response_of_table :: "DB \<Rightarrow> u8 list" where
  "response_of_table db = be_bytes 2 tableResponseType @ be_bytes 2 (of_nat (length (shared_table db)) :: u16) @
     concat (map serializeDestination (shared_table db))"

lemma length_response: "length (response_of_table db) = 4 + 12 * length (shared_table db)"
  using destination_codec.length_concat_enc [of "shared_table db"]
  by (simp add: response_of_table_def del: length_concat)

lemma handle_request:
  "handle_plain c lnClient pk r (request_of genesisBlock) node =
     bind_res (send_message c r (response_of_table (nd_db node)) node) (\<lambda>node. Inr (Continues (mutex_unlock r node)))"
  using processTableRequest_eq [of genesisBlock "request_of genesisBlock" "nd_db node"]
  by (simp add: handle_plain_def request_of_def type_read response_of_table_def shared_table_def)

lemma handle_response:
  assumes "length (shared_table db) < 65536"
  shows "handle_plain c lnClient pk r (response_of_table db) node =
    bind_res (learn lnClient pk (shared_table db) (nd_db node))
      (\<lambda>db'. Inr (Continues (mutex_unlock r (node\<lparr>nd_db := db'\<rparr>))))"
  using assms processTableResponse_eq [OF refl, of lnClient pk "shared_table db" "nd_db node"]
  by (simp add: handle_plain_def response_of_table_def type_read message_types bind_res_assoc)

lemma shared_stacked: "shared_table db = map routingEntryToDestination (stacked db)"
  by (simp add: shared_table_def getLastRoutingEntries_def stacked_def genesisBlock_def)

lemma routingEntryToDestination_simps [simp]:
  "d_address (routingEntryToDestination e) = re_destination e"
  "d_capacity (routingEntryToDestination e) = re_capacity e"
  by (simp_all add: routingEntryToDestination_def)

text \<open>The table a node shares is its routes, each once.\<close>

lemma shared_table_routes:
  assumes "db_ok db"
  shows "distinct (map d_address (shared_table db))"
    "d_address ` set (shared_table db) = dom (route_map db)"
    "route_map db a = Some e \<Longrightarrow> \<lparr>d_address = a, d_capacity = re_capacity e\<rparr> \<in> set (shared_table db)"
proof -
  note table = stacked_routes [OF assms]
  show "distinct (map d_address (shared_table db))"
    using table by (simp add: shared_stacked comp_def)
  show "d_address ` set (shared_table db) = dom (route_map db)"
    using table by (simp add: shared_stacked image_image dom_map_of_conv_image_fst)
  assume "route_map db a = Some e"
  then have "e \<in> set (stacked db)" "re_destination e = a"
    using table by (auto dest: map_of_SomeD)
  then show "\<lparr>d_address = a, d_capacity = re_capacity e\<rparr> \<in> set (shared_table db)"
    by (force simp: shared_stacked routingEntryToDestination_def)
qed

text \<open>What a node knows after it has learnt the table of another.\<close>

definition merged :: "DB \<Rightarrow> Channel list \<Rightarrow> pubkey \<Rightarrow> DB \<Rightarrow> address \<Rightarrow> routingEntry option" where
  "merged db chs pk peer a = (case route_map peer a of
     None \<Rightarrow> route_map db a
   | Some e \<Rightarrow> chosen db chs pk \<lparr>d_address = a, d_capacity = re_capacity e\<rparr>)"

lemma learn_shared_table:
  assumes "node_inv db" and "rpc_ListChannels lnClient = Inr chs" and "db_ok peer"
    and "\<forall>a. route_map peer a \<noteq> None \<longrightarrow> registered db a"
  shows "\<exists>db'. learn lnClient pk (shared_table peer) db = Inr db' \<and> taught db db' \<and> route_map db' = merged db chs pk peer"
proof -
  note table = shared_table_routes [OF assms(3)]
  have "\<forall>x \<in> set (shared_table peer). registered db (d_address x)"
    using table(2) assms(4) by blast
  then obtain db' where db': "learn lnClient pk (shared_table peer) db = Inr db'" "taught db db'"
      "\<And>a. a \<notin> d_address ` set (shared_table peer) \<Longrightarrow> route_map db' a = route_map db a"
      "\<And>x. x \<in> set (shared_table peer) \<Longrightarrow> route_map db' (d_address x) = chosen db chs pk x"
    using learn_routes [OF assms(1,2) _ table(1)] by blast
  have "route_map db' a = merged db chs pk peer a" for a
  proof (cases "route_map peer a")
    case None
    then show ?thesis
      using db'(3) table(2) by (auto simp: merged_def)
  next
    case (Some e)
    then show ?thesis
      using db'(4) [OF table(3) [OF Some]] by (simp add: merged_def)
  qed
  then show ?thesis
    using db'(1,2) by blast
qed

section \<open>Property\<close>

text \<open>
  C3: a table request is answered and the table learnt. Let B's periodic request find the session to
  A in step, both mutexes free, and no other message on the way; let A have fewer than 5460 routes, so that
  the response fits into the 16 bits of its length, and let every address A has a route to be registered
  at B (a route to any other crashes B). Then B writes one frame. However TCP delivers it without
  cutting what is read at once, A's handler takes it and writes one frame back without changing its
  database. B's handler takes that one in the same way, and afterwards B's routes are its own
  merged with A's: for each of A's routes the offer, limited by the channels with A, unless B's route is
  better or the address is B's. The mutexes are free and the session is in step again.
\<close>

theorem table_request_is_answered:
  assumes "cipher_ok c" and "session_ok (nd_conns B rB)" and "in_step (nd_conns B rB) (nd_conns A rA)"
    and "\<not> ci_locked (nd_conns A rA)" and "\<not> ci_locked (nd_conns B rB)"
    and "length (getLastRoutingEntries (nd_db A) genesisBlock) < 5460"
    and "db_ok (nd_db A)" and "node_inv (nd_db B)" and "rpc_ListChannels lnB = Inr chs"
    and "\<forall>a. route_map (nd_db A) a \<noteq> None \<longrightarrow> registered (nd_db B) a"
  shows "\<exists>B1 frame1 A1 frame2 B2.
    send_table_request c rB B = Inr (Continues B1) \<and>
    nd_written B1 = nd_written B @ [(ci_conn (nd_conns B rB), frame1)] \<and>
    (\<forall>segments. intact [frame1] segments \<longrightarrow> handlePeerConnection c lnA pkB rA segments A = Inr (Returns A1)) \<and>
    nd_db A1 = nd_db A \<and> nd_written A1 = nd_written A @ [(ci_conn (nd_conns A rA), frame2)] \<and>
    (\<forall>segments. intact [frame2] segments \<longrightarrow> handlePeerConnection c lnB pkA rB segments B1 = Inr (Returns B2)) \<and>
    route_map (nd_db B2) = merged (nd_db B) chs pkA (nd_db A) \<and> node_inv (nd_db B2) \<and> same_registry (nd_db B) (nd_db B2) \<and>
    \<not> ci_locked (nd_conns A1 rA) \<and> \<not> ci_locked (nd_conns B2 rB) \<and> in_step (nd_conns B2 rB) (nd_conns A1 rA)"
proof -
  obtain learnt where learnt: "learn lnB pkA (shared_table (nd_db A)) (nd_db B) = Inr learnt" "taught (nd_db B) learnt"
      "route_map learnt = merged (nd_db B) chs pkA (nd_db A)"
    using learn_shared_table [OF assms(8,9,7,10)] by blast
  let ?B0 = "mutex_lock rB B" and ?A0 = "entered rA A"
  have sizes: "length (request_of genesisBlock) < 65520" "length (response_of_table (nd_db A)) < 65520"
      "length (shared_table (nd_db A)) < 65536"
    using assms(6) by (simp_all add: request_of_def length_response) (simp_all add: shared_table_def)
  have ends: "session_ok (nd_conns ?B0 rB)" "in_step (nd_conns ?B0 rB) ((nd_conns A rA)\<lparr>ci_locked := True\<rparr>)"
    using assms(2,3) by simp_all
  obtain frame1 encrypted1 where one: "seal_message c (request_of genesisBlock) (nd_conns ?B0 rB) = Inr frame1"
      "send_message c rB (request_of genesisBlock) ?B0 = Inr (upd_conn rB incrementSeqNumber (conn_write rB frame1 ?B0))"
      "open_message c encrypted1 ((nd_conns A rA)\<lparr>ci_locked := True\<rparr>) = Inr (request_of genesisBlock)"
      "\<forall>segments. intact [frame1] segments \<longrightarrow> read_frame segments = Some (encrypted1, [])"
    by (rule send_in_step [OF assms(1) ends sizes(1)])
  define B1 where "B1 = request_sent rB frame1 ?B0"
  have sent: "send_table_request c rB B = Inr (Continues B1)"
    using one(1) assms(5) by (simp add: send_table_request_def request_sealed_def request_of_def B1_def)
  have B1: "nd_db B1 = nd_db B" "nd_written B1 = nd_written B @ [(ci_conn (nd_conns B rB), frame1)]"
      "nd_conns B1 rB = (incrementSeqNumber ((nd_conns B rB)\<lparr>ci_locked := True\<rparr>))\<lparr>ci_locked := False\<rparr>"
    by (simp_all add: B1_def request_sent_def)
  have ends': "session_ok (nd_conns ?A0 rA)" "in_step (nd_conns ?A0 rA) ((nd_conns B1 rB)\<lparr>ci_locked := True\<rparr>)"
    using assms(2,3) B1(3) by (simp_all add: session_ok_def in_step_def)
  obtain frame2 encrypted2 where two: "seal_message c (response_of_table (nd_db A)) (nd_conns ?A0 rA) = Inr frame2"
      "send_message c rA (response_of_table (nd_db A)) ?A0 = Inr (upd_conn rA incrementSeqNumber (conn_write rA frame2 ?A0))"
      "open_message c encrypted2 ((nd_conns B1 rB)\<lparr>ci_locked := True\<rparr>) = Inr (response_of_table (nd_db A))"
      "\<forall>segments. intact [frame2] segments \<longrightarrow> read_frame segments = Some (encrypted2, [])"
    by (rule send_in_step [OF assms(1) ends' sizes(2)])
  define A1 where "A1 = mutex_unlock rA (upd_conn rA incrementSeqNumber (conn_write rA frame2 ?A0))"
  have answered: "handle_message c lnA pkB rA encrypted1 A = Inr (Continues A1)"
    using handle_opened [OF one(3) assms(4)] two(2) by (simp add: handle_request A1_def)
  define B2 where "B2 = mutex_unlock rB ((entered rB B1)\<lparr>nd_db := learnt\<rparr>)"
  have taken: "handle_message c lnB pkA rB encrypted2 B1 = Inr (Continues B2)"
    using handle_opened [OF two(3)] B1 learnt(1) by (simp add: handle_response [OF sizes(3)] B2_def)
  have states: "nd_db A1 = nd_db A" "nd_written A1 = nd_written A @ [(ci_conn (nd_conns A rA), frame2)]" "nd_db B2 = learnt"
      "\<not> ci_locked (nd_conns A1 rA)" "\<not> ci_locked (nd_conns B2 rB)" "in_step (nd_conns B2 rB) (nd_conns A1 rA)"
    using assms(3) by (simp_all add: A1_def B2_def B1(3) in_step_def)
  show ?thesis
    using sent B1(2) one_message [OF _ answered] one(4) one_message [OF _ taken] two(4) states learnt(2,3)
    by (intro exI [of _ B1] exI [of _ frame1] exI [of _ A1] exI [of _ frame2] exI [of _ B2]) (simp add: taught_def)
qed

text \<open>A node with one route, and one that learns it.\<close>

theorem table_request_is_answered_witness:
  "\<exists>A B B1 A1 B2 frame1 frame2. send_table_request example_aead 0 B = Inr (Continues B1) \<and>
     handlePeerConnection example_aead (example_lnd []) (example_key 2) 0 (example_network [frame1]) A = Inr (Returns A1) \<and>
     handlePeerConnection example_aead (example_lnd []) (example_key 1) 0 (example_network [frame2]) B1 = Inr (Returns B2) \<and>
     route_map (nd_db B) (example_address 2) = None \<and>
     (\<exists>e. route_map (nd_db B2) (example_address 2) = Some e \<and> re_nextHop e = example_address 1 \<and> re_capacity e = 50)"
proof -
  obtain db where db: "fresh_db [1, 2] db"
    using example_db_fresh by blast
  note facts = fresh_db_facts [OF db] fresh_db_routes [OF db] fresh_db_peer [OF db]
  have reg: "registered db (re_destination (example_route 2 1 50 7))"
    using facts(2) [of 2] by (simp add: example_route_def)
  have empty: "stacked db = []"
    using db by (simp add: fresh_db_def stacked_def)
  obtain dbA where A: "db_ok dbA" "stacked dbA = [example_route 2 1 50 7]"
      "route_map dbA = (route_map db)(example_address 2 \<mapsto> example_route 2 1 50 7)"
    using put_route_spec [OF facts(1) reg] empty by (auto simp: example_route_def)
  let ?A = "example_node dbA" and ?B = "example_node db"
  have nodes: "session_ok (nd_conns ?B 0)" "in_step (nd_conns ?B 0) (nd_conns ?A 0)"
      "\<not> ci_locked (nd_conns ?A 0)" "\<not> ci_locked (nd_conns ?B 0)"
    by (simp_all add: in_step_def example_node_def example_conn_ok)
  have dbs: "nd_db ?A = dbA" "nd_db ?B = db"
    by (simp_all add: example_node_def)
  have "length (getLastRoutingEntries dbA genesisBlock) = 1"
    using arg_cong [OF A(2), of length] by (simp add: stacked_def getLastRoutingEntries_def genesisBlock_def)
  then have small: "length (getLastRoutingEntries (nd_db ?A) genesisBlock) < 5460"
    by (simp add: dbs)
  have inv: "db_ok (nd_db ?A)" "node_inv (nd_db ?B)" "rpc_ListChannels (example_lnd []) = Inr []"
    using A(1) facts by (simp_all add: dbs node_inv_def example_lnd_def)
  have known: "\<forall>a. route_map (nd_db ?A) a \<noteq> None \<longrightarrow> registered (nd_db ?B) a"
    using A(3) facts reg by (auto simp: dbs example_route_def)
  let ?offer = "offered db [] \<lparr>d_address = example_address 2, d_capacity = 50\<rparr> (example_key 1)"
  have "merged db [] (example_key 1) dbA (example_address 2) = Some ?offer"
    using A(3) facts by (simp add: merged_def chosen_def getLocalAddress_def worse_def example_route_def)
  moreover have "re_nextHop ?offer = example_address 1" "re_capacity ?offer = 50"
    using fresh_db_peer [OF db] by simp_all
  ultimately have learnt: "\<exists>e. merged db [] (example_key 1) dbA (example_address 2) = Some e \<and>
      re_nextHop e = example_address 1 \<and> re_capacity e = 50"
    by blast
  obtain B1 frame1 A1 frame2 B2 where run: "send_table_request example_aead 0 ?B = Inr (Continues B1)"
      "\<forall>segments. intact [frame1] segments \<longrightarrow>
         handlePeerConnection example_aead (example_lnd []) (example_key 2) 0 segments ?A = Inr (Returns A1)"
      "\<forall>segments. intact [frame2] segments \<longrightarrow>
         handlePeerConnection example_aead (example_lnd []) (example_key 1) 0 segments B1 = Inr (Returns B2)"
      "route_map (nd_db B2) = merged db [] (example_key 1) dbA"
    using table_request_is_answered [OF example_cipher_ok nodes small inv known, of "example_lnd []" "example_key 2" "example_key 1"]
    unfolding dbs by blast
  have "route_map (nd_db ?B) (example_address 2) = None"
    using facts by (simp add: dbs)
  then show ?thesis
    using run learnt example_network_intact by (metis (no_types, lifting))
qed

end
