(* ===== verification/Route_Capacity.thy ===== *)
theory Route_Capacity
  imports Table_Exchange
begin

text \<open>
  What the routing tables promise and what a route request finds. The routes to a destination spread
  backwards along a row of nodes by table exchanges (\<open>db.go\<close>, \<open>message.go\<close>); a request for the
  destination then goes forwards along the same row (\<open>routing.go\<close>). Both compute a capacity from
  the channel balances, in opposite directions and by different code.
\<close>

section \<open>One channel\<close>

text \<open>With one channel to the peer, either loop over the channels takes one minimum.\<close>

lemma channel_limit_single:
  "filter (\<lambda>ch. ch_RemotePubkey ch = key) chs = [x] \<Longrightarrow>
     channel_limit key chs c = (if ch_LocalBalance x <s c then ch_LocalBalance x else c)"
proof (induction chs arbitrary: c)
  case (Cons ch chs)
  have "channel_limit key chs c' = c'" if "filter (\<lambda>ch. ch_RemotePubkey ch = key) chs = []" for c'
    using that by (intro channel_limit_id) (auto simp: filter_empty_conv)
  with Cons show ?case by (auto split: if_splits)
qed simp

lemma hop_key_owner: "hop_key db a = (case owner db a of None \<Rightarrow> 0 | Some pk \<Rightarrow> pk)"
  by (simp add: hop_key_def owner_def split: option.splits)

section \<open>A row of nodes\<close>

text \<open>A node of the row: its lnd, the peer it learns from and sends through, its database.\<close>

record relay =
  rl_lnd :: Lnd
  rl_next :: pubkey
  rl_db :: DB

text \<open>
  The table goes from the end of the row to its front: the last node learns the announcement of
  the destination, which \<open>SynchronizeRoutingDB\<close> makes of the channel with it, every other one the
  table of the node behind it, as the handler of a table response does.
\<close>

fun spread :: "destination \<Rightarrow> relay list \<Rightarrow> DB list res" where
  "spread dest [] = Inr []"
| "spread dest (n # rest) = bind_res (spread dest rest) (\<lambda>dbs.
     bind_res (learn (rl_lnd n) (rl_next n) (case dbs of [] \<Rightarrow> [dest] | db # _ \<Rightarrow> shared_table db) (rl_db n)) (\<lambda>db.
     Inr (db # dbs)))"

text \<open>
  A node that can take part: it has one channel with the next one, of the given balance, which is registered
  under its address; the destination is another node, to which it has no route yet. All of them
  have the same registered addresses.
\<close>

definition one_channel :: "Lnd \<Rightarrow> pubkey \<Rightarrow> i64 \<Rightarrow> bool" where
  "one_channel lnClient pk b \<longleftrightarrow> (\<exists>chs x. rpc_ListChannels lnClient = Inr chs \<and>
     filter (\<lambda>ch. ch_RemotePubkey ch = PubKeyArrayToString pk) chs = [x] \<and> ch_LocalBalance x = b)"

definition relay_ok :: "address set \<Rightarrow> address \<Rightarrow> relay \<Rightarrow> i64 \<Rightarrow> bool" where
  "relay_ok known d n b \<longleftrightarrow> node_inv (rl_db n) \<and> Collect (registered (rl_db n)) = known \<and>
     owner (rl_db n) (peer_address (rl_db n) (rl_next n)) = Some (rl_next n) \<and>
     db_localAddress (rl_db n) \<noteq> d \<and> route_map (rl_db n) d = None \<and> one_channel (rl_lnd n) (rl_next n) b"

text \<open>What a node has when the table has come to it: a route through the next one of some capacity.\<close>

definition routed :: "address set \<Rightarrow> address \<Rightarrow> relay \<Rightarrow> DB \<Rightarrow> i64 \<Rightarrow> bool" where
  "routed known d n db c \<longleftrightarrow> node_inv db \<and> Collect (registered db) = known \<and>
     owner db (peer_address (rl_db n) (rl_next n)) = Some (rl_next n) \<and>
     (\<exists>e. route_map db d = Some e \<and> re_nextHop e = peer_address (rl_db n) (rl_next n) \<and> re_capacity e = c)"

lemma learn_row:
  assumes "relay_ok known d n b" and "distinct (map d_address dests)" and "d_address ` set dests \<subseteq> known"
    and "\<lparr>d_address = d, d_capacity = c\<rparr> \<in> set dests"
  shows "\<exists>db. learn (rl_lnd n) (rl_next n) dests (rl_db n) = Inr db \<and> routed known d n db (if b <s c then b else c)"
proof -
  obtain chs x where chs: "rpc_ListChannels (rl_lnd n) = Inr chs"
      "filter (\<lambda>ch. ch_RemotePubkey ch = PubKeyArrayToString (rl_next n)) chs = [x]" "ch_LocalBalance x = b"
    using assms(1) by (auto simp: relay_ok_def one_channel_def)
  have n: "node_inv (rl_db n)" "\<forall>x \<in> set dests. registered (rl_db n) (d_address x)" "d \<noteq> db_localAddress (rl_db n)"
      "route_map (rl_db n) d = None"
    using assms(1,3) by (auto simp: relay_ok_def)
  obtain db where db: "learn (rl_lnd n) (rl_next n) dests (rl_db n) = Inr db" "taught (rl_db n) db"
      "route_map db d = chosen (rl_db n) chs (rl_next n) \<lparr>d_address = d, d_capacity = c\<rparr>"
    using learn_routes [OF n(1) chs(1) n(2) assms(2), of "rl_next n"] assms(4) by fastforce
  moreover have "chosen (rl_db n) chs (rl_next n) \<lparr>d_address = d, d_capacity = c\<rparr> =
      Some (offered (rl_db n) chs \<lparr>d_address = d, d_capacity = c\<rparr> (rl_next n))"
    using n(3,4) by (simp add: chosen_def worse_def getLocalAddress_def)
  ultimately show ?thesis
    using taught_facts [OF db(2)] assms(1) channel_limit_single [OF chs(2)] chs(3)
    by (auto simp: routed_def relay_ok_def)
qed

text \<open>The table reaches all nodes, the front with the least of all balances and the announcement.\<close>

lemma spread_row:
  assumes "list_all2 (relay_ok known d) nodes bs" and "d \<in> known"
  shows "\<exists>dbs cs. spread \<lparr>d_address = d, d_capacity = c\<rparr> nodes = Inr dbs \<and> length cs = length nodes \<and>
    list_all2 (\<lambda>n (db, c). routed known d n db c) nodes (zip dbs cs) \<and> length dbs = length nodes \<and>
    least_of (insert c (set bs)) (hd (cs @ [c]))"
  using assms(1)
proof (induction nodes bs rule: list_all2_induct)
  case (Cons n nodes b bs)
  then obtain dbs cs where rest: "spread \<lparr>d_address = d, d_capacity = c\<rparr> nodes = Inr dbs" "length cs = length nodes"
      "list_all2 (\<lambda>n (db, c). routed known d n db c) nodes (zip dbs cs)" "length dbs = length nodes"
      "least_of (insert c (set bs)) (hd (cs @ [c]))"
    by blast
  define table where "table = (case dbs of [] \<Rightarrow> [\<lparr>d_address = d, d_capacity = c\<rparr>] | db # _ \<Rightarrow> shared_table db)"
  have table: "distinct (map d_address table) \<and> d_address ` set table \<subseteq> known \<and>
      \<lparr>d_address = d, d_capacity = hd (cs @ [c])\<rparr> \<in> set table"
  proof (cases dbs)
    case Nil
    then show ?thesis
      using rest(2,4) assms(2) by (simp add: table_def)
  next
    case (Cons db dbs')
    then obtain c' cs' m ms where cs: "cs = c' # cs'" "nodes = m # ms"
      using rest(2,4) by (cases cs; cases nodes) auto
    then have "routed known d m db c'"
      using rest(3) Cons by simp
    then obtain e where "node_inv db" "Collect (registered db) = known" "route_map db d = Some e" "re_capacity e = c'"
      by (auto simp: routed_def)
    then show ?thesis
      using shared_table_routes [of db] Cons cs(1) by (auto simp: table_def node_inv_def route_map_Some registered_def)
  qed
  obtain db where "learn (rl_lnd n) (rl_next n) table (rl_db n) = Inr db"
      "routed known d n db (if b <s hd (cs @ [c]) then b else hd (cs @ [c]))"
    using learn_row [OF Cons.hyps(1)] table by blast
  then show ?case
    using rest least_insert [OF rest(5), of b]
    by (intro exI [of _ "db # dbs"] exI [of _ "(if b <s hd (cs @ [c]) then b else hd (cs @ [c])) # cs"])
      (simp add: table_def insert_commute)
qed simp

section \<open>The request on the row\<close>

abbreviation hop_of :: "relay \<Rightarrow> address" where
  "hop_of n \<equiv> peer_address (rl_db n) (rl_next n)"

lemma hop_on_row:
  assumes "routed known (rt_destination route) n db c" and "one_channel (rl_lnd n) (rl_next n) b"
    and "rt_destination route \<in> known"
  obtains route' where "addHopToRoute (rl_lnd n) db route = Inr (Inr (hop_of n, route'))"
    and "rt_hops route' = rt_hops route @ [hop_of n]" and "rt_destination route' = rt_destination route"
    and "rt_capacity route' = (if rt_hops route = [] \<or> b <s rt_capacity route then b else rt_capacity route)"
proof -
  obtain chs x where chs: "rpc_ListChannels (rl_lnd n) = Inr chs"
      "filter (\<lambda>ch. ch_RemotePubkey ch = PubKeyArrayToString (rl_next n)) chs = [x]" "ch_LocalBalance x = b"
    using assms(2) by (auto simp: one_channel_def)
  obtain e where e: "db_ok db" "registered db (rt_destination route)" "hop_key db (hop_of n) = rl_next n"
      "route_map db (rt_destination route) = Some e" "re_nextHop e = hop_of n"
    using assms(1,3) by (auto simp: routed_def node_inv_def hop_key_owner)
  have "hop_capacity (PubKeyArrayToString (rl_next n)) (length (rt_hops route)) chs (rt_capacity route) =
      (if rt_hops route = [] \<or> b <s rt_capacity route then b else rt_capacity route)"
    using chs(2,3) by (cases "rt_hops route = []")
      (simp_all add: hop_capacity_first hop_capacity_later channel_limit_single)
  then show thesis
    using that e by (simp add: addHopToRoute_eq [OF e(1) chs(1)])
qed

lemma collect_row:
  assumes "list_all2 (\<lambda>n (db, c). routed known d n db c) nodes (zip dbs cs)" and "length dbs = length nodes"
    and "length cs = length nodes" and "list_all2 (\<lambda>n. one_channel (rl_lnd n) (rl_next n)) nodes bs"
    and "d \<in> known" and "rt_destination route = d" and "rt_hops route \<noteq> []" and "least_of S (rt_capacity route)"
  shows "\<exists>route'. collect_hops (zip (map rl_lnd nodes) dbs) route = Inr (Inr route') \<and>
    rt_hops route' = rt_hops route @ map hop_of nodes \<and> least_of (S \<union> set bs) (rt_capacity route')"
  using assms
proof (induction nodes arbitrary: dbs cs bs route S)
  case (Cons n nodes)
  obtain db dbs' c cs' b bs' where lists: "dbs = db # dbs'" "cs = c # cs'" "bs = b # bs'"
    using Cons.prems(2-4) by (cases dbs; cases cs; cases bs) auto
  have here: "routed known (rt_destination route) n db c" "one_channel (rl_lnd n) (rl_next n) b"
    and rest: "list_all2 (\<lambda>n (db, c). routed known d n db c) nodes (zip dbs' cs')" "length dbs' = length nodes"
      "length cs' = length nodes" "list_all2 (\<lambda>n. one_channel (rl_lnd n) (rl_next n)) nodes bs'"
    using Cons.prems(1-4,6) lists by simp_all
  obtain r where r: "addHopToRoute (rl_lnd n) db route = Inr (Inr (hop_of n, r))" "rt_hops r = rt_hops route @ [hop_of n]"
      "rt_destination r = d" "rt_capacity r = (if b <s rt_capacity route then b else rt_capacity route)"
    using hop_on_row [OF here, of thesis] Cons.prems(5-7) by auto
  then have "least_of (insert b S) (rt_capacity r)"
    using least_insert [OF Cons.prems(8)] by simp
  then show ?case
    using Cons.IH [OF rest Cons.prems(5) r(3), of "insert b S"] r(1,2) lists by auto
qed simp

section \<open>Property\<close>

text \<open>
  C4: the capacity a table promises is the one a request finds. Let the nodes of a row, with the same
  registered addresses, have one channel each with the next one, no route to the destination yet, and let
  the last one hear of the destination with at least the balance of its channel. Then the table
  exchanges from the end of the row to its front do not fault, and a request along the row collects as
  its hops the next nodes in order and as its capacity exactly the one in the table of the first
  node, which is the least balance of the row.
\<close>

theorem advertised_capacity_is_probed:
  assumes "list_all2 (relay_ok known d) nodes bs" and "nodes \<noteq> []" and "d \<in> known" and "last bs \<le>s c"
  shows "\<exists>dbs route e. spread \<lparr>d_address = d, d_capacity = c\<rparr> nodes = Inr dbs \<and>
    route_map (hd dbs) d = Some e \<and>
    collect_hops (zip (map rl_lnd nodes) dbs) (createRoute token d) = Inr (Inr route) \<and>
    rt_hops route = map hop_of nodes \<and> rt_capacity route = re_capacity e \<and> least_of (set bs) (rt_capacity route)"
proof -
  obtain dbs cs where spread: "spread \<lparr>d_address = d, d_capacity = c\<rparr> nodes = Inr dbs" "length cs = length nodes"
      "list_all2 (\<lambda>n (db, c). routed known d n db c) nodes (zip dbs cs)" "length dbs = length nodes"
      "least_of (insert c (set bs)) (hd (cs @ [c]))"
    using spread_row [OF assms(1,3)] by blast
  obtain n ns db dbs' c' cs' b bs' where lists: "nodes = n # ns" "dbs = db # dbs'" "cs = c' # cs'" "bs = b # bs'"
    using assms(1,2) spread(2,4) by (cases nodes; cases dbs; cases cs; cases bs) auto
  have channels: "list_all2 (\<lambda>n. one_channel (rl_lnd n) (rl_next n)) nodes bs"
    using assms(1) by (rule list_all2_mono) (simp add: relay_ok_def)
  have "last bs \<in> set bs" using lists(4) by (intro last_in_set) simp
  then have promised: "least_of (set bs) c'"
    using least_dominated [OF spread(5) _ assms(4)] lists(3) by simp
  let ?route = "createRoute token d"
  have first: "routed known (rt_destination ?route) n db c'" "one_channel (rl_lnd n) (rl_next n) b" "rt_destination ?route \<in> known"
    using spread(3) channels lists assms(3) by (simp_all add: createRoute_def)
  obtain r where r: "addHopToRoute (rl_lnd n) db ?route = Inr (Inr (hop_of n, r))" "rt_hops r = [hop_of n]"
      "rt_destination r = d" "rt_capacity r = b"
    using hop_on_row [OF first, of thesis] by (auto simp: createRoute_def)
  have "least_of {b} (rt_capacity r)" using r(4) by simp
  then obtain route where route: "collect_hops (zip (map rl_lnd ns) dbs') r = Inr (Inr route)"
      "rt_hops route = hop_of n # map hop_of ns" "least_of (insert b (set bs')) (rt_capacity route)"
    using collect_row [of known d ns dbs' cs' bs' r "{b}"] spread(2-4) channels lists assms(3) r(2,3) by auto
  moreover obtain e where "route_map db d = Some e" "re_capacity e = c'"
    using first(1) by (auto simp: routed_def createRoute_def)
  ultimately show ?thesis
    using spread(1) r(1) lists promised least_unique [of "set bs" c' "rt_capacity route"]
    by (intro exI [of _ dbs] exI [of _ route] exI [of _ e]) simp
qed

theorem advertised_capacity_is_probed_witness:
  "\<exists>db dbs route. example_db [1, 2, 3] = Inr db \<and>
     spread \<lparr>d_address = example_address 3, d_capacity = 90\<rparr>
       [\<lparr>rl_lnd = example_lnd [example_channel 3 10, example_channel 2 40], rl_next = example_key 2, rl_db = db\<rparr>,
        \<lparr>rl_lnd = example_lnd [example_channel 3 70], rl_next = example_key 3, rl_db = db\<rparr>] = Inr dbs \<and>
     collect_hops (zip [example_lnd [example_channel 3 10, example_channel 2 40], example_lnd [example_channel 3 70]] dbs)
       (createRoute [] (example_address 3)) = Inr (Inr route) \<and>
     rt_hops route = [example_address 2, example_address 3] \<and> rt_capacity route = 40"
proof -
  let ?lnd1 = "example_lnd [example_channel 3 10, example_channel 2 40]" and ?lnd2 = "example_lnd [example_channel 3 70]"
  obtain db where db: "example_db [1, 2, 3] = Inr db" "fresh_db [1, 2, 3] db"
    using example_db_fresh by blast
  note facts = fresh_db_facts [OF db(2)] fresh_db_routes [OF db(2)] fresh_db_owner [OF db(2)] fresh_db_peer [OF db(2)]
  have known: "Collect (registered db) = example_address ` {1, 2, 3}"
    using db(2) by (auto simp: fresh_db_def)
  have key: "PubKeyArrayToString (example_key 3) \<noteq> PubKeyArrayToString (example_key 2)"
    by (simp add: PubKeyArrayToString_inject)
  let ?one = "\<lparr>rl_lnd = ?lnd1, rl_next = example_key 2, rl_db = db\<rparr>"
    and ?two = "\<lparr>rl_lnd = ?lnd2, rl_next = example_key 3, rl_db = db\<rparr>"
  have "relay_ok (example_address ` {1, 2, 3}) (example_address 3) ?one 40"
    using facts known key by (simp add: relay_ok_def node_inv_def one_channel_def example_lnd_def owner_def)
  moreover have "relay_ok (example_address ` {1, 2, 3}) (example_address 3) ?two 70"
    using facts known by (simp add: relay_ok_def node_inv_def one_channel_def example_lnd_def owner_def)
  ultimately have "list_all2 (relay_ok (example_address ` {1, 2, 3}) (example_address 3)) [?one, ?two] [40, 70]"
    by simp
  from advertised_capacity_is_probed [OF this, of 90 "[]"]
  obtain dbs route where "spread \<lparr>d_address = example_address 3, d_capacity = 90\<rparr> [?one, ?two] = Inr dbs"
      "collect_hops (zip [?lnd1, ?lnd2] dbs) (createRoute [] (example_address 3)) = Inr (Inr route)"
      "rt_hops route = [example_address 2, example_address 3]" "least_of {40, 70} (rt_capacity route)"
    using fresh_db_peer [OF db(2), of 2] fresh_db_peer [OF db(2), of 3] by auto
  then show ?thesis
    using db(1) by (intro exI [of _ db] exI [of _ dbs] exI [of _ route]) (auto simp: least_of_def)
qed

end
