(* ===== verification/Route_Delivery.thy ===== *)
theory Route_Delivery
  imports Table_Exchange
begin

text \<open>
  The way of a route request through the network: every node on it opens the frame of the node before,
  adds its next hop and writes a frame for that one, until the destination writes the collected
  route on the connection of the token. The nodes are different machines, each with its own state.
\<close>

section \<open>Nodes in a row\<close>

text \<open>
  A node on the way: its lnd, the peer the request comes from and the reference of its connection,
  and the number of the TCP connection whose other end is the arrival of the next node of the row.
\<close>

record station =
  st_lnd :: Lnd
  st_peer :: pubkey
  st_in :: conn_ref
  st_out :: nat
  st_node :: Node

text \<open>The connection of a station on which the request arrives.\<close>

definition arrival :: "station \<Rightarrow> connInfo" where
  "arrival s = nd_conns (st_node s) (st_in s)"

text \<open>
  A station handles what has arrived. If it then has written on the connection to the next station,
  the network delivers the frame there; otherwise the request goes no further.
\<close>

definition handled :: "aead \<Rightarrow> station \<Rightarrow> u8 list list \<Rightarrow> Node res" where
  "handled c s segments =
     (case read_frame segments of
        None \<Rightarrow> Inr (st_node s)
      | Some (encrypted, _) \<Rightarrow>
          bind_res (handle_message c (st_lnd s) (st_peer s) (st_in s) encrypted (st_node s)) (\<lambda>out.
          Inr (case out of Continues node \<Rightarrow> node | Returns node \<Rightarrow> node | Blocks node \<Rightarrow> node)))"

definition handed_on :: "station \<Rightarrow> Node \<Rightarrow> u8 list option" where
  "handed_on s node =
     (if nd_written node = nd_written (st_node s) then None
      else case last (nd_written node) of (conn, frame) \<Rightarrow> if conn = st_out s then Some frame else None)"

fun carry :: "aead \<Rightarrow> (u8 list list \<Rightarrow> u8 list list) \<Rightarrow> u8 list \<Rightarrow> station list \<Rightarrow> Node list res" where
  "carry c network frame [] = Inr []"
| "carry c network frame (s # rest) =
     bind_res (handled c s (network [frame])) (\<lambda>node.
     case handed_on s node of
       None \<Rightarrow> Inr [node]
     | Some frame \<Rightarrow> bind_res (carry c network frame rest) (\<lambda>nodes. Inr (node # nodes)))"

text \<open>
  A row of stations with the hops they choose for a destination: each has a route to it, and the
  connection to the next hop of the route is the TCP connection to the next station, with a session that
  is in step; the last one is the destination, where the token has been announced.
\<close>

definition relays_to :: "address \<Rightarrow> station \<Rightarrow> station \<Rightarrow> address \<Rightarrow> bool" where
  "relays_to d s s' a \<longleftrightarrow> db_ok (nd_db (st_node s)) \<and> (\<exists>chs. rpc_ListChannels (st_lnd s) = Inr chs) \<and>
     \<not> ci_locked (arrival s) \<and> getLocalAddress (nd_db (st_node s)) \<noteq> d \<and>
     (\<exists>e r. route_map (nd_db (st_node s)) d = Some e \<and> re_nextHop e = a \<and>
        getPeerConn (nd_db (st_node s)) a = Inr (Some r) \<and> r \<noteq> st_in s \<and>
        ci_conn (nd_conns (st_node s) r) = st_out s \<and>
        session_ok (nd_conns (st_node s) r) \<and> in_step (nd_conns (st_node s) r) (arrival s'))"

definition ends_at :: "address \<Rightarrow> token \<Rightarrow> station \<Rightarrow> bool" where
  "ends_at d t s \<longleftrightarrow> \<not> ci_locked (arrival s) \<and> getLocalAddress (nd_db (st_node s)) = d \<and>
     getDestConn (nd_db (st_node s)) t \<noteq> None"

fun row :: "address \<Rightarrow> token \<Rightarrow> station list \<Rightarrow> address list \<Rightarrow> bool" where
  "row d t [s] [] \<longleftrightarrow> ends_at d t s"
| "row d t (s # s' # rest) (a # hops) \<longleftrightarrow> relays_to d s s' a \<and> row d t (s' # rest) hops"
| "row d t _ _ \<longleftrightarrow> False"

section \<open>One station\<close>

definition request_bytes :: "Route \<Rightarrow> u8 list" where
  "request_bytes route = be_bytes 2 forwardRouteType @ serializeRoute route"

lemma length_request_bytes: "length (rt_token route) = 10 \<Longrightarrow> length (request_bytes route) = 26 + 4 * length (rt_hops route)"
  by (simp add: request_bytes_def serializeRoute_def length_concat comp_def sum_list_triv)

lemma handle_request_bytes:
  "handle_plain c lnClient pk r (request_bytes route) node =
     bind_res (handle_forward c lnClient (request_bytes route) node) (\<lambda>node. Inr (Continues (mutex_unlock r node)))"
  by (simp add: handle_plain_def request_bytes_def type_read message_types)

lemma open_message_locked [simp]: "open_message c encrypted (conn\<lparr>ci_locked := l\<rparr>) = open_message c encrypted conn"
  by (simp add: open_message_def)

text \<open>
  A frame holds a request of up to 16373 hops: the ciphertext of its \<open>26 + 4 * n\<close> bytes is 16 bytes
  longer, and its length has 16 bits.
\<close>

lemma process_request_bytes:
  assumes "length (rt_token route) = 10" and "length (rt_hops route) < 65536"
  shows "processForwardRouteMessage (request_bytes route) = Inr (Inr route)"
  using processForward_serialized [of route] assms by (simp add: request_bytes_def)

text \<open>A node on the way hands the request on, with its hop.\<close>

lemma relay_station:
  assumes "cipher_ok c" and "relays_to (rt_destination route) s s' a" and "read_frame segments = Some (encrypted, [])"
    and "open_message c encrypted (arrival s) = Inr (request_bytes route)"
    and "length (rt_token route) = 10" and "length (rt_hops route) < 16373"
  obtains node frame encrypted' route' where "handled c s segments = Inr node"
    and "nd_db node = nd_db (st_node s)" and "handed_on s node = Some frame"
    and "\<forall>segments. intact [frame] segments \<longrightarrow> read_frame segments = Some (encrypted', [])"
    and "open_message c encrypted' (arrival s') = Inr (request_bytes route')"
    and "addHopToRoute (st_lnd s) (nd_db (st_node s)) route = Inr (Inr (a, route'))"
    and "rt_hops route' = rt_hops route @ [a]" and "rt_destination route' = rt_destination route"
    and "rt_token route' = rt_token route"
proof -
  let ?node = "st_node s"
  let ?n = "entered (st_in s) ?node"
  obtain e r chs where raw: "db_ok (nd_db ?node)" "rpc_ListChannels (st_lnd s) = Inr chs"
      "getLocalAddress (nd_db ?node) \<noteq> rt_destination route" "route_map (nd_db ?node) (rt_destination route) = Some e"
      "re_nextHop e = a" "getPeerConn (nd_db ?node) a = Inr (Some r)" "\<not> ci_locked (nd_conns ?node (st_in s))"
      "session_ok (nd_conns ?node r)" "in_step (nd_conns ?node r) (arrival s')" "r \<noteq> st_in s"
      "ci_conn (nd_conns ?node r) = st_out s"
    using assms(2) unfolding relays_to_def arrival_def by blast
  then have conn: "nd_conns ?n r = nd_conns ?node r"
    by (simp add: entered_def)
  with raw have s: "db_ok (nd_db ?n)" "rpc_ListChannels (st_lnd s) = Inr chs"
      "rt_destination route \<noteq> getLocalAddress (nd_db ?n)" "route_map (nd_db ?n) (rt_destination route) = Some e"
      "getPeerConn (nd_db ?n) (re_nextHop e) = Inr (Some r)" "session_ok (nd_conns ?n r)" "in_step (nd_conns ?n r) (arrival s')"
    by simp_all
  have message: "processForwardRouteMessage (request_bytes route) = Inr (Inr route)"
    using assms(5,6) by (simp add: process_request_bytes)
  obtain route' where hop: "addHopToRoute (st_lnd s) (nd_db ?n) route = Inr (Inr (re_nextHop e, route'))"
      "handle_forward c (st_lnd s) (request_bytes route) ?n =
         send_message c r (be_bytes 2 forwardRouteType @ serializeRoute route') ?n"
      "rt_hops route' = rt_hops route @ [re_nextHop e]" "rt_destination route' = rt_destination route"
      "rt_token route' = rt_token route"
    by (rule relayed_request [OF s(1,2) message s(3-5)])
  have "length (request_bytes route') < 65520"
    using hop(3,5) assms(5,6) by (simp add: length_request_bytes)
  then obtain frame encrypted' where
      sent: "seal_message c (request_bytes route') (nd_conns ?n r) = Inr frame"
      "send_message c r (request_bytes route') ?n = Inr (upd_conn r incrementSeqNumber (conn_write r frame ?n))"
      "open_message c encrypted' (arrival s') = Inr (request_bytes route')"
      "\<forall>segments. intact [frame] segments \<longrightarrow> read_frame segments = Some (encrypted', [])"
    by (rule send_in_step [OF assms(1) s(6,7)])
  define node where "node = mutex_unlock (st_in s) (upd_conn r incrementSeqNumber (conn_write r frame ?n))"
  have "handle_message c (st_lnd s) (st_peer s) (st_in s) encrypted ?node = Inr (Continues node)"
    using handle_opened [of c encrypted ?node "st_in s"] assms(4) raw(7) hop(2) sent(2)
    by (simp add: arrival_def handle_request_bytes node_def request_bytes_def [symmetric])
  then have "handled c s segments = Inr node"
    using assms(3) by (simp add: handled_def)
  moreover have "nd_db node = nd_db ?node" "handed_on s node = Some frame"
    using raw(11) conn by (simp_all add: node_def handed_on_def)
  ultimately show thesis
    using that [OF _ _ _ sent(4,3)] hop raw(5) by simp
qed

text \<open>The destination writes the route on the connection of the token.\<close>

lemma destination_station:
  assumes "ends_at (rt_destination route) (rt_token route) s" and "read_frame segments = Some (encrypted, [])"
    and "open_message c encrypted (arrival s) = Inr (request_bytes route)"
    and "length (rt_token route) = 10" and "length (rt_hops route) < 65536"
  obtains node r where "handled c s segments = Inr node"
    and "getDestConn (nd_db (st_node s)) (rt_token route) = Some r"
    and "nd_written node = nd_written (st_node s) @ [(ci_conn (nd_conns (st_node s) r), serializeRoute route)]"
proof -
  let ?n = "entered (st_in s) (st_node s)"
  obtain r where s: "\<not> ci_locked (nd_conns (st_node s) (st_in s))"
      "getLocalAddress (nd_db ?n) = rt_destination route" "getDestConn (nd_db ?n) (rt_token route) = Some r"
    using assms(1) by (auto simp: arrival_def ends_at_def)
  have "processForwardRouteMessage (request_bytes route) = Inr (Inr route)"
    using assms(4,5) by (simp add: process_request_bytes)
  then have "\<exists>node. handle_forward c (st_lnd s) (request_bytes route) ?n = Inr node \<and>
      nd_written node = nd_written ?n @ [(ci_conn (nd_conns ?n r), serializeRoute route)]"
    using s(2,3) by (simp add: handle_forward_def sendRouteToSender_def closeDestConnection_def)
  then obtain node where node: "handle_forward c (st_lnd s) (request_bytes route) ?n = Inr node"
      "nd_written node = nd_written ?n @ [(ci_conn (nd_conns ?n r), serializeRoute route)]"
    by blast
  have conn: "ci_conn (nd_conns ?n r) = ci_conn (nd_conns (st_node s) r)"
    by (simp add: entered_def)
  have "handle_message c (st_lnd s) (st_peer s) (st_in s) encrypted (st_node s) =
      Inr (Continues (mutex_unlock (st_in s) node))"
    using handle_opened [of c encrypted "st_node s" "st_in s"] assms(3) s(1) node(1)
    by (simp add: arrival_def handle_request_bytes)
  then have "handled c s segments = Inr (mutex_unlock (st_in s) node)"
    using assms(2) by (simp add: handled_def)
  then show thesis
    using that [of "mutex_unlock (st_in s) node" r] s(3) node(2) conn by simp
qed

section \<open>Property\<close>

text \<open>
  C2: a request reaches its destination. Let every node of a row have a route to the
  destination whose next hop is the next node, on a TCP connection to it with a session that is in step,
  the last be the destination with the token announced, and the first receive the request for it; let
  the route with all its hops have fewer than 16374 of them, since a longer request does not fit into the 16 bits of
  the length of a frame; and let the network not cut what is read at once. Then each node hands the request
  on to the next without a fault and without changing its database; the route grows as \<open>addHopToRoute\<close>
  on the databases of the row says, hop for hop in order; and the destination writes it on the
  connection of the token.
\<close>

abbreviation row_nodes :: "station list \<Rightarrow> (Lnd \<times> DB) list" where
  "row_nodes stations \<equiv> map (\<lambda>s. (st_lnd s, nd_db (st_node s))) (butlast stations)"

theorem request_reaches_destination:
  assumes "cipher_ok c" and "\<forall>frames. intact frames (network frames)"
    and "row (rt_destination route) (rt_token route) stations hops"
    and "read_frame (network [frame]) = Some (encrypted, [])"
    and "open_message c encrypted (arrival (hd stations)) = Inr (request_bytes route)"
    and "length (rt_token route) = 10" and "length (rt_hops route) + length hops < 16374"
  shows "\<exists>nodes route' r. carry c network frame stations = Inr nodes \<and> length nodes = length stations \<and>
    map nd_db (butlast nodes) = map (\<lambda>s. nd_db (st_node s)) (butlast stations) \<and>
    collect_hops (row_nodes stations) route = Inr (Inr route') \<and> rt_hops route' = rt_hops route @ hops \<and>
    getDestConn (nd_db (st_node (last stations))) (rt_token route) = Some r \<and>
    nd_written (last nodes) = nd_written (st_node (last stations)) @
      [(ci_conn (nd_conns (st_node (last stations)) r), serializeRoute route')]"
  using assms(3-)
proof (induction stations arbitrary: hops route frame encrypted)
  case (Cons s stations)
  have arrived: "open_message c encrypted (arrival s) = Inr (request_bytes route)"
    using Cons.prems(3) by simp
  show ?case
  proof (cases stations)
    case Nil
    then have "ends_at (rt_destination route) (rt_token route) s" and hops: "hops = []"
      using Cons.prems(1) by (cases hops, simp_all)+
    then obtain node r where "handled c s (network [frame]) = Inr node"
        "getDestConn (nd_db (st_node s)) (rt_token route) = Some r"
        "nd_written node = nd_written (st_node s) @ [(ci_conn (nd_conns (st_node s) r), serializeRoute route)]"
      using destination_station [of route s "network [frame]" encrypted c] Cons.prems arrived by auto
    then show ?thesis
      using Nil hops by (auto intro: exI [of _ route] split: option.split)
  next
    case (Cons s' more)
    note stations = this
    obtain a hops' where hops: "hops = a # hops'" "relays_to (rt_destination route) s s' a"
        "row (rt_destination route) (rt_token route) stations hops'"
      using Cons.prems(1) stations by (cases hops) auto
    have few: "length (rt_hops route) < 16373"
      using Cons.prems(5) hops(1) by simp
    obtain node frame' encrypted' route' where step: "handled c s (network [frame]) = Inr node"
        "nd_db node = nd_db (st_node s)" "handed_on s node = Some frame'"
      and frame': "\<forall>segments. intact [frame'] segments \<longrightarrow> read_frame segments = Some (encrypted', [])"
        "open_message c encrypted' (arrival s') = Inr (request_bytes route')"
      and route': "addHopToRoute (st_lnd s) (nd_db (st_node s)) route = Inr (Inr (a, route'))"
        "rt_hops route' = rt_hops route @ [a]" "rt_destination route' = rt_destination route"
        "rt_token route' = rt_token route"
      by (rule relay_station [OF assms(1) hops(2) Cons.prems(2) arrived Cons.prems(4) few])
    have next_row: "row (rt_destination route') (rt_token route') stations hops'"
        "read_frame (network [frame']) = Some (encrypted', [])"
        "open_message c encrypted' (arrival (hd stations)) = Inr (request_bytes route')"
        "length (rt_token route') = 10" "length (rt_hops route') + length hops' < 16374"
      using hops(1,3) route' frame' assms(2) stations Cons.prems(4,5) by simp_all
    from Cons.IH [OF this] obtain nodes final r where rest: "carry c network frame' stations = Inr nodes"
        "length nodes = length stations" "map nd_db (butlast nodes) = map (\<lambda>s. nd_db (st_node s)) (butlast stations)"
        "collect_hops (row_nodes stations) route' = Inr (Inr final)" "rt_hops final = rt_hops route' @ hops'"
        "getDestConn (nd_db (st_node (last stations))) (rt_token route') = Some r"
        "nd_written (last nodes) = nd_written (st_node (last stations)) @
          [(ci_conn (nd_conns (st_node (last stations)) r), serializeRoute final)]"
      by blast
    have nonempty: "stations \<noteq> []" "nodes \<noteq> []"
      using stations rest(2) by auto
    show ?thesis
      using step rest route' hops(1) nonempty
      by (intro exI [of _ "node # nodes"] exI [of _ final] exI [of _ r]) simp
  qed
qed simp

theorem request_reaches_destination_witness:
  "\<exists>frame s1 s2 node1 node2 route'. carry example_aead example_network frame [s1, s2] = Inr [node1, node2] \<and>
     (\<exists>n. nd_written node2 = nd_written (st_node s2) @ [(n, serializeRoute route')]) \<and>
     rt_hops route' = [example_address 1]"
proof -
  let ?t = "replicate 10 65 :: token"
  let ?rt = "createRoute ?t (example_address 2)"
  obtain db where db: "db_ok db" "route_map db (example_address 2) = Some (example_route 2 1 50 7)"
      "getPeerConn db (example_address 1) = Inr (Some 0)" "db_localAddress db = 0"
    using example_routed [of 2] by auto
  let ?far = "SaveLocalAddress (example_address 2) (addDestConnToDB ?t 5 (createDB ''data''))"
  let ?s1 = "\<lparr>st_lnd = example_lnd [], st_peer = 0, st_in = 1, st_out = ci_conn example_conn, st_node = example_node db\<rparr>"
    and ?s2 = "\<lparr>st_lnd = example_lnd [], st_peer = 0, st_in = 1, st_out = 0, st_node = example_node ?far\<rparr>"
  have "relays_to (example_address 2) ?s1 ?s2 (example_address 1)"
    using db by (simp add: relays_to_def arrival_def example_node_def example_lnd_def example_conn_ok in_step_def
        getLocalAddress_def) (simp add: example_route_def)
  moreover have "ends_at (example_address 2) ?t ?s2"
    by (simp add: ends_at_def arrival_def example_node_def SaveLocalAddress_def getDestConn_def addDestConnToDB_def
        getLocalAddress_def)
  ultimately have row: "row (rt_destination ?rt) (rt_token ?rt) [?s1, ?s2] [example_address 1]"
    by (simp add: createRoute_def)
  have small: "length (request_bytes ?rt) < 65520"
    by (simp add: length_request_bytes createRoute_def)
  have same: "in_step example_conn example_conn"
    by (simp add: in_step_def)
  obtain frame encrypted where frame: "seal_message example_aead (request_bytes ?rt) example_conn = Inr frame"
      "open_message example_aead encrypted example_conn = Inr (request_bytes ?rt)"
      "\<forall>frames segments. intact (frame # frames) segments \<longrightarrow>
        (\<exists>rest. read_frame segments = Some (encrypted, rest) \<and> intact frames rest)"
    by (rule frame_opens [OF example_cipher_ok example_conn_ok same small])
  obtain rest where rest: "read_frame (example_network [frame]) = Some (encrypted, rest)" "intact [] rest"
    using frame(3) example_network_intact by blast
  from rest(2) have "rest = []"
    by (auto simp: intact_def elim: uncut_NilE)
  with rest(1) have sent: "read_frame (example_network [frame]) = Some (encrypted, [])"
      "open_message example_aead encrypted (arrival (hd [?s1, ?s2])) = Inr (request_bytes ?rt)"
    using frame(2) by (simp_all add: arrival_def example_node_def)
  have network: "\<forall>frames. intact frames (example_network frames)"
    by (simp add: example_network_intact)
  from request_reaches_destination [OF example_cipher_ok network row sent]
  obtain nodes route' where "carry example_aead example_network frame [?s1, ?s2] = Inr nodes" "length nodes = 2"
      "\<exists>n. nd_written (last nodes) = nd_written (example_node ?far) @ [(n, serializeRoute route')]"
      "rt_hops route' = [example_address 1]"
    by (auto simp: createRoute_def)
  moreover from this(2) obtain node1 node2 where "nodes = [node1, node2]"
    by (auto simp: numeral_2_eq_2 length_Suc_conv)
  ultimately show ?thesis
    by (intro exI [of _ frame] exI [of _ ?s1] exI [of _ ?s2]) auto
qed

end
