(* ===== verification/Routing_Loop.thy ===== *)
theory Routing_Loop
  imports Route_Delivery
begin

text \<open>
  A request caught between two nodes that route its destination through each other. It goes back
  and forth on the one connection between them, a hop longer each time, until its length does not fit into
  the 16 bits of a frame any more.
\<close>

section \<open>Two nodes facing each other\<close>

text \<open>
  A node with a route to \<open>d\<close> through the peer the request comes from: the connection to the next
  hop is the one it arrives on.
\<close>

definition faces :: "address \<Rightarrow> station \<Rightarrow> address \<Rightarrow> bool" where
  "faces d s a \<longleftrightarrow> db_ok (nd_db (st_node s)) \<and> (\<exists>chs. rpc_ListChannels (st_lnd s) = Inr chs) \<and>
     \<not> ci_locked (arrival s) \<and> getLocalAddress (nd_db (st_node s)) \<noteq> d \<and>
     (\<exists>e. route_map (nd_db (st_node s)) d = Some e \<and> re_nextHop e = a) \<and>
     getPeerConn (nd_db (st_node s)) a = Inr (Some (st_in s)) \<and>
     ci_conn (arrival s) = st_out s \<and> session_ok (arrival s)"

text \<open>The nodes handle the request in turns; the result is the frame on its way and the two nodes.\<close>

fun bounce :: "aead \<Rightarrow> (u8 list list \<Rightarrow> u8 list list) \<Rightarrow> nat \<Rightarrow> u8 list \<Rightarrow> station \<Rightarrow> station \<Rightarrow>
    (u8 list \<times> station \<times> station) option res" where
  "bounce c network 0 frame s s' = Inr (Some (frame, s, s'))"
| "bounce c network (Suc n) frame s s' =
     bind_res (handled c s (network [frame])) (\<lambda>node.
     case handed_on s node of
       None \<Rightarrow> Inr None
     | Some frame \<Rightarrow> bounce c network n frame s' (s\<lparr>st_node := node\<rparr>))"

text \<open>
  The request is on its way to \<open>s\<close>: its frame is sealed for the sequence number of \<open>s\<close>, and the sender
  has already counted it.
\<close>

definition on_its_way :: "aead \<Rightarrow> Route \<Rightarrow> u8 list \<Rightarrow> station \<Rightarrow> station \<Rightarrow> bool" where
  "on_its_way c route frame s s' \<longleftrightarrow> seal_message c (request_bytes route) (arrival s) = Inr frame \<and>
     in_step (incrementSeqNumber (arrival s)) (arrival s')"

section \<open>One turn\<close>

lemma read_fitting_request:
  assumes "cipher_ok c" and "session_ok conn" and "seal_message c m conn = Inr frame" and "length m < 65520"
    and "intact [frame] segments"
  shows "\<exists>encrypted. read_frame segments = Some (encrypted, []) \<and> open_message c encrypted conn = Inr m"
proof -
  have same: "in_step conn conn"
    by (simp add: in_step_def)
  obtain frame' encrypted where "seal_message c m conn = Inr frame'" "open_message c encrypted conn = Inr m"
      "\<forall>frames segments. intact (frame' # frames) segments \<longrightarrow>
        (\<exists>rest. read_frame segments = Some (encrypted, rest) \<and> intact frames rest)"
    by (rule frame_opens [OF assms(1,2) same assms(4)])
  then obtain rest where rest: "read_frame segments = Some (encrypted, rest)" "intact [] rest"
      "open_message c encrypted conn = Inr m"
    using assms(3,5) by auto
  from rest(2) have "rest = []"
    by (auto simp: intact_def elim: uncut_NilE)
  with rest show ?thesis
    by simp
qed

lemma bounce_once:
  assumes "cipher_ok c" and "faces (rt_destination route) s a" and "session_ok (arrival s')"
    and "on_its_way c route frame s s'" and "intact [frame] segments"
    and "length (rt_token route) = 10" and "length (rt_hops route) \<le> 16373"
  shows "\<exists>node frame' route'. handled c s segments = Inr node \<and> handed_on s node = Some frame' \<and>
    on_its_way c route' frame' s' (s\<lparr>st_node := node\<rparr>) \<and> faces (rt_destination route) (s\<lparr>st_node := node\<rparr>) a \<and>
    rt_hops route' = rt_hops route @ [a] \<and> rt_destination route' = rt_destination route \<and> rt_token route' = rt_token route"
proof -
  let ?node = "st_node s" and ?r = "st_in s"
  let ?n = "entered ?r ?node"
  obtain e chs where raw: "db_ok (nd_db ?node)" "rpc_ListChannels (st_lnd s) = Inr chs" "\<not> ci_locked (arrival s)"
      "rt_destination route \<noteq> getLocalAddress (nd_db ?node)" "route_map (nd_db ?node) (rt_destination route) = Some e"
      "re_nextHop e = a" "getPeerConn (nd_db ?node) a = Inr (Some ?r)" "ci_conn (arrival s) = st_out s"
      "session_ok (arrival s)"
    using assms(2) unfolding faces_def by metis
  have way: "seal_message c (request_bytes route) (arrival s) = Inr frame" "in_step (incrementSeqNumber (arrival s)) (arrival s')"
    using assms(4) by (simp_all add: on_its_way_def)
  have "length (request_bytes route) < 65520"
    using assms(6,7) by (simp add: length_request_bytes)
  then obtain encrypted where read: "read_frame segments = Some (encrypted, [])"
      "open_message c encrypted (arrival s) = Inr (request_bytes route)"
    using read_fitting_request [OF assms(1) raw(9) way(1) _ assms(5)] by blast
  have message: "processForwardRouteMessage (request_bytes route) = Inr (Inr route)"
    using assms(6,7) by (simp add: process_request_bytes)
  have entered: "db_ok (nd_db ?n)" "rt_destination route \<noteq> getLocalAddress (nd_db ?n)"
      "route_map (nd_db ?n) (rt_destination route) = Some e" "getPeerConn (nd_db ?n) (re_nextHop e) = Inr (Some ?r)"
    using raw by simp_all
  obtain route' where hop: "handle_forward c (st_lnd s) (request_bytes route) ?n = send_message c ?r (request_bytes route') ?n"
      "rt_hops route' = rt_hops route @ [a]" "rt_destination route' = rt_destination route" "rt_token route' = rt_token route"
    by (rule relayed_request [OF entered(1) raw(2) message entered(2-4), of c])
      (simp add: raw(6) request_bytes_def)
  have sessions: "session_ok (nd_conns ?n ?r)" "in_step (nd_conns ?n ?r) (arrival s')"
    using raw(9) way(2) unfolding arrival_def by simp_all (simp add: in_step_def)
  then obtain frame' where sealed: "seal_message c (request_bytes route') (nd_conns ?n ?r) = Inr frame'"
      "send_message c ?r (request_bytes route') ?n = Inr (upd_conn ?r incrementSeqNumber (conn_write ?r frame' ?n))"
    using send_message_eq [OF sessions(1)] by blast
  define node where "node = mutex_unlock ?r (upd_conn ?r incrementSeqNumber (conn_write ?r frame' ?n))"
  have "handle_message c (st_lnd s) (st_peer s) ?r encrypted ?node = Inr (Continues node)"
    using handle_opened [of c encrypted ?node ?r] read(2) raw(3) hop(1) sealed(2)
    by (simp add: arrival_def handle_request_bytes node_def)
  then have handled: "handled c s segments = Inr node"
    using read(1) by (simp add: handled_def)
  have db: "nd_db node = nd_db ?node" and written: "nd_written node = nd_written ?node @ [(st_out s, frame')]"
    using raw(8) by (simp_all add: node_def arrival_def)
  have after: "arrival (s\<lparr>st_node := node\<rparr>) =
      (incrementSeqNumber (incrementSeqNumber ((arrival s)\<lparr>ci_locked := True\<rparr>)))\<lparr>ci_locked := False\<rparr>"
    by (simp add: arrival_def node_def)
  have "faces (rt_destination route) (s\<lparr>st_node := node\<rparr>) a"
    using assms(2) db after by (simp add: faces_def)
  moreover have "on_its_way c route' frame' s' (s\<lparr>st_node := node\<rparr>)"
    using sealed(1) sessions(2) way(2) seal_message_in_step [OF sessions(2)]
    by (simp add: on_its_way_def after in_step_def)
  ultimately show ?thesis
    using handled written hop(2-4) by (auto simp: handed_on_def)
qed

text \<open>A request of 16374 hops: the length of its frame is counted as 2.\<close>

definition rejects_short :: "aead \<Rightarrow> bool" where
  "rejects_short c \<longleftrightarrow> (\<forall>k n e. length n = AESBaseIVSize \<longrightarrow> length e < 16 \<longrightarrow> (\<exists>err. gcm_Open c k n e = Inl err))"

lemma oversized_request:
  assumes "cipher_ok c" and "rejects_short c" and "faces d s a" and "on_its_way c route frame s s'"
    and "intact [frame] segments" and "length (rt_token route) = 10" and "length (rt_hops route) = 16374"
  shows "\<exists>err. handled c s segments = Inl (Fatal err)"
proof -
  have s: "session_ok (arrival s)" "\<not> ci_locked (arrival s)"
    using assms(3) by (simp_all add: faces_def)
  let ?body = "gcm_Seal c (ci_sessionKey (arrival s)) (nonce_of (arrival s)) (request_bytes route)"
  have len: "length ?body = 65538"
    using cipher_session(2) [OF assms(1) s(1)] assms(6,7) by (simp add: length_request_bytes)
  then have "?body \<noteq> []"
    by auto
  moreover have "frame = be_bytes 2 (of_nat (length ?body) :: u16) @ ?body"
    using assms(4) seal_message_eq [OF s(1), of c "request_bytes route"] by (simp add: on_its_way_def Let_def)
  ultimately obtain rest where read: "read_frame segments = Some (take 2 ?body, rest)"
    using read_frame_cut [of ?body segments] assms(5) len by auto
  let ?conn = "(nd_conns (st_node s) (st_in s))\<lparr>ci_locked := True\<rparr>"
  have conn: "session_ok ?conn"
    using s(1) by (simp add: arrival_def)
  have "length (nonce_of ?conn) = AESBaseIVSize" "length (take 2 ?body) < 16"
    using length_nonce_of [OF conn] by (simp_all add: aes_sizes)
  then obtain err where "gcm_Open c (ci_sessionKey ?conn) (nonce_of ?conn) (take 2 ?body) = Inl err"
    using assms(2) unfolding rejects_short_def by blast
  then have "open_message c (take 2 ?body) ?conn = Inl (Fatal err)"
    using open_message_eq [OF conn, of c "take 2 ?body"] by simp
  then show ?thesis
    using read s(2) by (simp add: handled_def handle_message_def Let_def arrival_def)
qed

section \<open>Property\<close>

text \<open>The hops the two nodes add in turns.\<close>

fun in_turns :: "nat \<Rightarrow> address \<Rightarrow> address \<Rightarrow> address list" where
  "in_turns 0 a b = []"
| "in_turns (Suc n) a b = a # in_turns n b a"

lemma length_in_turns [simp]: "length (in_turns n a b) = n"
  by (induction n arbitrary: a b) simp_all

lemma bounce_many:
  assumes "cipher_ok c" and "\<forall>frames. intact frames (network frames)"
    and "faces (rt_destination route) s a" and "faces (rt_destination route) s' b" and "on_its_way c route frame s s'"
    and "length (rt_token route) = 10" and "length (rt_hops route) + n \<le> 16374"
  shows "\<exists>frame' s1 s1' route' a' b'. bounce c network n frame s s' = Inr (Some (frame', s1, s1')) \<and>
    on_its_way c route' frame' s1 s1' \<and> rt_hops route' = rt_hops route @ in_turns n a b \<and>
    faces (rt_destination route) s1 a' \<and> rt_token route' = rt_token route \<and> rt_destination route' = rt_destination route"
  using assms(3-)
proof (induction n arbitrary: route s s' a b frame)
  case (Suc n)
  have "session_ok (arrival s')" "length (rt_hops route) \<le> 16373" "intact [frame] (network [frame])"
    using Suc.prems(2,5) assms(2) by (simp_all add: faces_def)
  then obtain node frame' route' where once: "handled c s (network [frame]) = Inr node" "handed_on s node = Some frame'"
      "on_its_way c route' frame' s' (s\<lparr>st_node := node\<rparr>)" "faces (rt_destination route) (s\<lparr>st_node := node\<rparr>) a"
      "rt_hops route' = rt_hops route @ [a]" "rt_destination route' = rt_destination route" "rt_token route' = rt_token route"
    using bounce_once [OF assms(1) Suc.prems(1) _ Suc.prems(3) _ Suc.prems(4)] by blast
  have "faces (rt_destination route') s' b" "faces (rt_destination route') (s\<lparr>st_node := node\<rparr>) a"
      "length (rt_token route') = 10" "length (rt_hops route') + n \<le> 16374"
    using once(4-7) Suc.prems(2,4,5) by simp_all
  from Suc.IH [OF this(1,2) once(3) this(3,4)] show ?case
    using once by (auto simp del: in_turns.simps(1))
qed auto

text \<open>
  C31: a routing loop ends in a crash. Let two nodes route a destination through each other, on one
  connection whose session is in step, let a request for it be on its way to the first, and the
  network not cut what is read at once. Then, with \<open>k\<close> hops in the request, for every \<open>n\<close> up to
  \<open>16374 - k\<close> the nodes have handed it on \<open>n\<close> times, each adding its hop in turn, and it is never
  delivered; the request of 16374 hops is written with a length that has overflown, and the node that
  reads it ends with a fatal error, as AES-GCM rejects texts shorter than its tag.
\<close>

theorem routing_loop_ends_in_crash:
  assumes "cipher_ok c" and "rejects_short c" and "\<forall>frames. intact frames (network frames)"
    and "faces (rt_destination route) s a" and "faces (rt_destination route) s' b" and "on_its_way c route frame s s'"
    and "length (rt_token route) = 10" and "length (rt_hops route) = k" and "k \<le> 16373"
  shows "(\<forall>n \<le> 16374 - k. \<exists>frame' s1 s1' route'. bounce c network n frame s s' = Inr (Some (frame', s1, s1')) \<and>
      on_its_way c route' frame' s1 s1' \<and> rt_hops route' = rt_hops route @ in_turns n a b) \<and>
    (\<exists>frame' s1 s1' err. bounce c network (16374 - k) frame s s' = Inr (Some (frame', s1, s1')) \<and>
      handled c s1 (network [frame']) = Inl (Fatal err))"
proof -
  have turns: "\<exists>frame' s1 s1' route' a'. bounce c network n frame s s' = Inr (Some (frame', s1, s1')) \<and>
      on_its_way c route' frame' s1 s1' \<and> rt_hops route' = rt_hops route @ in_turns n a b \<and>
      faces (rt_destination route) s1 a' \<and> rt_token route' = rt_token route" if "n \<le> 16374 - k" for n
    using bounce_many [OF assms(1,3-7), of n] that assms(8,9) by fastforce
  obtain frame' s1 s1' route' a' where last: "bounce c network (16374 - k) frame s s' = Inr (Some (frame', s1, s1'))"
      "on_its_way c route' frame' s1 s1'" "rt_hops route' = rt_hops route @ in_turns (16374 - k) a b"
      "faces (rt_destination route) s1 a'" "rt_token route' = rt_token route"
    using turns [of "16374 - k"] by blast
  have "length (rt_hops route') = 16374" "length (rt_token route') = 10" "intact [frame'] (network [frame'])"
    using last(3,5) assms(3,7-9) by simp_all
  then obtain err where "handled c s1 (network [frame']) = Inl (Fatal err)"
    using oversized_request [OF assms(1,2) last(4,2)] by blast
  then show ?thesis
    using turns last(1) by blast
qed

theorem routing_loop_ends_in_crash_witness:
  "\<exists>frame s s' frame' s1 s1' err.
     bounce example_aead example_network 16374 frame s s' = Inr (Some (frame', s1, s1')) \<and>
     handled example_aead s1 (example_network [frame']) = Inl (Fatal err)"
proof -
  let ?rt = "createRoute (replicate 10 65) (example_address 2)"
  obtain db where db: "db_ok db" "route_map db (example_address 2) = Some (example_route 2 1 50 7)"
      "getPeerConn db (example_address 1) = Inr (Some 0)" "db_localAddress db = 0"
    using example_routed [of 2] by auto
  let ?s = "\<lparr>st_lnd = example_lnd [], st_peer = 0, st_in = 0, st_out = ci_conn example_conn, st_node = example_node db\<rparr>"
  let ?s' = "?s\<lparr>st_node := (example_node db)\<lparr>nd_conns := (\<lambda>_. incrementSeqNumber example_conn)\<rparr>\<rparr>"
  have faces: "faces (rt_destination ?rt) ?s (example_address 1)" "faces (rt_destination ?rt) ?s' (example_address 1)"
    using db example_conn_ok by (simp_all add: faces_def arrival_def example_node_def example_lnd_def getLocalAddress_def
        createRoute_def) (simp_all add: example_route_def)
  obtain frame where "seal_message example_aead (request_bytes ?rt) example_conn = Inr frame"
    using seal_message_eq [OF example_conn_ok] by (auto simp: Let_def)
  then have way: "on_its_way example_aead ?rt frame ?s ?s'"
    by (simp add: on_its_way_def arrival_def example_node_def in_step_def)
  have "rejects_short example_aead"
  proof -
    have "take 16 e \<noteq> n @ [17, 18, 19, 20]" if "length n = 12" "length e < 16" for n e :: "u8 list"
    proof
      assume "take 16 e = n @ [17, 18, 19, 20]"
      then have "length (take 16 e) = 16" using that(1) by simp
      then show False using that(2) by simp
    qed
    then show ?thesis
      by (simp add: rejects_short_def example_aead_def aes_sizes)
  qed
  moreover have "\<forall>frames. intact frames (example_network frames)"
    by (simp add: example_network_intact)
  moreover have "length (rt_token ?rt) = 10" "length (rt_hops ?rt) = 0" "(0 :: nat) \<le> 16373"
    by (simp_all add: createRoute_def)
  ultimately show ?thesis
    using routing_loop_ends_in_crash [OF example_cipher_ok _ _ faces way, of example_network 0]
    unfolding diff_zero by blast
qed

end
