(* ===== verification/Send_Race.thy ===== *)
theory Send_Race
  imports Route_Delivery
begin

text \<open>
  Goroutines on one connection. The periodic table requests (\<open>sendTableRequestPeriodically\<close>) and the
  message handler (\<open>handlePeerConnection\<close>) work under the mutex of the connection; here their
  instructions interleave in any way, and the mutex makes every iteration one step, as the other
  theories have it. Forwarding a route (\<open>ForwardRoute\<close>) does not take the mutex of the
  connection it writes on, and races with both.
\<close>

section \<open>Instructions\<close>










section \<open>Interleaving\<close>






section \<open>An iteration without interruption\<close>






section \<open>The mutex makes iterations atomic\<close>








section \<open>Forwarding takes no mutex\<close>

text \<open>
  C16: forwarding a route races with the other senders. Let the periodic goroutine have sealed its table
  request for a connection, under the mutex, and not yet written it. No other request goes out until it has
  unlocked; but a handler that forwards a route to the same peer (\<open>ForwardRoute\<close>) does not wait: it seals
  the route under the same nonce and writes it. When the request is written after it, the peer
  opens the route and, with its sequence number advanced, ends with a fatal error on the request, if
  the cipher rejects a text sealed under another nonce.
\<close>

theorem forwarding_races:
  assumes "cipher_ok c" and "session_ok (nd_conns node r)" and "in_step (nd_conns node r) b"
    and "getPeerConn (nd_db node) a = Inr (Some r)"
    and "length (rt_token route) = 10" and "length (rt_hops route) < 16374"
    and "\<forall>m n'. length n' = 12 \<longrightarrow> n' \<noteq> nonce_of (nd_conns node r) \<longrightarrow>
      (\<exists>err. gcm_Open c (ci_sessionKey (nd_conns node r)) n'
        (gcm_Seal c (ci_sessionKey (nd_conns node r)) (nonce_of (nd_conns node r)) m) = Inl err)"
  shows "\<exists>frame1 node1 frame2 node2 encrypted1 encrypted2 err.
    request_sealed c r (request_of genesisBlock) node = Inr (frame1, node1) \<and>
    send_table_request c r node1 = Inr (Blocks node1) \<and>
    ForwardRoute c route a node1 = Inr node2 \<and>
    nd_written (request_sent r frame1 node2) =
      nd_written node @ [(ci_conn (nd_conns node r), frame2), (ci_conn (nd_conns node r), frame1)] \<and>
    (\<forall>segments. intact [frame2, frame1] segments \<longrightarrow>
       (\<exists>rest. read_frame segments = Some (encrypted2, rest) \<and> read_frame rest = Some (encrypted1, []))) \<and>
    open_message c encrypted2 b = Inr (request_bytes route) \<and>
    (\<forall>lnClient pk r' peer. nd_conns peer r' = incrementSeqNumber b \<longrightarrow> \<not> ci_locked b \<longrightarrow>
       handle_message c lnClient pk r' encrypted1 peer = Inl (Fatal err))"
proof -
  let ?conn = "nd_conns node r" and ?node1 = "mutex_lock r node"
  let ?seal = "gcm_Seal c (ci_sessionKey ?conn) (nonce_of ?conn)"
  let ?frame = "\<lambda>body :: u8 list. be_bytes 2 (of_nat (length body) :: u16) @ body"
  let ?body1 = "?seal (request_of genesisBlock)" and ?body2 = "?seal (request_bytes route)"
  let ?node2 = "upd_conn r incrementSeqNumber (conn_write r (?frame ?body2) ?node1)"
  have locked: "session_ok (nd_conns ?node1 r)" "ci_sessionKey (nd_conns ?node1 r) = ci_sessionKey ?conn"
    "nonce_of (nd_conns ?node1 r) = nonce_of ?conn"
    using assms(2) by simp_all
  have sealed: "request_sealed c r (request_of genesisBlock) node = Inr (?frame ?body1, ?node1)"
    using seal_message_eq [OF locked(1)] locked(2,3) by (simp add: request_sealed_def Let_def)
  have waits: "send_table_request c r ?node1 = Inr (Blocks ?node1)"
    by (simp add: send_table_request_def request_of_def)
  have forwarded: "ForwardRoute c route a ?node1 = Inr ?node2"
    using seal_message_eq [OF locked(1)] locked(2,3) assms(4)
    by (simp add: ForwardRoute_def createForwardRouteMessage_def send_message_def request_bytes_def Let_def)
  have sizes: "?body1 \<noteq> []" "length ?body1 < 65536" "?body2 \<noteq> []" "length ?body2 < 65536"
    using cipher_session(2) [OF assms(1,2)] assms(5,6)
    by (auto simp: length_request_bytes request_of_def simp flip: length_greater_0_conv)
  have frames: "\<exists>rest. read_frame segments = Some (?body2, rest) \<and> read_frame rest = Some (?body1, [])"
    if segments: "intact [?frame ?body2, ?frame ?body1] segments" for segments
  proof -
    obtain rest where rest: "read_frame segments = Some (?body2, rest)" "intact [?frame ?body1] rest"
      using read_frame_intact [OF segments sizes(3,4)] by blast
    then obtain last where "read_frame rest = Some (?body1, last)" "intact [] last"
      using read_frame_intact [OF _ sizes(1,2)] by blast
    then show ?thesis
      using rest(1) by (auto simp: intact_def elim: uncut_NilE)
  qed
  have b: "session_ok b" "nonce_of b = nonce_of ?conn" "ci_sessionKey b = ci_sessionKey ?conn"
    using assms(2,3) by (auto simp: session_ok_def in_step_def nonce_of_def)
  have opened: "open_message c ?body2 b = Inr (request_bytes route)"
    using open_message_eq [OF b(1), of c] b(2,3) cipher_session(1) [OF assms(1,2)] by simp
  have "length (nonce_of (incrementSeqNumber b)) = 12" "nonce_of (incrementSeqNumber b) \<noteq> nonce_of ?conn"
    using b(1,2) next_nonce_differs [OF b(1)] by simp_all
  then obtain err where "gcm_Open c (ci_sessionKey ?conn) (nonce_of (incrementSeqNumber b)) ?body1 = Inl err"
    using assms(7) by blast
  then have "open_message c ?body1 (incrementSeqNumber b) = Inl (Fatal err)"
    using b by (simp add: open_message_eq)
  then have fatal: "handle_message c lnClient pk r' ?body1 peer = Inl (Fatal err)"
    if "nd_conns peer r' = incrementSeqNumber b" "\<not> ci_locked b" for lnClient pk r' peer
    using that by (simp add: handle_message_def Let_def)
  show ?thesis
    using sealed waits forwarded frames opened fatal
    by (intro exI [of _ "?frame ?body1"] exI [of _ ?node1] exI [of _ "?frame ?body2"] exI [of _ ?node2]
        exI [of _ ?body1] exI [of _ ?body2] exI [of _ err]) (simp add: request_sent_def)
qed

section \<open>Examples\<close>



theorem forwarding_races_witness:
  "\<exists>node node1 node2 frame encrypted err. request_sealed example_aead 0 (request_of genesisBlock) node = Inr (frame, node1) \<and>
     ForwardRoute example_aead (createRoute (replicate 10 65) 0) (example_address 1) node1 = Inr node2 \<and>
     handle_message example_aead (example_lnd []) 0 0 encrypted
       ((example_node (createDB ''data''))\<lparr>nd_conns := (\<lambda>_. incrementSeqNumber example_conn)\<rparr>) = Inl (Fatal err)"
proof -
  let ?rt = "createRoute (replicate 10 65) 0"
  obtain db where db: "getPeerConn db (example_address 1) = Inr (Some 0)"
    using example_routed [of 2] by auto
  let ?node = "example_node db"
  let ?peer = "(example_node (createDB ''data''))\<lparr>nd_conns := (\<lambda>_. incrementSeqNumber example_conn)\<rparr>"
  have conn: "nd_conns ?node 0 = example_conn" "nd_db ?node = db" "in_step example_conn example_conn"
      "nd_conns ?peer 0 = incrementSeqNumber example_conn" "\<not> ci_locked example_conn"
    by (simp_all add: example_node_def in_step_def example_conn_def)
  have "session_ok (nd_conns ?node 0)" "in_step (nd_conns ?node 0) example_conn"
      "getPeerConn (nd_db ?node) (example_address 1) = Inr (Some 0)"
      "length (rt_token ?rt) = 10" "length (rt_hops ?rt) < 16374"
    using db by (simp_all add: conn example_conn_ok createRoute_def)
  note race = forwarding_races [OF example_cipher_ok this]
  have "\<forall>m n'. length n' = 12 \<longrightarrow> n' \<noteq> nonce_of (nd_conns ?node 0) \<longrightarrow>
      (\<exists>err. gcm_Open example_aead (ci_sessionKey (nd_conns ?node 0)) n'
        (gcm_Seal example_aead (ci_sessionKey (nd_conns ?node 0)) (nonce_of (nd_conns ?node 0)) m) = Inl err)"
    by (simp add: conn example_aead_rejects example_conn_ok)
  from race [OF this] obtain frame node1 node2 encrypted err where
      "request_sealed example_aead 0 (request_of genesisBlock) ?node = Inr (frame, node1)"
      "ForwardRoute example_aead ?rt (example_address 1) node1 = Inr node2"
      "\<forall>lnClient pk r' peer. nd_conns peer r' = incrementSeqNumber example_conn \<longrightarrow> \<not> ci_locked example_conn \<longrightarrow>
         handle_message example_aead lnClient pk r' encrypted peer = Inl (Fatal err)"
    by blast
  then show ?thesis
    using conn(4,5) by blast
qed

end
