(* ===== verification/Spec2Isabelle.thy ===== *)
theory Spec2Isabelle
  imports Client_Properties Node_Steps Route_Capacity Routing_Loop Send_Race
begin

text \<open>
  \<^bold>\<open>The lightning distributed routing (LDR) node.\<close>

  The program gives nodes of the lightning network short IPv4-like addresses, registered in
  Bitcoin transactions, and lets neighbours exchange distance-vector tables of how much can be
  sent to which address. A sender finds a route by dialing the destination, announcing a token, and
  sending a request along the tables; every hop adds itself, and the destination writes the route
  back on the announced connection. The parts and how they interact:

  \<^item> \<open>client.go\<close> starts the node: it reads the files, follows the blockchain, lets the user register
    an address, connects to the channel peers and runs the menu.
  \<^item> \<open>ldrlib/db.go\<close> is the state everything shares: a binary tree over the bits of an address holding
    the registrations and the installed route of every address, an index from node keys to
    addresses, a stack of the routes in the order of their last change, and the connections.
  \<^item> \<open>ldrlib/bitcoin.go\<close> broadcasts registrations and scans blocks for them; \<open>db.go\<close> verifies what
    is found and adds it to the tree and to the file. \<open>bitcoindwrapper\<close> speaks to the daemon.
  \<^item> \<open>ldrlib/networking.go\<close> opens and accepts connections, performs the handshake and handles the
    messages of \<open>message.go\<close>, sealed as in \<open>crypto.go\<close>; \<open>routing.go\<close> builds and searches routes.
  \<^item> \<open>ldrlib/ln.go\<close> asks the lightning node for channels, neighbours and signatures.

  \<^bold>\<open>Conventions.\<close> A run-time panic or \<open>log.Fatal\<close> is the left value of \<open>'a res\<close> (theory
  \<open>LDR_Prelude\<close>); a Go \<open>error\<close> result is a value inside the right side. Machine integers are words of
  their width, \<open>int64\<close> compared with \<open><s\<close>. Fixed-size arrays are the type \<open>arr\<close>, copied into as
  \<open>copy\<close> does; slices are lists, cut by \<open>slice\<close>, which panics out of range. Pointers to routing
  entries and connections are references into a store of their own, because entries are shared
  between tree and stack and one connection between goroutines; tree nodes are not shared and are a
  datatype. Files are byte lists in the record \<open>disk\<close>. What is not in the repository is an argument:
  \<open>Lnd\<close> or below it \<open>grpc\<close> (lnd and zbase32), \<open>Bitcoind\<close> or below it \<open>transport\<close> (HTTP and JSON text), \<open>TxLib\<close> (btcd),
  \<open>aead\<close> and \<open>rsa\<close> (Go's AES-GCM, RSA, x509 and PEM), \<open>Env\<close> (the network and the random source),
  \<open>parse6\<close> (the part of \<open>net.ParseIP\<close> for texts with a colon). Laws of these are hypotheses where
  they are used: opening what was sealed, decrypting what was encrypted, a recoverable signature.

  \<^bold>\<open>Theories.\<close>

  \<^item> \<open>LDR_Prelude\<close>, \<open>Endian\<close>, \<open>Go_Strings\<close>, \<open>Terminal_Input\<close>: faults, arrays, slices, \<open>encoding/binary\<close>,
    \<open>encoding/hex\<close>, decimal and dotted numbers and their reading.
  \<^item> \<open>Address_Bits\<close> (\<open>bitToByte\<close>, \<open>byteToBit\<close>), \<open>Binary_Tree\<close> (\<open>binaryTree.go\<close> and the walks of \<open>db.go\<close>),
    \<open>Routing_Stack\<close> (\<open>routingStack.go\<close>), \<open>Address_DB\<close> (the record \<open>DB\<close>, lookups and updates):
    \<open>addr_map\<close> and \<open>route_map\<close> read the tree as finite maps, \<open>db_ok\<close> is the invariant of the database.
  \<^item> \<open>Keyed_Store\<close> is the contract of a store found by a key, with the loops that load records
    proved once; \<open>Registry\<close> provides it for registrations, \<open>Routing_Table\<close> for routes.
  \<^item> \<open>Suggest_Address\<close>: the search for a free address near a neighbour's, against a specification by
    levels of the tree. \<open>Example_Network\<close>: small databases for the witnesses.
  \<^item> \<open>Routing_Table\<close>, \<open>Routing_Updates\<close>, \<open>Routing_Sync\<close>, \<open>Routing_Properties\<close>: learning destinations,
    following channel balances, and what both do to \<open>route_map\<close> and the stack.
  \<^item> \<open>Record_Codec\<close> is the contract of a fixed-size format, \<open>Wire_Format\<close> the formats of \<open>utils.go\<close> as
    its interpretations, \<open>Messages\<close> the three messages, \<open>Persistence\<close> the two files.
  \<^item> \<open>Amounts\<close>, \<open>Bitcoin_Scan\<close>, \<open>Bitcoin_RPC\<close>: amounts as \<open>float64\<close>, registration transactions and the
    scan, and the daemon's JSON-RPC. \<open>Lightning\<close>: \<open>ln.go\<close>. \<open>Registration\<close>: verification and the
    synchronisation with the chain.
  \<^item> \<open>Crypto_Seq\<close> and \<open>RSA_Keys\<close>: \<open>crypto.go\<close>. \<open>Route_Search\<close>: \<open>addHopToRoute\<close>. \<open>Peer_Session\<close>,
    \<open>Session_Properties\<close>, \<open>Session_Handler\<close>: the record \<open>Node\<close>, sealing, the message handler, the
    mutex, the periodic requests. \<open>Handshake\<close>, \<open>Connections\<close>, \<open>Route_Probe\<close>: the handshake, dialing and
    accepting, \<open>GetRouteAuto\<close> and \<open>GetRouteManual\<close>.
  \<^item> \<open>Database_Steps\<close>: the database as a state machine, one rule per operation, and its invariants in
    every reachable state. \<open>Disk_State\<close>: what the two files have to do with the database.
    \<open>Node_Frame\<close>: what the operations of a running node leave alone; \<open>Node_Steps\<close>: the whole node,
    connections and files included, as a state machine with restarts, and the runs of the program in it.
  \<^item> \<open>Session_Link\<close>: the contract of a link whose ends take turns, provided by the session.
    \<open>Table_Learning\<close>: learning a whole table. \<open>Table_Exchange\<close> and \<open>Route_Delivery\<close>: a table request
    between two nodes and a route request along a row of nodes, from frame to frame, each frame
    written on the TCP connection on which the next node reads it; \<open>Routing_Loop\<close>: a request between two
    nodes that hand it to each other. \<open>Route_Capacity\<close>: the capacities that tables bring along such a row
    and a request collects on it. \<open>Send_Race\<close>: the table requests and the message handler of one
    connection as programs of instructions that interleave, and \<open>ForwardRoute\<close>, which takes no mutex.
  \<^item> \<open>Client\<close>, \<open>Printing\<close>, \<open>Client_Properties\<close>: the start-up, the menus and what they print. \<open>Startup\<close>: the
    lnd client of \<open>lndwrapper\<close>, \<open>main\<close> from the flags to the menu, and the wallet menu.

  \<^bold>\<open>What the theorems show.\<close> Every reachable database is consistent: lookups agree, no lookup by key
  panics, the stack holds exactly the installed routes. Every reachable node can restart: its files
  hold the registry, a registration is permanent, its connections have their keys, and the runs of
  the program stay among these states. Accepted registrations are signed, new and follow a
  suggestion; the registrations the program broadcasts are the ones it finds, down to the
  JSON of the daemon. The better route is kept and none exceeds a channel balance. While TCP
  does not cut what is read at once, conversations arrive as they were sent if the ends take turns,
  tables are asked for and learnt, and a request reaches its destination along the tables with every
  hop added, as long as it fits into a frame, and finds the capacity the tables promise. The
  mutex makes the table requests and the handler of a connection atomic. Theorems also state
  where the code does not do what it means to: suggestions of taken addresses, routing loops and how
  they end, messages that cross, messages that TCP cuts, forwarding without the mutex, the handshake
  that compares different bytes, reversed stacks, and the inputs that crash or block a node.

  \<^bold>\<open>Bytes on a connection.\<close> \<open>conn.Read\<close> may return fewer bytes than the buffer has room for, and the
  message loop ignores the count. The model therefore reads from a list of segments, at most one per
  \<open>Read\<close> (\<open>conn_read\<close>, \<open>read_frame\<close>), and what is missing stays zero. \<open>intact\<close> says that no length
  and no ciphertext is cut by a segment boundary; the theorems on delivery assume it of the network, and
  \<open>short_read_is_fatal\<close> says what happens otherwise. A ciphertext has less than 65536 bytes, which
  bounds a table to 5459 entries and a route request to 16373 hops; beyond it the length overflows.
  What the handshakes and the dialed destination read is given by \<open>Env\<close> or by arguments, a buffer at a time.

  \<^bold>\<open>Loops.\<close> Loops over lists are structural. \<open>handlePeerConnection\<close> reads at least two bytes of its
  segments per message, \<open>read_records\<close> a record of its file, \<open>optionMenu\<close> a line of its input: these
  lengths are the measures, so no fuel is needed. \<open>scan_blocks\<close> is a partial function, since its
  \<open>uint64\<close> index may wrap round; it is shown to end below the greatest block number. The endless
  loops of \<open>SynchronizeRoutingDB\<close>, \<open>SynchronizeAddressDB\<close> and the table requests are given by
  their rounds.

  \<^bold>\<open>Not modelled.\<close> HTTP below the timeout of a call, and the text of JSON; gRPC; the parsing of the command
  line; logging, and the texts of the menus; errors of files other than a missing one; the stubs
  \<open>offerDestinationHandshake\<close>, \<open>acceptDestinationHandshake\<close> and \<open>privateKeyFromAddress\<close>, which nobody
  calls. Goroutines interleave by whole operations (\<open>Database_Steps\<close>, \<open>Node_Steps\<close>), except
  where they send on one connection (\<open>Send_Race\<close>); the ones \<open>main\<close> starts are steps of \<open>Node_Steps\<close>,
  not of \<open>main_start\<close>. A write to a connection that fails is only logged by the source and is not a branch.
\<close>

end
